(* ===== verification/Bento_Prelude.thy ===== *)
theory Bento_Prelude
  imports Main "HOL-Library.Word"
begin

text \<open>
  Shared vocabulary of the development.

  \<^item> \<open>result\<close>: Rust's \<open>Result<T, E>\<close> as a sum, with \<open>and_then\<close> for the
    question-mark operator, \<open>ensure\<close> for a guarded early return, \<open>ok_or\<close>
    for \<open>Option::ok_or\<close> and \<open>try_map\<close> for collecting an iterator of results.
  \<^item> Machine integers.  Addresses are \<open>32 word\<close>.  Counters and sizes are
    \<open>nat\<close> or \<open>int\<close> with the width written out where the code saturates,
    converts or can overflow.
  \<^item> Decimal text, as \<open>fmt::Display\<close> prints and \<open>str::parse\<close> reads it.
  \<^item> The loop that returns the first acceptable value of a range.

  The collection \<open>result_simps\<close> opens a result, \<open>text_simps\<close> holds the facts
  about printed and parsed text.
\<close>

named_theorems result_simps
named_theorems text_simps

unbundle bit_operations_syntax

type_synonym ('e, 'a) result = "'e + 'a"

section \<open>Results\<close>

fun and_then :: "('e, 'a) result \<Rightarrow> ('a \<Rightarrow> ('e, 'b) result) \<Rightarrow> ('e, 'b) result" where
  "and_then (Inl e) f = Inl e"
| "and_then (Inr x) f = f x"

definition ensure :: "bool \<Rightarrow> 'e \<Rightarrow> ('e, unit) result" where
  "ensure b e = (if b then Inr () else Inl e)"

fun ok_or :: "'e \<Rightarrow> 'a option \<Rightarrow> ('e, 'a) result" where
  "ok_or e None = Inl e"
| "ok_or e (Some x) = Inr x"

fun to_ok :: "('e, 'a) result \<Rightarrow> 'a option" where
  "to_ok (Inr x) = Some x"
| "to_ok (Inl e) = None"

fun is_ok :: "('e, 'a) result \<Rightarrow> bool" where
  "is_ok (Inr x) = True"
| "is_ok (Inl e) = False"

fun try_map :: "('a \<Rightarrow> ('e, 'b) result) \<Rightarrow> 'a list \<Rightarrow> ('e, 'b list) result" where
  "try_map f [] = Inr []"
| "try_map f (x # xs) = and_then (f x) (\<lambda>y. and_then (try_map f xs) (\<lambda>ys. Inr (y # ys)))"

fun try_fold :: "('a \<Rightarrow> 's \<Rightarrow> ('e, 's) result) \<Rightarrow> 'a list \<Rightarrow> 's \<Rightarrow> ('e, 's) result" where
  "try_fold f [] s = Inr s"
| "try_fold f (x # xs) s = and_then (f x s) (try_fold f xs)"

section \<open>Machine widths\<close>

definition u8_max :: nat where "u8_max = 255"
definition u16_max :: nat where "u16_max = 65535"
definition u32_max :: nat where "u32_max = 4294967295"
definition u64_max :: nat where "u64_max = 18446744073709551615"
definition i64_max :: int where "i64_max = 9223372036854775807"

definition saturating_add_u64 :: "nat \<Rightarrow> nat \<Rightarrow> nat" where
  "saturating_add_u64 a b = min (a + b) u64_max"

section \<open>Text\<close>

definition digit_char :: "nat \<Rightarrow> char" where
  "digit_char n = char_of (48 + n)"

definition digit_value :: "char \<Rightarrow> nat option" where
  "digit_value c = (let k = of_char c in if 48 \<le> k \<and> k \<le> 57 then Some (k - 48) else None)"

fun show_nat :: "nat \<Rightarrow> string" where
  "show_nat n = (if n < 10 then [digit_char n] else show_nat (n div 10) @ [digit_char (n mod 10)])"

declare show_nat.simps [simp del]

definition show_int :: "int \<Rightarrow> string" where
  "show_int i = (if i < 0 then ''-'' @ show_nat (nat (- i)) else show_nat (nat i))"

text \<open>A byte as two lower-case hexadecimal digits, \<open>{:02x}\<close>.\<close>

type_synonym byte = "8 word"

definition hex_digit :: "nat \<Rightarrow> char" where
  "hex_digit n = (if n < 10 then char_of (48 + n) else char_of (87 + n))"

definition hex_byte :: "byte \<Rightarrow> string" where
  "hex_byte b = [hex_digit (unat b div 16), hex_digit (unat b mod 16)]"

definition is_ascii_alphanumeric :: "char \<Rightarrow> bool" where
  "is_ascii_alphanumeric c =
    (let k = (of_char c :: nat) in 48 \<le> k \<and> k \<le> 57 \<or> 65 \<le> k \<and> k \<le> 90 \<or> 97 \<le> k \<and> k \<le> 122)"

fun digits_from :: "nat \<Rightarrow> string \<Rightarrow> nat option" where
  "digits_from acc [] = Some acc"
| "digits_from acc (c # cs) =
    (case digit_value c of None \<Rightarrow> None | Some d \<Rightarrow> digits_from (10 * acc + d) cs)"

text \<open>Rust's \<open>str::parse\<close> for an unsigned integer whose largest value is \<open>m\<close>:
  one optional plus sign, at least one digit, and no overflow.\<close>

definition parse_uint :: "nat \<Rightarrow> string \<Rightarrow> nat option" where
  "parse_uint m s =
    (let digits = (case s of [] \<Rightarrow> [] | c # cs \<Rightarrow> if c = CHR ''+'' then cs else c # cs) in
     if digits = [] then None
     else case digits_from 0 digits of
            None \<Rightarrow> None
          | Some n \<Rightarrow> if n \<le> m then Some n else None)"

fun split_on :: "char \<Rightarrow> string \<Rightarrow> string list" where
  "split_on d [] = [[]]"
| "split_on d (c # cs) =
    (if c = d then [] # split_on d cs
     else case split_on d cs of [] \<Rightarrow> [[c]] | w # ws \<Rightarrow> (c # w) # ws)"

fun split_once :: "char \<Rightarrow> string \<Rightarrow> (string \<times> string) option" where
  "split_once d [] = None"
| "split_once d (c # cs) =
    (if c = d then Some ([], cs)
     else case split_once d cs of None \<Rightarrow> None | Some (a, b) \<Rightarrow> Some (c # a, b))"

section \<open>Facts about results\<close>

lemma and_then_Inr_iff [result_simps]:
  "and_then r f = Inr y \<longleftrightarrow> (\<exists>x. r = Inr x \<and> f x = Inr y)"
  by (cases r) auto

lemma and_then_Inl_iff [result_simps]:
  "and_then r f = Inl e \<longleftrightarrow> r = Inl e \<or> (\<exists>x. r = Inr x \<and> f x = Inl e)"
  by (cases r) auto

lemma ensure_simps [simp]: "ensure True e = Inr ()" "ensure False e = Inl e"
  by (simp_all add: ensure_def)

lemma ensure_Inr_iff [simp]: "ensure b e = Inr u \<longleftrightarrow> b"
  by (simp add: ensure_def)

lemma ensure_Inl_iff [simp]: "ensure b e = Inl e' \<longleftrightarrow> \<not> b \<and> e' = e"
  by (auto simp: ensure_def)

lemma ok_or_Inr_iff [simp]: "ok_or e r = Inr x \<longleftrightarrow> r = Some x"
  by (cases r) auto

lemma ok_or_Inl_iff [simp]: "ok_or e r = Inl e' \<longleftrightarrow> r = None \<and> e' = e"
  by (cases r) auto

lemma to_ok_Some_iff [simp]: "to_ok r = Some x \<longleftrightarrow> r = Inr x"
  by (cases r) auto

lemma in_map_filter_iff [simp]: "y \<in> set (List.map_filter f xs) \<longleftrightarrow> (\<exists>x \<in> set xs. f x = Some y)"
  by (induction xs) (auto simp: List.map_filter_simps split: option.splits)

lemma is_ok_iff: "is_ok r \<longleftrightarrow> (\<exists>x. r = Inr x)"
  by (cases r) auto

lemma try_map_Inr_iff:
  "try_map f xs = Inr ys \<longleftrightarrow> list_all2 (\<lambda>x y. f x = Inr y) xs ys"
proof (induction xs arbitrary: ys)
  case Nil
  then show ?case by auto
next
  case (Cons x xs)
  then show ?case
    by (cases ys) (auto simp: result_simps)
qed

lemma try_map_Inr_set:
  assumes "try_map f xs = Inr ys"
  shows "y \<in> set ys \<longleftrightarrow> (\<exists>x \<in> set xs. f x = Inr y)"
  using assms unfolding try_map_Inr_iff
  by (induction rule: list_all2_induct) auto

lemma try_map_Inr_all:
  assumes "try_map f xs = Inr ys" "x \<in> set xs"
  shows "\<exists>y\<in>set ys. f x = Inr y"
  using assms unfolding try_map_Inr_iff by (induction rule: list_all2_induct) auto

lemma try_map_total: "\<forall>x\<in>set xs. is_ok (f x) \<Longrightarrow> is_ok (try_map f xs)"
  by (induction xs) (auto simp: is_ok_iff)

lemma bex_unique:
  assumes "u \<in> A" "Q u" "\<And>v. v \<in> A \<Longrightarrow> Q v \<Longrightarrow> v = u"
  shows "(\<exists>v\<in>A. Q v \<and> R v) \<longleftrightarrow> R u"
  using assms by blast

lemma bex_concat_map: "(\<exists>l\<in>set (concat (map f xs)). P l) \<longleftrightarrow> (\<exists>x\<in>set xs. \<exists>l\<in>set (f x). P l)"
  by simp

lemma bex_single: "(\<exists>l\<in>set (if b then [] else [r]). P l) \<longleftrightarrow> \<not> b \<and> P r"
  by simp

lemma try_fold_invariant:
  assumes "try_fold f xs s = Inr s'" "I s"
    and step: "\<And>x s s'. x \<in> set xs \<Longrightarrow> I s \<Longrightarrow> f x s = Inr s' \<Longrightarrow> I s'"
  shows "I s'"
  using assms
proof (induction xs arbitrary: s)
  case (Cons x xs)
  then obtain s1 where s1: "f x s = Inr s1" "try_fold f xs s1 = Inr s'" by (auto simp: result_simps)
  have "I s1" by (rule Cons.prems(3) [OF _ Cons.prems(2) s1(1)]) simp
  then show ?case by (rule Cons.IH [OF s1(2)]) (rule Cons.prems(3), simp_all)
qed simp

lemma find_append: "find P (xs @ ys) = (case find P xs of None \<Rightarrow> find P ys | Some x \<Rightarrow> Some x)"
  by (induction xs) auto

lemma find_SomeD: "find P xs = Some x \<Longrightarrow> x \<in> set xs \<and> P x"
  by (auto simp: find_Some_iff)

lemma find_upt_SomeD:
  assumes "find P [l..<h] = Some i"
  shows "l \<le> i" "i < h" "P i" "\<And>j. l \<le> j \<Longrightarrow> j < i \<Longrightarrow> \<not> P j"
proof -
  from assms obtain k where k: "k < h - l" "P (l + k)" "i = l + k"
      and least: "\<And>j. j < k \<Longrightarrow> \<not> P (l + j)"
    by (auto simp: find_Some_iff)
  show "l \<le> i" "i < h" "P i" using k by auto
  fix j assume "l \<le> j" "j < i"
  then show "\<not> P j" using least [of "j - l"] k by simp
qed

lemma find_upt_None_iff: "find P [l..<h] = None \<longleftrightarrow> (\<forall>i. l \<le> i \<and> i < h \<longrightarrow> \<not> P i)"
  by (auto simp: find_None_iff)

section \<open>Facts about numbers\<close>

lemma quotient_remainder_unique:
  fixes n :: nat
  assumes "r < n" "r' < n"
  shows "q * n + r = q' * n + r' \<longleftrightarrow> q = q' \<and> r = r'"
proof
  assume eq: "q * n + r = q' * n + r'"
  have "(q * n + r) div n = q" "(q' * n + r') div n = q'" using assms by simp_all
  then show "q = q' \<and> r = r'" using eq by simp
qed simp

lemma div_eq_interval:
  fixes h w k :: nat
  assumes "0 < w"
  shows "h div w = k \<longleftrightarrow> k * w \<le> h \<and> h < k * w + w"
proof
  assume "h div w = k"
  then show "k * w \<le> h \<and> h < k * w + w"
    using assms dividend_less_div_times [of w h] by (auto simp: add.commute)
qed (auto simp: algebra_simps intro: div_nat_eqI)

lemma div_split_multiple:
  fixes a w c :: nat
  assumes "0 < w"
  shows "a div w = a div (c * w) * c + a mod (c * w) div w"
proof -
  have "a = (a div (c * w) * c) * w + a mod (c * w)"
    using div_mult_mod_eq [of a "c * w"] by (simp add: mult.assoc)
  then have "a div w = ((a div (c * w) * c) * w + a mod (c * w)) div w" by simp
  then show ?thesis using assms by simp
qed

section \<open>Facts about decimal text\<close>

lemma digit_value_digit_char [simp]: "n < 10 \<Longrightarrow> digit_value (digit_char n) = Some n"
  by (simp add: digit_value_def digit_char_def)

lemma digit_chars:
  "char_of (48 :: nat) = CHR ''0''" "char_of (49 :: nat) = CHR ''1''" "char_of (50 :: nat) = CHR ''2''"
  "char_of (51 :: nat) = CHR ''3''" "char_of (52 :: nat) = CHR ''4''" "char_of (53 :: nat) = CHR ''5''"
  "char_of (54 :: nat) = CHR ''6''" "char_of (55 :: nat) = CHR ''7''" "char_of (56 :: nat) = CHR ''8''"
  "char_of (57 :: nat) = CHR ''9''"
  by code_simp+

lemma digit_char_value:
  assumes "digit_value c = Some n"
  shows "c = digit_char n" "n < 10"
  using assms by (auto simp: digit_value_def digit_char_def Let_def split: if_splits)

lemma digits_from_append:
  "digits_from acc (xs @ ys) =
    (case digits_from acc xs of None \<Rightarrow> None | Some n \<Rightarrow> digits_from n ys)"
  by (induction xs arbitrary: acc) (auto split: option.splits)

lemma digits_from_show_nat [text_simps]: "digits_from 0 (show_nat n) = Some n"
proof (induction n rule: show_nat.induct)
  case (1 n)
  then show ?case
    by (subst show_nat.simps) (auto simp: digits_from_append)
qed

lemma show_nat_digits: "c \<in> set (show_nat n) \<Longrightarrow> \<exists>d < 10. c = digit_char d"
proof (induction n rule: show_nat.induct)
  case (1 n)
  show ?case
  proof (cases "n < 10")
    case True
    then show ?thesis using "1.prems" by (auto simp: show_nat.simps)
  next
    case False
    then have "c \<in> set (show_nat (n div 10)) \<or> c = digit_char (n mod 10)"
      using "1.prems" by (subst (asm) show_nat.simps) auto
    moreover have "n mod 10 < 10" by simp
    ultimately show ?thesis using "1.IH" False by blast
  qed
qed

lemma show_nat_nonempty [simp]: "show_nat n \<noteq> []"
  by (subst show_nat.simps) auto

lemma digit_char_ne:
  "d < 10 \<Longrightarrow> digit_char d \<noteq> CHR ''+''"
  "d < 10 \<Longrightarrow> digit_char d \<noteq> CHR ''.''"
  "d < 10 \<Longrightarrow> digit_char d \<noteq> CHR ''/''"
  by (auto simp: digit_char_def dest: arg_cong [where f = "of_char :: char \<Rightarrow> nat"])

lemma show_nat_free [text_simps]:
  "CHR ''+'' \<notin> set (show_nat n)" "CHR ''.'' \<notin> set (show_nat n)" "CHR ''/'' \<notin> set (show_nat n)"
  using show_nat_digits digit_char_ne by metis+

lemma parse_uint_show_nat [text_simps]:
  assumes "n \<le> m"
  shows "parse_uint m (show_nat n) = Some n"
proof (cases "show_nat n")
  case Nil
  then show ?thesis by simp
next
  case (Cons c cs)
  then have "c \<noteq> CHR ''+''" using show_nat_free(1) [of n] by auto
  then show ?thesis
    using Cons assms digits_from_show_nat [of n] by (simp add: parse_uint_def)
qed

lemma parse_uint_le: "parse_uint m s = Some n \<Longrightarrow> n \<le> m"
  by (auto simp: parse_uint_def Let_def split: list.splits if_splits option.splits)

lemma split_once_append [text_simps]:
  "d \<notin> set a \<Longrightarrow> split_once d (a @ d # b) = Some (a, b)"
  by (induction a) auto

lemma split_on_free [text_simps]: "d \<notin> set a \<Longrightarrow> split_on d a = [a]"
  by (induction a) auto

lemma split_on_append [text_simps]:
  "d \<notin> set a \<Longrightarrow> split_on d (a @ d # b) = a # split_on d b"
  by (induction a) auto

end
