(* ===== verification/Bento_Types.thy ===== *)
theory Bento_Types
  imports Bento_Prelude
begin

text \<open>
  The domain types, \<open>crates/types/src/lib.rs\<close>.

  Structs are records whose fields carry a short prefix, string enums are
  datatypes with their wire form and parser, and the shape rule of an instance
  name is \<open>valid_name\<close>.  An \<open>i64\<close> is an \<open>int\<close>, an unsigned width a \<open>nat\<close>, and an
  instant (\<open>OffsetDateTime\<close>) or a \<open>Duration\<close> a number of nanoseconds.  Floating
  point helpers of the crate are not modelled: the memory ceiling they compute
  reaches the store as a number.
\<close>

type_synonym time = int
type_synonym duration = int

section \<open>String enums\<close>

datatype state = Running | Stopped | Starting

datatype desired_state = DRunning | DStopped

datatype visibility = Off | Private | Public

datatype placement = PActive | PDraining | PRemoved

datatype slot_state = SActive | SDraining | SMoving

datatype image_kind = Qcow2 | Oci

fun state_str :: "state \<Rightarrow> string" where
  "state_str Running = ''running''"
| "state_str Stopped = ''stopped''"
| "state_str Starting = ''starting''"

fun desired_str :: "desired_state \<Rightarrow> string" where
  "desired_str DRunning = ''running''"
| "desired_str DStopped = ''stopped''"

fun visibility_str :: "visibility \<Rightarrow> string" where
  "visibility_str Off = ''off''"
| "visibility_str Private = ''private''"
| "visibility_str Public = ''public''"

fun placement_str :: "placement \<Rightarrow> string" where
  "placement_str PActive = ''active''"
| "placement_str PDraining = ''draining''"
| "placement_str PRemoved = ''removed''"

fun slot_state_str :: "slot_state \<Rightarrow> string" where
  "slot_state_str SActive = ''active''"
| "slot_state_str SDraining = ''draining''"
| "slot_state_str SMoving = ''moving''"

fun image_kind_str :: "image_kind \<Rightarrow> string" where
  "image_kind_str Qcow2 = ''qcow2''"
| "image_kind_str Oci = ''oci''"

text \<open>\<open>parse_wire\<close> reads a variant by its wire name and reports the rejected value.
  Every \<open>rename_all\<close> attribute is \<open>lowercase\<close>, so the wire names are the ones listed.\<close>

record parse_error =
  pe_kind :: string
  pe_value :: string

definition parse_wire :: "(string \<times> 'a) list \<Rightarrow> string \<Rightarrow> string \<Rightarrow> (parse_error, 'a) result" where
  "parse_wire variants kind value =
    (case map_of variants value of
       Some v \<Rightarrow> Inr v
     | None \<Rightarrow> Inl \<lparr>pe_kind = kind, pe_value = value\<rparr>)"

definition state_from_str :: "string \<Rightarrow> (parse_error, state) result" where
  "state_from_str =
    parse_wire [(''running'', Running), (''stopped'', Stopped), (''starting'', Starting)] ''state''"

definition desired_from_str :: "string \<Rightarrow> (parse_error, desired_state) result" where
  "desired_from_str = parse_wire [(''running'', DRunning), (''stopped'', DStopped)] ''desired state''"

definition visibility_from_str :: "string \<Rightarrow> (parse_error, visibility) result" where
  "visibility_from_str =
    parse_wire [(''off'', Off), (''private'', Private), (''public'', Public)] ''visibility''"

definition placement_from_str :: "string \<Rightarrow> (parse_error, placement) result" where
  "placement_from_str =
    parse_wire [(''active'', PActive), (''draining'', PDraining), (''removed'', PRemoved)] ''placement''"

definition slot_state_from_str :: "string \<Rightarrow> (parse_error, slot_state) result" where
  "slot_state_from_str =
    parse_wire [(''active'', SActive), (''draining'', SDraining), (''moving'', SMoving)] ''slot state''"

definition image_kind_from_str :: "string \<Rightarrow> (parse_error, image_kind) result" where
  "image_kind_from_str = parse_wire [(''qcow2'', Qcow2), (''oci'', Oci)] ''image kind''"

section \<open>Structs\<close>

record vm_instance =
  i_uuid :: string
  i_name :: string
  i_owner_id :: int
  i_host_id :: int
  i_image_name :: string
  i_base_checksum :: string
  i_state :: state
  i_desired_state :: desired_state
  i_address :: string
  i_mac :: string
  i_vcpu :: nat
  i_memory_mib :: nat
  i_disk_gib :: nat
  i_nested :: bool
  i_ksm :: bool
  i_http_port :: nat
  i_visibility :: visibility
  i_created_at :: time
  i_last_seen_at :: "time option"
  i_slot :: "nat option"

definition DEFAULT_HTTP_PORT :: nat where "DEFAULT_HTTP_PORT = 80"

definition effective_http_port :: "vm_instance \<Rightarrow> nat" where
  "effective_http_port i = (if i_http_port i = 0 then DEFAULT_HTTP_PORT else i_http_port i)"

record user =
  u_id :: int
  u_name :: string
  u_email :: string
  u_oidc_subject :: "string option"
  u_subnet :: string
  u_created_at :: time

datatype ceiling = Unbounded | Limit nat

fun exceeded_by :: "ceiling \<Rightarrow> nat \<Rightarrow> bool" where
  "exceeded_by Unbounded amount = False"
| "exceeded_by (Limit l) amount = (amount > l)"

record capacity =
  cap_memory_mib :: ceiling
  cap_disk_gib :: ceiling

definition limited :: "nat \<Rightarrow> nat \<Rightarrow> capacity" where
  "limited m d = \<lparr>cap_memory_mib = Limit m, cap_disk_gib = Limit d\<rparr>"

definition unbounded :: capacity where
  "unbounded = \<lparr>cap_memory_mib = Unbounded, cap_disk_gib = Unbounded\<rparr>"

record ssh_key =
  k_id :: int
  k_user_id :: int
  k_public_key :: string
  k_fingerprint :: string
  k_comment :: string
  k_created_at :: time

record host =
  h_id :: int
  h_machine_id :: "string option"
  h_name :: string
  h_libvirt_uri :: string
  h_endpoint :: "string option"
  h_underlay :: "string option"
  h_enabled :: bool
  h_placement :: placement
  h_created_at :: time

record placing =
  pl_vcpu :: nat
  pl_memory_mib :: nat
  pl_disk_gib :: nat
  pl_arch :: "string option"

record slot =
  s_slot :: nat
  s_state :: slot_state
  s_owner_host_id :: int
  s_ownership_epoch :: int
  s_source_host_id :: "int option"
  s_destination_host_id :: "int option"
  s_operation_id :: "string option"

record lease =
  l_holder_id :: string
  l_epoch :: int
  l_expires_at :: time

record deployment =
  d_runner_prefix :: nat

definition deployment_slot_count :: "deployment \<Rightarrow> nat" where
  "deployment_slot_count d = 2 ^ min (d_runner_prefix d - 24) 3"

record image =
  im_name :: string
  im_url :: string
  im_kind :: image_kind
  im_pinned_checksum :: "string option"
  im_current_checksum :: "string option"

record image_version =
  iv_checksum :: string
  iv_image_name :: string
  iv_path :: string
  iv_size :: nat
  iv_kind :: image_kind
  iv_source_digest :: "string option"
  iv_fetched_at :: time

record share =
  sh_instance_uuid :: string
  sh_user_id :: int
  sh_created_at :: time

record released_name =
  rn_name :: string
  rn_previous_owner_id :: int
  rn_released_at :: time

record pairing =
  pa_id :: int
  pa_token_hash :: string
  pa_public_key :: string
  pa_fingerprint :: string
  pa_comment :: string
  pa_created_at :: time
  pa_expires_at :: time
  pa_linked_user_id :: "int option"

record token =
  t_id :: int
  t_user_id :: int
  t_hash :: string
  t_expires_at :: "time option"

section \<open>Names\<close>

definition is_ascii_lowercase :: "char \<Rightarrow> bool" where
  "is_ascii_lowercase c = (let k = (of_char c :: nat) in 97 \<le> k \<and> k \<le> 122)"

definition is_ascii_digit :: "char \<Rightarrow> bool" where
  "is_ascii_digit c = (let k = (of_char c :: nat) in 48 \<le> k \<and> k \<le> 57)"

definition label_char :: "char \<Rightarrow> bool" where
  "label_char c = (is_ascii_lowercase c \<or> is_ascii_digit c)"

definition valid_name :: "string \<Rightarrow> bool" where
  "valid_name name =
    (name \<noteq> [] \<and> length name \<le> 63 \<and> label_char (hd name) \<and> label_char (last name) \<and>
     list_all (\<lambda>c. label_char c \<or> c = CHR ''-'') name)"

definition is_reserved :: "string \<Rightarrow> string list \<Rightarrow> bool" where
  "is_reserved name reserved = list_ex (\<lambda>entry. entry = name) reserved"

section \<open>Wire forms\<close>

lemmas from_str_defs = state_from_str_def desired_from_str_def visibility_from_str_def
  placement_from_str_def slot_state_from_str_def image_kind_from_str_def

lemma parse_wire_Inr_iff:
  "parse_wire variants kind value = Inr v \<longleftrightarrow> map_of variants value = Some v"
  by (auto simp: parse_wire_def split: option.splits)

lemma state_wire: "state_from_str v = Inr x \<longleftrightarrow> v = state_str x"
  by (cases x) (auto simp: from_str_defs parse_wire_Inr_iff)

lemma desired_wire: "desired_from_str v = Inr x \<longleftrightarrow> v = desired_str x"
  by (cases x) (auto simp: from_str_defs parse_wire_Inr_iff)

lemma visibility_wire: "visibility_from_str v = Inr x \<longleftrightarrow> v = visibility_str x"
  by (cases x) (auto simp: from_str_defs parse_wire_Inr_iff)

lemma placement_wire: "placement_from_str v = Inr x \<longleftrightarrow> v = placement_str x"
  by (cases x) (auto simp: from_str_defs parse_wire_Inr_iff)

lemma slot_state_wire: "slot_state_from_str v = Inr x \<longleftrightarrow> v = slot_state_str x"
  by (cases x) (auto simp: from_str_defs parse_wire_Inr_iff)

lemma image_kind_wire: "image_kind_from_str v = Inr x \<longleftrightarrow> v = image_kind_str x"
  by (cases x) (auto simp: from_str_defs parse_wire_Inr_iff)

section \<open>Properties\<close>

text \<open>C39. Every string enum round trips: the parser of each enum accepts exactly the
  wire forms its \<open>as_str\<close> prints, and maps each to the variant that prints it.  So a
  text column written from an enum is read back as the same variant, and no other
  text is accepted.\<close>

theorem wire_forms_roundtrip:
  "(state_from_str v = Inr st \<longleftrightarrow> v = state_str st) \<and>
   (desired_from_str v = Inr ds \<longleftrightarrow> v = desired_str ds) \<and>
   (visibility_from_str v = Inr vi \<longleftrightarrow> v = visibility_str vi) \<and>
   (placement_from_str v = Inr pl \<longleftrightarrow> v = placement_str pl) \<and>
   (slot_state_from_str v = Inr ss \<longleftrightarrow> v = slot_state_str ss) \<and>
   (image_kind_from_str v = Inr ik \<longleftrightarrow> v = image_kind_str ik)"
  by (simp add: state_wire desired_wire visibility_wire placement_wire slot_state_wire image_kind_wire)

end
