(* ===== verification/Bento_World.thy ===== *)
theory Bento_World
  imports Bento_Prelude
begin

text \<open>
  Code that acts on something outside the process.

  An operation on a state \<open>'w\<close> that may fail is \<open>('w, 'e, 'a) io\<close>: a function from the
  state to the result and the state afterwards.  An error keeps what was done
  before it, as in the code, so nothing is rolled back unless the code does it.
  \<open>io_then\<close> is the question-mark operator on an awaited call, \<open>io_match\<close> a \<open>match\<close> on
  its result, \<open>io_err\<close> the \<open>map_err\<close> before the question mark, and \<open>io_try_for\<close> a
  loop whose body may return early.
\<close>

named_theorems io_simps

type_synonym ('w, 'e, 'a) io = "'w \<Rightarrow> ('e, 'a) result \<times> 'w"

definition io_of :: "('e, 'a) result \<Rightarrow> ('w, 'e, 'a) io" where
  "io_of r w = (r, w)"

definition io_ok :: "'a \<Rightarrow> ('w, 'e, 'a) io" where
  "io_ok x w = (Inr x, w)"

definition io_fail :: "'e \<Rightarrow> ('w, 'e, 'a) io" where
  "io_fail e w = (Inl e, w)"

definition io_match ::
  "('w, 'e, 'a) io \<Rightarrow> ('a \<Rightarrow> ('w, 'f, 'b) io) \<Rightarrow> ('e \<Rightarrow> ('w, 'f, 'b) io) \<Rightarrow> ('w, 'f, 'b) io" where
  "io_match m ok err w = (case m w of (Inl e, w1) \<Rightarrow> err e w1 | (Inr x, w1) \<Rightarrow> ok x w1)"

definition io_then :: "('w, 'e, 'a) io \<Rightarrow> ('a \<Rightarrow> ('w, 'e, 'b) io) \<Rightarrow> ('w, 'e, 'b) io" where
  "io_then m f w = (case m w of (Inl e, w1) \<Rightarrow> (Inl e, w1) | (Inr x, w1) \<Rightarrow> f x w1)"

definition io_err :: "('e \<Rightarrow> 'f) \<Rightarrow> ('w, 'e, 'a) io \<Rightarrow> ('w, 'f, 'a) io" where
  "io_err f m w = (case m w of (Inl e, w1) \<Rightarrow> (Inl (f e), w1) | (Inr x, w1) \<Rightarrow> (Inr x, w1))"

text \<open>A call whose result is thrown away, \<open>let _ = ...\<close> or a failure that is only logged.\<close>

definition io_forget :: "('w, 'e, 'a) io \<Rightarrow> 'w \<Rightarrow> 'w" where
  "io_forget m w = snd (m w)"

fun io_try_for :: "('a \<Rightarrow> ('w, 'e, 'b) io) \<Rightarrow> 'a list \<Rightarrow> ('w, 'e, 'b list) io" where
  "io_try_for f [] w = (Inr [], w)"
| "io_try_for f (x # xs) w =
    (case f x w of
       (Inl e, w1) \<Rightarrow> (Inl e, w1)
     | (Inr y, w1) \<Rightarrow>
         (case io_try_for f xs w1 of
            (Inl e, w2) \<Rightarrow> (Inl e, w2)
          | (Inr ys, w2) \<Rightarrow> (Inr (y # ys), w2)))"

section \<open>Facts\<close>

lemmas io_defs = io_of_def io_ok_def io_fail_def io_match_def io_then_def io_err_def io_forget_def

lemma io_then_Inr_iff [io_simps]:
  "io_then m f w = (Inr y, w') \<longleftrightarrow> (\<exists>x w1. m w = (Inr x, w1) \<and> f x w1 = (Inr y, w'))"
  by (auto simp: io_then_def split: prod.splits sum.splits)

lemma io_then_Inl_iff [io_simps]:
  "io_then m f w = (Inl e, w') \<longleftrightarrow>
    m w = (Inl e, w') \<or> (\<exists>x w1. m w = (Inr x, w1) \<and> f x w1 = (Inl e, w'))"
  by (auto simp: io_then_def split: prod.splits sum.splits)

lemma io_err_Inr_iff [io_simps]: "io_err f m w = (Inr y, w') \<longleftrightarrow> m w = (Inr y, w')"
  by (auto simp: io_err_def split: prod.splits sum.splits)

lemma io_err_Inl_iff [io_simps]: "io_err f m w = (Inl e, w') \<longleftrightarrow> (\<exists>e0. m w = (Inl e0, w') \<and> e = f e0)"
  by (auto simp: io_err_def split: prod.splits sum.splits)

lemma io_match_iff [io_simps]:
  "io_match m ok err w = p \<longleftrightarrow>
    (\<exists>e w1. m w = (Inl e, w1) \<and> err e w1 = p) \<or> (\<exists>x w1. m w = (Inr x, w1) \<and> ok x w1 = p)"
  by (auto simp: io_match_def split: prod.splits sum.splits)

lemma io_of_iff [io_simps]: "io_of r w = (r', w') \<longleftrightarrow> r' = r \<and> w' = w"
  by (auto simp: io_of_def)

lemma io_ok_iff [io_simps]: "io_ok x w = (r', w') \<longleftrightarrow> r' = Inr x \<and> w' = w"
  by (auto simp: io_ok_def)

lemma io_fail_iff [io_simps]: "io_fail e w = (r', w') \<longleftrightarrow> r' = Inl e \<and> w' = w"
  by (auto simp: io_fail_def)

text \<open>An invariant of the state that every step keeps is kept by a composition.\<close>

definition io_keeps :: "('w \<Rightarrow> 'w \<Rightarrow> bool) \<Rightarrow> ('w, 'e, 'a) io \<Rightarrow> bool" where
  "io_keeps R m \<longleftrightarrow> (\<forall>w. R w (snd (m w)))"

lemma io_keepsD: "io_keeps R m \<Longrightarrow> m w = (r, w') \<Longrightarrow> R w w'"
  unfolding io_keeps_def by (drule spec [of _ w]) simp

lemma io_keeps_pure:
  assumes "reflp R"
  shows "io_keeps R (io_of r)" "io_keeps R (io_ok x)" "io_keeps R (io_fail e)"
  using assms by (simp_all add: io_keeps_def io_of_def io_ok_def io_fail_def reflp_def)

lemma io_keeps_match:
  assumes "transp R" "io_keeps R m" "\<And>x. io_keeps R (ok x)" "\<And>e. io_keeps R (err e)"
  shows "io_keeps R (io_match m ok err)"
  unfolding io_keeps_def
proof
  fix w
  obtain r w1 where m: "m w = (r, w1)" by fastforce
  then have "R w w1" using assms(2) by (rule io_keepsD [rotated])
  moreover have "R w1 (snd (io_match m ok err w))"
    using assms(3,4) m by (cases r) (simp_all add: io_match_def io_keeps_def)
  ultimately show "R w (snd (io_match m ok err w))" using assms(1) by (rule transpD [rotated 1])
qed

lemma io_then_match: "io_then m f = io_match m f io_fail"
  by (simp add: fun_eq_iff io_then_def io_match_def io_fail_def split: prod.split sum.split)

lemma io_keeps_then:
  assumes "reflp R" "transp R" "io_keeps R m" "\<And>x. io_keeps R (f x)"
  shows "io_keeps R (io_then m f)"
  unfolding io_then_match using assms by (simp add: io_keeps_match io_keeps_pure)

lemma io_keeps_err:
  assumes "io_keeps R m"
  shows "io_keeps R (io_err f m)"
  unfolding io_keeps_def
proof
  fix w
  obtain r w1 where m: "m w = (r, w1)" by fastforce
  then have "R w w1" using assms by (rule io_keepsD [rotated])
  then show "R w (snd (io_err f m w))" using m by (cases r) (simp_all add: io_err_def)
qed

lemma io_keeps_try_for:
  assumes "reflp R" "transp R" "\<And>x. io_keeps R (f x)"
  shows "io_keeps R (io_try_for f xs)"
proof -
  have "R w (snd (io_try_for f xs w))" for w
  proof (induction xs arbitrary: w)
    case Nil
    then show ?case using assms(1) by (simp add: reflp_def)
  next
    case (Cons x xs)
    obtain r w1 where fx: "f x w = (r, w1)" by fastforce
    then have "R w w1" using assms(3) by (rule io_keepsD [rotated])
    moreover have "R w1 (snd (io_try_for f xs w1))" by (rule Cons)
    ultimately have "R w (snd (io_try_for f xs w1))" using assms(2) by (rule transpD [rotated 1])
    then show ?case using fx \<open>R w w1\<close> by (auto split: sum.split prod.split)
  qed
  then show ?thesis by (simp add: io_keeps_def)
qed

end
