(* ===== verification/Hypervisor_Client.thy ===== *)
theory Hypervisor_Client
  imports Bento_Types Bento_World
begin

text \<open>
  The libvirt client, \<open>crates/hypervisor/src/client.rs\<close> and \<open>error.rs\<close>.

  \<open>libvirt_api\<close> is the trait \<open>LibvirtApi\<close> and \<open>network_api\<close> the trait \<open>NetworkApi\<close>, over the
  state \<open>'w\<close> of the machine: their calls are libvirt's, so they are the fields of a
  record the operations take as an argument.  \<open>hypervisor\<close> is the trait \<open>Hypervisor\<close>, and
  \<open>client_hypervisor\<close> its implementation by \<open>Client\<close>.  \<open>client\<close> is the value \<open>Client::connect\<close>
  builds, whose stop timeout and poll interval are the two constants; the other
  constructors exist for tests only.

  An \<open>i32\<close> or \<open>u32\<close> of the protocol is a \<open>32 word\<close>, a \<open>u64\<close> a \<open>64 word\<close>, and a UUID its
  sixteen bytes.
\<close>

section \<open>Errors\<close>

type_synonym io_error = string

definition ERR_NO_DOMAIN :: "32 word" where "ERR_NO_DOMAIN = 42"
definition ERR_NO_NETWORK :: "32 word" where "ERR_NO_NETWORK = 43"

record libvirt_error =
  le_code :: "32 word"
  le_message :: string

datatype api_error = ALibvirt libvirt_error | AIo io_error | AProtocol string

datatype hyp_error =
    DomainNotFound string
  | DomainExists string
  | HLibvirt string libvirt_error
  | HIo string io_error
  | HProtocol string
  | HOperation string

fun is_libvirt_code :: "hyp_error \<Rightarrow> 32 word \<Rightarrow> bool" where
  "is_libvirt_code (HLibvirt operation source) code = (le_code source = code)"
| "is_libvirt_code _ code = False"

fun operation_error :: "string \<Rightarrow> api_error \<Rightarrow> hyp_error" where
  "operation_error operation (ALibvirt source) = HLibvirt operation source"
| "operation_error operation (AIo source) = HIo operation source"
| "operation_error operation (AProtocol message) = HProtocol (operation @ '': '' @ message)"

section \<open>The interface of libvirt\<close>

record lv_domain =
  dom_name :: string
  dom_uuid :: "byte list"
  dom_id :: "32 word"

record lv_network =
  nw_name :: string
  nw_uuid :: "byte list"

record domain_stats =
  ds_state :: "32 word"
  ds_max_mem_kib :: "64 word"
  ds_memory_kib :: "64 word"
  ds_vcpus :: "32 word"
  ds_cpu_time_ns :: "64 word"

record 'w libvirt_api =
  lv_define_xml :: "string \<Rightarrow> ('w, api_error, lv_domain) io"
  lv_create :: "lv_domain \<Rightarrow> ('w, api_error, unit) io"
  lv_shutdown :: "lv_domain \<Rightarrow> ('w, api_error, unit) io"
  lv_reboot :: "lv_domain \<Rightarrow> 32 word \<Rightarrow> ('w, api_error, unit) io"
  lv_destroy :: "lv_domain \<Rightarrow> ('w, api_error, unit) io"
  lv_undefine_flags :: "lv_domain \<Rightarrow> 32 word \<Rightarrow> ('w, api_error, unit) io"
  lv_set_autostart :: "lv_domain \<Rightarrow> 32 word \<Rightarrow> ('w, api_error, unit) io"
  lv_lookup_by_name :: "string \<Rightarrow> ('w, api_error, lv_domain) io"
  lv_get_state :: "lv_domain \<Rightarrow> 32 word \<Rightarrow> ('w, api_error, 32 word \<times> 32 word) io"
  lv_get_info :: "lv_domain \<Rightarrow> ('w, api_error, domain_stats) io"
  lv_memory_stats :: "lv_domain \<Rightarrow> 32 word \<Rightarrow> 32 word \<Rightarrow> ('w, api_error, (32 word \<times> 64 word) list) io"
  lv_list_all_domains :: "32 word \<Rightarrow> 32 word \<Rightarrow> ('w, api_error, lv_domain list \<times> 32 word) io"

record 'w network_api =
  nv_lookup_by_name :: "string \<Rightarrow> ('w, api_error, lv_network) io"
  nv_define_xml :: "string \<Rightarrow> ('w, api_error, lv_network) io"
  nv_create :: "lv_network \<Rightarrow> ('w, api_error, unit) io"
  nv_is_active :: "lv_network \<Rightarrow> ('w, api_error, 32 word) io"
  nv_set_autostart :: "lv_network \<Rightarrow> 32 word \<Rightarrow> ('w, api_error, unit) io"

section \<open>The interface of the hypervisor\<close>

datatype stop_result = Graceful | Forced | AlreadyStopped

record domain_info =
  di_name :: string
  di_uuid :: string
  di_state :: state

record 'w hypervisor =
  hv_create :: "string \<Rightarrow> ('w, hyp_error, unit) io"
  hv_start :: "string \<Rightarrow> ('w, hyp_error, unit) io"
  hv_stop :: "string \<Rightarrow> ('w, hyp_error, stop_result) io"
  hv_reboot :: "string \<Rightarrow> ('w, hyp_error, unit) io"
  hv_remove :: "string \<Rightarrow> ('w, hyp_error, unit) io"
  hv_list :: "('w, hyp_error, domain_info list) io"
  hv_state :: "string \<Rightarrow> ('w, hyp_error, state) io"

record domain_sample =
  dsa_cpu_time_ns :: "64 word"
  dsa_vcpus :: "32 word"
  dsa_rss_kib :: "64 word option"

section \<open>The client\<close>

record 'w client =
  cl_api :: "'w libvirt_api"
  cl_network_api :: "'w network_api option"
  cl_sleep :: "nat \<Rightarrow> 'w \<Rightarrow> 'w"

definition DEFAULT_STOP_TIMEOUT :: nat where "DEFAULT_STOP_TIMEOUT = 60 * 1000000000"
definition DEFAULT_POLL_INTERVAL :: nat where "DEFAULT_POLL_INTERVAL = 500 * 1000000"
definition DOMAIN_UNDEFINE_NVRAM :: "32 word" where "DOMAIN_UNDEFINE_NVRAM = 4"
definition MEMORY_STAT_RSS :: "32 word" where "MEMORY_STAT_RSS = 7"
definition MEMORY_STAT_MAX :: "32 word" where "MEMORY_STAT_MAX = 32"

definition state_from_libvirt :: "32 word \<Rightarrow> state" where
  "state_from_libvirt code = (if code \<in> {1, 2, 3, 4, 7} then Running else Stopped)"

definition format_uuid :: "byte list \<Rightarrow> string" where
  "format_uuid uuid =
    (let hex = (\<lambda>i j. concat (map hex_byte (take (j - i) (drop i uuid)))) in
     hex 0 4 @ ''-'' @ hex 4 6 @ ''-'' @ hex 6 8 @ ''-'' @ hex 8 10 @ ''-'' @ hex 10 16)"

definition lookup_domain :: "'w client \<Rightarrow> string \<Rightarrow> ('w, hyp_error, lv_domain) io" where
  "lookup_domain c name = io_match (lv_lookup_by_name (cl_api c) name) io_ok (\<lambda>e. io_fail
    (case e of
       ALibvirt error \<Rightarrow>
         if le_code error = ERR_NO_DOMAIN then DomainNotFound name
         else operation_error (''lookup domain '' @ name) e
     | _ \<Rightarrow> operation_error (''lookup domain '' @ name) e))"

definition domain_state :: "'w client \<Rightarrow> lv_domain \<Rightarrow> ('w, hyp_error, state) io" where
  "domain_state c d =
    io_then (io_err (operation_error (''get state of domain '' @ dom_name d)) (lv_get_state (cl_api c) d 0))
      (\<lambda>(code, _). io_ok (state_from_libvirt code))"

definition client_create :: "'w client \<Rightarrow> string \<Rightarrow> ('w, hyp_error, unit) io" where
  "client_create c xml =
    io_then (io_err (operation_error ''define domain'') (lv_define_xml (cl_api c) xml)) (\<lambda>d.
    io_match (lv_set_autostart (cl_api c) d 0)
      (\<lambda>_. io_match (lv_create (cl_api c) d) io_ok
        (\<lambda>e w. (Inl (operation_error (''start domain '' @ dom_name d) e),
                io_forget (lv_undefine_flags (cl_api c) d DOMAIN_UNDEFINE_NVRAM) w)))
      (\<lambda>e w. (Inl (operation_error (''clear autostart on '' @ dom_name d) e),
              io_forget (lv_undefine_flags (cl_api c) d DOMAIN_UNDEFINE_NVRAM) w)))"

definition client_start :: "'w client \<Rightarrow> string \<Rightarrow> ('w, hyp_error, unit) io" where
  "client_start c name = io_then (lookup_domain c name) (\<lambda>d.
    io_err (operation_error (''start domain '' @ name)) (lv_create (cl_api c) d))"

text \<open>The wait of \<open>stop\<close>: true when the guest stopped by itself, false when the time ran
  out.\<close>

function stop_wait :: "'w client \<Rightarrow> lv_domain \<Rightarrow> nat \<Rightarrow> ('w, hyp_error, bool) io" where
  "stop_wait c d elapsed w =
    (case domain_state c d w of
       (Inl e, w1) \<Rightarrow> (Inl e, w1)
     | (Inr st, w1) \<Rightarrow>
         if st = Stopped then (Inr True, w1)
         else if elapsed \<ge> DEFAULT_STOP_TIMEOUT then (Inr False, w1)
         else stop_wait c d (elapsed + DEFAULT_POLL_INTERVAL) (cl_sleep c DEFAULT_POLL_INTERVAL w1))"
  by pat_completeness auto

termination
  by (relation "measure (\<lambda>(c, d, elapsed, w). DEFAULT_STOP_TIMEOUT - elapsed)")
    (auto simp: DEFAULT_STOP_TIMEOUT_def DEFAULT_POLL_INTERVAL_def)

declare stop_wait.simps [simp del]

definition client_stop :: "'w client \<Rightarrow> string \<Rightarrow> ('w, hyp_error, stop_result) io" where
  "client_stop c name =
    io_then (lookup_domain c name) (\<lambda>d.
    io_then (domain_state c d) (\<lambda>st.
      if st = Stopped then io_ok AlreadyStopped
      else
        io_then (io_err (operation_error (''shutdown domain '' @ name)) (lv_shutdown (cl_api c) d)) (\<lambda>_.
        io_then (stop_wait c d 0) (\<lambda>graceful.
          if graceful then io_ok Graceful
          else
            io_then (io_err (operation_error (''destroy domain '' @ name @ '' after shutdown timeout''))
                (lv_destroy (cl_api c) d)) (\<lambda>_. io_ok Forced)))))"

definition client_reboot :: "'w client \<Rightarrow> string \<Rightarrow> ('w, hyp_error, unit) io" where
  "client_reboot c name = io_then (lookup_domain c name) (\<lambda>d.
    io_err (operation_error (''reboot domain '' @ name)) (lv_reboot (cl_api c) d 0))"

definition client_remove :: "'w client \<Rightarrow> string \<Rightarrow> ('w, hyp_error, unit) io" where
  "client_remove c name =
    io_then (lookup_domain c name) (\<lambda>d.
    io_then (domain_state c d) (\<lambda>st.
    io_then (if st \<noteq> Stopped
             then io_err (operation_error (''destroy domain '' @ name)) (lv_destroy (cl_api c) d)
             else io_ok ()) (\<lambda>_.
      io_err (operation_error (''undefine domain '' @ name))
        (lv_undefine_flags (cl_api c) d DOMAIN_UNDEFINE_NVRAM))))"

definition client_list :: "'w client \<Rightarrow> ('w, hyp_error, domain_info list) io" where
  "client_list c =
    io_then (io_err (operation_error ''list domains'') (lv_list_all_domains (cl_api c) 1 0)) (\<lambda>(domains, _).
      io_try_for (\<lambda>d. io_then (domain_state c d) (\<lambda>st.
          io_ok \<lparr>di_name = dom_name d, di_uuid = format_uuid (dom_uuid d), di_state = st\<rparr>))
        domains)"

definition client_state :: "'w client \<Rightarrow> string \<Rightarrow> ('w, hyp_error, state) io" where
  "client_state c name = io_then (lookup_domain c name) (domain_state c)"

definition client_hypervisor :: "'w client \<Rightarrow> 'w hypervisor" where
  "client_hypervisor c =
    \<lparr>hv_create = client_create c, hv_start = client_start c, hv_stop = client_stop c,
     hv_reboot = client_reboot c, hv_remove = client_remove c, hv_list = client_list c,
     hv_state = client_state c\<rparr>"

definition client_sample :: "'w client \<Rightarrow> string \<Rightarrow> ('w, hyp_error, domain_sample option) io" where
  "client_sample c name =
    io_then (lookup_domain c name) (\<lambda>d.
    io_then (io_err (operation_error ''read domain info'') (lv_get_info (cl_api c) d)) (\<lambda>info.
      if ds_state info \<noteq> 1 then io_ok None
      else
        (let answer = (\<lambda>rss. io_ok (Some \<lparr>dsa_cpu_time_ns = ds_cpu_time_ns info, dsa_vcpus = ds_vcpus info,
                                        dsa_rss_kib = rss\<rparr>)) in
         io_match (lv_memory_stats (cl_api c) d MEMORY_STAT_MAX 0)
           (\<lambda>stats. answer (map_option snd (find (\<lambda>(tag, _). tag = MEMORY_STAT_RSS) stats)))
           (\<lambda>_. answer None))))"

definition client_define :: "'w client \<Rightarrow> string \<Rightarrow> ('w, hyp_error, unit) io" where
  "client_define c xml =
    io_then (io_err (operation_error ''define domain'') (lv_define_xml (cl_api c) xml)) (\<lambda>_. io_ok ())"

definition clear_autostart :: "'w client \<Rightarrow> string \<Rightarrow> ('w, hyp_error, unit) io" where
  "clear_autostart c name = io_then (lookup_domain c name) (\<lambda>d.
    io_err (operation_error (''clear autostart on '' @ name)) (lv_set_autostart (cl_api c) d 0))"

definition ensure_network :: "'w client \<Rightarrow> string \<Rightarrow> string \<Rightarrow> ('w, hyp_error, unit) io" where
  "ensure_network c name xml =
    (case cl_network_api c of
       None \<Rightarrow> io_fail (HOperation ''hypervisor: this connection cannot manage networks'')
     | Some api \<Rightarrow>
         io_then
           (io_match (nv_lookup_by_name api name) io_ok (\<lambda>e.
              case e of
                ALibvirt error \<Rightarrow>
                  if le_code error = ERR_NO_NETWORK
                  then io_err (operation_error (''define network '' @ name)) (nv_define_xml api xml)
                  else io_fail (operation_error (''lookup network '' @ name) e)
              | _ \<Rightarrow> io_fail (operation_error (''lookup network '' @ name) e))) (\<lambda>network.
         io_then (io_err (operation_error (''set autostart on network '' @ name))
             (nv_set_autostart api network 1)) (\<lambda>_.
         io_then (io_err (operation_error (''check network '' @ name)) (nv_is_active api network)) (\<lambda>active.
           if active = 0
           then io_err (operation_error (''start network '' @ name)) (nv_create api network)
           else io_ok ()))))"

section \<open>Stopping a guest\<close>

text \<open>The wait with its number of looks written out: one look, and at most \<open>n\<close> more, each
  after a pause.\<close>

fun stop_polls :: "'w client \<Rightarrow> lv_domain \<Rightarrow> nat \<Rightarrow> ('w, hyp_error, bool) io" where
  "stop_polls c d n w =
    (case domain_state c d w of
       (Inl e, w1) \<Rightarrow> (Inl e, w1)
     | (Inr st, w1) \<Rightarrow>
         if st = Stopped then (Inr True, w1)
         else (case n of
                 0 \<Rightarrow> (Inr False, w1)
               | Suc m \<Rightarrow> stop_polls c d m (cl_sleep c DEFAULT_POLL_INTERVAL w1)))"

declare stop_polls.simps [simp del]

lemma stop_wait_from:
  "n \<le> 120 \<Longrightarrow> stop_wait c d ((120 - n) * DEFAULT_POLL_INTERVAL) w = stop_polls c d n w"
proof (induction n arbitrary: w)
  case 0
  show ?case
    by (subst stop_wait.simps, subst stop_polls.simps)
      (simp add: DEFAULT_STOP_TIMEOUT_def DEFAULT_POLL_INTERVAL_def split: prod.split sum.split)
next
  case (Suc n)
  have wait: "(120 - Suc n) * DEFAULT_POLL_INTERVAL < DEFAULT_STOP_TIMEOUT"
    by (simp add: DEFAULT_STOP_TIMEOUT_def DEFAULT_POLL_INTERVAL_def)
  have next_look: "(120 - Suc n) * DEFAULT_POLL_INTERVAL + DEFAULT_POLL_INTERVAL = (120 - n) * DEFAULT_POLL_INTERVAL"
  proof -
    have "120 - n = Suc (120 - Suc n)" using Suc.prems by arith
    then show ?thesis by simp
  qed
  have IH: "stop_wait c d ((120 - n) * DEFAULT_POLL_INTERVAL) w' = stop_polls c d n w'" for w'
    using Suc.IH Suc.prems by simp
  show ?case
    unfolding stop_wait.simps [of c d "(120 - Suc n) * DEFAULT_POLL_INTERVAL"] stop_polls.simps [of c d "Suc n"]
      next_look IH
    using wait by (simp split: prod.split sum.split)
qed

lemma stop_wait_is_stop_polls: "stop_wait c d 0 w = stop_polls c d 120 w"
  using stop_wait_from [of 120] by simp

text \<open>A count of state reads.\<close>

definition counts_looks :: "'w client \<Rightarrow> ('w \<Rightarrow> nat) \<Rightarrow> bool" where
  "counts_looks c looks \<longleftrightarrow>
    (\<forall>d f w. looks (snd (lv_get_state (cl_api c) d f w)) = looks w + 1) \<and>
    (\<forall>n w. looks (cl_sleep c n w) = looks w) \<and>
    (\<forall>name w. looks (snd (lv_lookup_by_name (cl_api c) name w)) = looks w) \<and>
    (\<forall>d w. looks (snd (lv_shutdown (cl_api c) d w)) = looks w) \<and>
    (\<forall>d w. looks (snd (lv_destroy (cl_api c) d w)) = looks w)"

lemma domain_state_world: "snd (domain_state c d w) = snd (lv_get_state (cl_api c) d 0 w)"
  by (auto simp: domain_state_def io_defs split: prod.split sum.split)

lemma domain_state_looks:
  assumes "counts_looks c looks" "domain_state c d w = (r, w')"
  shows "looks w' = looks w + 1"
  using assms domain_state_world [of c d w] by (simp add: counts_looks_def)

lemma stop_polls_looks:
  assumes "counts_looks c looks"
  shows "stop_polls c d n w = (r, w') \<Longrightarrow>
    looks w' \<le> looks w + n + 1 \<and> (r = Inr False \<longrightarrow> looks w' = looks w + n + 1)"
proof (induction n arbitrary: w)
  case 0
  obtain r1 w1 where look: "domain_state c d w = (r1, w1)" by fastforce
  then show ?case
    using 0 domain_state_looks [OF assms look]
    by (auto simp: stop_polls.simps [of c d 0] split: sum.splits if_splits)
next
  case (Suc n)
  obtain r1 w1 where look: "domain_state c d w = (r1, w1)" by fastforce
  have w1: "looks w1 = looks w + 1" by (rule domain_state_looks [OF assms look])
  have sleep: "looks (cl_sleep c m v) = looks v" for m v
    using assms by (simp add: counts_looks_def)
  consider "stop_polls c d n (cl_sleep c DEFAULT_POLL_INTERVAL w1) = (r, w')"
    | "w' = w1" "r \<noteq> Inr False"
    using Suc.prems look by (auto simp: stop_polls.simps [of c d "Suc n"] split: sum.splits if_splits)
  then show ?case
  proof cases
    case 1
    show ?thesis using Suc.IH [OF 1] w1 by (auto simp: sleep)
  qed (simp add: w1)
qed

lemma lookup_domain_world: "snd (lookup_domain c name w) = snd (lv_lookup_by_name (cl_api c) name w)"
  by (auto simp: lookup_domain_def io_defs split: prod.split sum.split)


text \<open>A guest that ignores the request, for the examples: the state is the number of looks
  taken.\<close>

definition deaf_guest :: "nat client" where
  "deaf_guest =
    (let unit_call = (\<lambda>w. (Inr (), w));
         d = \<lparr>dom_name = ''web'', dom_uuid = replicate 16 0, dom_id = 1\<rparr> in
    \<lparr>cl_api = \<lparr>lv_define_xml = (\<lambda>x w. (Inr d, w)), lv_create = (\<lambda>d. unit_call), lv_shutdown = (\<lambda>d. unit_call),
       lv_reboot = (\<lambda>d f. unit_call), lv_destroy = (\<lambda>d. unit_call), lv_undefine_flags = (\<lambda>d f. unit_call),
       lv_set_autostart = (\<lambda>d f. unit_call), lv_lookup_by_name = (\<lambda>n w. (Inr d, w)),
       lv_get_state = (\<lambda>d f w. (Inr (1, 0), w + 1)),
       lv_get_info = (\<lambda>d w. (Inl (AProtocol ''none''), w)), lv_memory_stats = (\<lambda>d m f w. (Inr [], w)),
       lv_list_all_domains = (\<lambda>n f w. (Inr ([d], 1), w))\<rparr>,
     cl_network_api = None, cl_sleep = (\<lambda>n w. w)\<rparr>)"

lemma deaf_guest_state: "domain_state deaf_guest d w = (Inr Running, w + 1)"
  by (simp add: domain_state_def io_defs deaf_guest_def Let_def state_from_libvirt_def)

lemma deaf_guest_polls: "stop_polls deaf_guest d n w = (Inr False, w + n + 1)"
proof (induction n arbitrary: w)
  case (Suc n)
  then show ?case
    by (simp add: stop_polls.simps [of _ _ "Suc n"] deaf_guest_state) (simp add: deaf_guest_def Let_def)
qed (simp add: stop_polls.simps [of _ _ 0] deaf_guest_state)

lemma deaf_guest_calls:
  "lookup_domain deaf_guest n w = (Inr \<lparr>dom_name = ''web'', dom_uuid = replicate 16 0, dom_id = 1\<rparr>, w)"
  "lv_shutdown (cl_api deaf_guest) d w = (Inr (), w)" "lv_destroy (cl_api deaf_guest) d w = (Inr (), w)"
  by (simp_all add: lookup_domain_def io_match_def io_ok_def deaf_guest_def Let_def)

lemma deaf_guest_stop: "client_stop deaf_guest ''web'' 0 = (Inr Forced, 122)"
  by (simp add: client_stop_def io_defs stop_wait_is_stop_polls deaf_guest_state deaf_guest_polls deaf_guest_calls)


end
