(* ===== verification/Hypervisor_Xml.thy ===== *)
theory Hypervisor_Xml
  imports Hypervisor_Client
begin

text \<open>
  The domain document, \<open>crates/hypervisor/src/xml.rs\<close>: the checks of \<open>DomainSpec\<close>, the one
  template with its escaping, and the reader that finds the identity of a domain in
  a document.

  Text is its UTF-8 bytes.  A character outside ASCII is a sequence of bytes from 128
  up, which every function here passes on unchanged; the two exceptions, the code
  points \<open>U+FFFE\<close> and \<open>U+FFFF\<close>, are the sequences \<open>EF BF BE\<close> and \<open>EF BF BF\<close>.  The
  architecture the program was built for is the argument \<open>build_arch\<close>.
\<close>

section \<open>Definitions\<close>

definition ARCH_AMD64 :: string where "ARCH_AMD64 = ''x86_64''"
definition ARCH_ARM64 :: string where "ARCH_ARM64 = ''aarch64''"

record domain_spec =
  sp_name :: string
  sp_uuid :: string
  sp_vcpu :: nat
  sp_memory_mib :: nat
  sp_disk_path :: string
  sp_iso_path :: string
  sp_network :: string
  sp_mac :: string
  sp_nested :: bool
  sp_ksm :: bool
  sp_arch :: string

definition is_ascii_hexdigit :: "char \<Rightarrow> bool" where
  "is_ascii_hexdigit c \<longleftrightarrow> (let k = of_char c :: nat in
    (48 \<le> k \<and> k \<le> 57) \<or> (65 \<le> k \<and> k \<le> 70) \<or> (97 \<le> k \<and> k \<le> 102))"

definition valid_mac :: "string \<Rightarrow> bool" where
  "valid_mac mac =
    (let check = (\<lambda>separator. let parts = split_on separator mac in
        (length parts = 6 \<or> length parts = 8) \<and>
        list_all (\<lambda>part. length part = 2 \<and> list_all is_ascii_hexdigit part) parts) in
     if CHR '':'' \<in> set mac then check (CHR '':'')
     else if CHR ''-'' \<in> set mac then check (CHR ''-'')
     else False)"

definition validate_spec :: "domain_spec \<Rightarrow> (hyp_error, unit) result" where
  "validate_spec s =
    (let invalid = (\<lambda>message. HOperation (''domain spec: '' @ message)) in
     and_then (ensure (sp_name s \<noteq> []) (invalid ''name is empty'')) (\<lambda>_.
     and_then (ensure (sp_uuid s \<noteq> []) (invalid ''uuid is empty'')) (\<lambda>_.
     and_then (ensure (\<not> sp_vcpu s < 1) (invalid (''vcpu '' @ show_nat (sp_vcpu s) @ '' < 1''))) (\<lambda>_.
     and_then (ensure (\<not> sp_memory_mib s < 1) (invalid (''memory '' @ show_nat (sp_memory_mib s) @ '' MiB < 1''))) (\<lambda>_.
     and_then (ensure (sp_disk_path s \<noteq> []) (invalid ''disk path is empty'')) (\<lambda>_.
     and_then (ensure (sp_network s \<noteq> []) (invalid ''network is empty'')) (\<lambda>_.
     and_then (ensure (valid_mac (sp_mac s)) (invalid ''mac: invalid MAC address'')) (\<lambda>_.
     ensure (sp_arch s \<in> {[], ARCH_AMD64, ARCH_ARM64}) (invalid ''arch is not one of x86_64, aarch64'')))))))))"

definition host_arch :: "string \<Rightarrow> string" where
  "host_arch build_arch =
    (if build_arch = ''x86_64'' then ARCH_AMD64
     else if build_arch = ''aarch64'' then ARCH_ARM64
     else build_arch)"

definition REPLACEMENT :: string where
  "REPLACEMENT = [CHR 0xEF, CHR 0xBF, CHR 0xBD]"

fun is_xml_character :: "char \<Rightarrow> bool" where
  "is_xml_character c \<longleftrightarrow> 32 \<le> (of_char c :: nat)"

definition escape_char :: "char \<Rightarrow> string" where
  "escape_char c =
    (if c = CHR 0x22 then ''&#34;''
     else if c = CHR 0x27 then ''&#39;''
     else if c = CHR ''&'' then ''&amp;''
     else if c = CHR ''<'' then ''&lt;''
     else if c = CHR ''>'' then ''&gt;''
     else if c = CHR 0x09 then ''&#x9;''
     else if c = CHR 0x0A then ''&#xA;''
     else if c = CHR 0x0D then ''&#xD;''
     else if is_xml_character c then [c]
     else REPLACEMENT)"

fun escape_xml :: "string \<Rightarrow> string" where
  "escape_xml [] = []"
| "escape_xml (c # cs) =
    (case cs of
       d # e # rest \<Rightarrow>
         if c = CHR 0xEF \<and> d = CHR 0xBF \<and> (e = CHR 0xBE \<or> e = CHR 0xBF)
         then REPLACEMENT @ escape_xml rest
         else escape_char c @ escape_xml cs
     | _ \<Rightarrow> escape_char c @ escape_xml cs)"

definition nl :: string where "nl = [CHR 0x0A]"
definition apos :: string where "apos = [CHR 0x27]"

definition iso_device :: "domain_spec \<Rightarrow> bool \<Rightarrow> string" where
  "iso_device s arm64 =
    (if sp_iso_path s = [] then []
     else
       let bus = (if arm64 then ''scsi'' else ''sata'');
           controller = (if arm64 then
             ''    <!-- The aarch64 virt machine has no SATA controller, so the seed'' @ nl @
             ''         CD-ROM of SPEC 5.2 hangs off virtio-scsi instead. -->'' @ nl @
             ''    <controller type='scsi' index='0' model='virtio-scsi'/>'' @ nl
             else []) in
       ''    <disk type='file' device='cdrom'>'' @ nl @
       ''      <driver name='qemu' type='raw'/>'' @ nl @
       ''      <source file='' @ apos @ escape_xml (sp_iso_path s) @ apos @ ''/>'' @ nl @
       ''      <target dev='sda' bus='' @ apos @ bus @ apos @ ''/>'' @ nl @
       ''      <readonly/>'' @ nl @
       ''    </disk>'' @ nl @
       controller)"

definition domain_xml :: "string \<Rightarrow> domain_spec \<Rightarrow> (hyp_error, string) result" where
  "domain_xml build_arch s =
    and_then (validate_spec s) (\<lambda>_.
      let arch = (if sp_arch s = [] then host_arch build_arch else sp_arch s);
          arm64 = (arch = ARCH_ARM64);
          machine = (if arm64 then ''virt'' else ''q35'');
          memory_backing = (if sp_ksm s then [] else
            ''  <memoryBacking>'' @ nl @
            ''    <nosharepages/>'' @ nl @
            ''  </memoryBacking>'' @ nl);
          cpu_mode = (if sp_nested s \<or> arm64 then ''host-passthrough'' else ''host-model'');
          interrupt_controller = (if arm64 then ''    <gic version='' @ apos @ ''3'' @ apos @ ''/>'' else ''    <apic/>'');
          iso = iso_device s arm64 in
      Inr (
        ''<domain type='kvm'>'' @ nl @
        ''  <name>'' @ escape_xml (sp_name s) @ ''</name>'' @ nl @
        ''  <uuid>'' @ escape_xml (sp_uuid s) @ ''</uuid>'' @ nl @
        ''  <memory unit='MiB'>'' @ show_nat (sp_memory_mib s) @ ''</memory>'' @ nl @
        ''  <vcpu placement='static'>'' @ show_nat (sp_vcpu s) @ ''</vcpu>'' @ nl @
        ''  <os firmware='efi'>'' @ nl @
        ''    <type arch='' @ apos @ escape_xml arch @ apos @ '' machine='' @ apos @ machine @ apos @ ''>hvm</type>'' @ nl @
        ''  </os>'' @ nl @
        memory_backing @ ''  <cpu mode='' @ apos @ cpu_mode @ apos @ ''/>'' @ nl @
        ''  <features>'' @ nl @
        ''    <acpi/>'' @ nl @
        interrupt_controller @ nl @
        ''  </features>'' @ nl @
        ''  <on_poweroff>destroy</on_poweroff>'' @ nl @
        ''  <on_reboot>restart</on_reboot>'' @ nl @
        ''  <on_crash>destroy</on_crash>'' @ nl @
        ''  <devices>'' @ nl @
        ''    <disk type='file' device='disk'>'' @ nl @
        ''      <driver name='qemu' type='qcow2'/>'' @ nl @
        ''      <source file='' @ apos @ escape_xml (sp_disk_path s) @ apos @ ''/>'' @ nl @
        ''      <target dev='vda' bus='virtio'/>'' @ nl @
        ''    </disk>'' @ nl @
        iso @ ''    <interface type='network'>'' @ nl @
        ''      <mac address='' @ apos @ escape_xml (sp_mac s) @ apos @ ''/>'' @ nl @
        ''      <source network='' @ apos @ escape_xml (sp_network s) @ apos @ ''/>'' @ nl @
        ''      <model type='virtio'/>'' @ nl @
        ''    </interface>'' @ nl @
        ''    <console type='pty'>'' @ nl @
        ''      <target type='virtio' port='0'/>'' @ nl @
        ''    </console>'' @ nl @
        ''    <channel type='unix'>'' @ nl @
        ''      <source mode='bind'/>'' @ nl @
        ''      <target type='virtio' name='org.qemu.guest_agent.0'/>'' @ nl @
        ''    </channel>'' @ nl @
        ''    <rng model='virtio'>'' @ nl @
        ''      <backend model='random'>/dev/urandom</backend>'' @ nl @
        ''    </rng>'' @ nl @
        ''    <memballoon model='virtio' freePageReporting='on'/>'' @ nl @
        ''  </devices>'' @ nl @
        ''</domain>'' @ nl))"

section \<open>Reading a document\<close>

fun split_str :: "string \<Rightarrow> string \<Rightarrow> (string \<times> string) option" where
  "split_str pat [] = (if pat = [] then Some ([], []) else None)"
| "split_str pat (c # cs) =
    (if take (length pat) (c # cs) = pat then Some ([], drop (length pat) (c # cs))
     else map_option (\<lambda>(a, b). (c # a, b)) (split_str pat cs))"

definition hex_value :: "char \<Rightarrow> nat option" where
  "hex_value c = (let k = of_char c in
    if 48 \<le> k \<and> k \<le> 57 then Some (k - 48)
    else if 65 \<le> k \<and> k \<le> 70 then Some (k - 55)
    else if 97 \<le> k \<and> k \<le> 102 then Some (k - 87)
    else None)"

fun hex_from :: "nat \<Rightarrow> string \<Rightarrow> nat option" where
  "hex_from acc [] = Some acc"
| "hex_from acc (c # cs) = (case hex_value c of None \<Rightarrow> None | Some d \<Rightarrow> hex_from (16 * acc + d) cs)"

text \<open>\<open>from_str_radix\<close> with radix 16 for a type whose largest value is \<open>m\<close>.\<close>

definition parse_hex :: "nat \<Rightarrow> string \<Rightarrow> nat option" where
  "parse_hex m s =
    (let digits = (case s of [] \<Rightarrow> [] | c # cs \<Rightarrow> if c = CHR ''+'' then cs else c # cs) in
     if digits = [] then None
     else case hex_from 0 digits of None \<Rightarrow> None | Some n \<Rightarrow> if n \<le> m then Some n else None)"

text \<open>\<open>char::from_u32\<close> and the UTF-8 form of the character.\<close>

definition char_from_u32 :: "nat \<Rightarrow> nat option" where
  "char_from_u32 n = (if n \<le> 0x10FFFF \<and> \<not> (0xD800 \<le> n \<and> n \<le> 0xDFFF) then Some n else None)"

definition utf8_encode :: "nat \<Rightarrow> string" where
  "utf8_encode n =
    (if n < 0x80 then [char_of n]
     else if n < 0x800 then [char_of (0xC0 + n div 64), char_of (0x80 + n mod 64)]
     else if n < 0x10000 then
       [char_of (0xE0 + n div 4096), char_of (0x80 + n div 64 mod 64), char_of (0x80 + n mod 64)]
     else
       [char_of (0xF0 + n div 262144), char_of (0x80 + n div 4096 mod 64), char_of (0x80 + n div 64 mod 64),
        char_of (0x80 + n mod 64)])"

definition xml_code_point :: "nat \<Rightarrow> bool" where
  "xml_code_point n \<longleftrightarrow> (0x20 \<le> n \<and> n \<le> 0xD7FF) \<or> (0xE000 \<le> n \<and> n \<le> 0xFFFD) \<or> (0x10000 \<le> n \<and> n \<le> 0x10FFFF)"

definition entity_code :: "string \<Rightarrow> (string, nat) result" where
  "entity_code entity =
    (let bad = ''invalid XML entity &'' @ entity @ '';''; bad_point = ''invalid XML code point &'' @ entity @ '';'' in
     if entity = ''amp'' then Inr 38
     else if entity = ''lt'' then Inr 60
     else if entity = ''gt'' then Inr 62
     else if entity = ''quot'' then Inr 34
     else if entity = ''apos'' then Inr 39
     else if take 2 entity = ''#x'' then
       and_then (ok_or bad (parse_hex u32_max (drop 2 entity))) (\<lambda>n. ok_or bad_point (char_from_u32 n))
     else if take 1 entity = ''#'' then
       and_then (ok_or bad (parse_uint u32_max (drop 1 entity))) (\<lambda>n. ok_or bad_point (char_from_u32 n))
     else Inl (''unknown XML entity &'' @ entity @ '';''))"

definition entity_text :: "string \<Rightarrow> (string, string) result" where
  "entity_text entity =
    and_then (entity_code entity) (\<lambda>n.
      if n \<notin> {9, 10, 13} \<and> \<not> xml_code_point n
      then Inl (''invalid XML code point &'' @ entity @ '';'')
      else Inr (utf8_encode n))"

lemma split_once_length: "split_once d s = Some (a, b) \<Longrightarrow> length b < length s"
  by (induction s arbitrary: a) (auto split: if_splits option.splits)

function decode_entities :: "string \<Rightarrow> (string, string) result" where
  "decode_entities s =
    (case split_once (CHR ''&'') s of
       None \<Rightarrow> Inr s
     | Some (before, rest) \<Rightarrow>
         (case split_once (CHR '';'') rest of
            None \<Rightarrow> Inl ''unclosed XML entity''
          | Some (entity, rest') \<Rightarrow>
              and_then (entity_text entity) (\<lambda>t.
              and_then (decode_entities rest') (\<lambda>decoded. Inr (before @ t @ decoded)))))"
  by pat_completeness auto

termination
  by (relation "measure length") (auto dest!: split_once_length)

declare decode_entities.simps [simp del]

definition direct_text :: "string \<Rightarrow> string \<Rightarrow> (string, string) result" where
  "direct_text xml name =
    (case split_str (''<'' @ name @ ''>'') xml of
       None \<Rightarrow> Inl (''domain xml missing '' @ name)
     | Some (_, rest) \<Rightarrow>
         (case split_str (''</'' @ name @ ''>'') rest of
            None \<Rightarrow> Inl (''domain xml has unclosed '' @ name)
          | Some (t, _) \<Rightarrow> decode_entities t))"

section \<open>Escaping\<close>

text \<open>The text an XML document can hold: no control character but the three kinds of white
  space, and neither of the two code points that are not characters.\<close>

fun representable :: "string \<Rightarrow> bool" where
  "representable [] = True"
| "representable (c # cs) \<longleftrightarrow>
    (is_xml_character c \<or> c \<in> {CHR 0x09, CHR 0x0A, CHR 0x0D}) \<and>
    \<not> (c = CHR 0xEF \<and> take 2 cs \<in> {[CHR 0xBF, CHR 0xBE], [CHR 0xBF, CHR 0xBF]}) \<and>
    representable cs"

lemma escape_xml_Cons:
  assumes "representable (c # cs)"
  shows "escape_xml (c # cs) = escape_char c @ escape_xml cs"
  using assms by (cases cs; cases "tl cs") auto

lemma escape_char_no_markup: "d \<in> {CHR ''<'', CHR ''>'', CHR 0x22, CHR 0x27} \<Longrightarrow> d \<notin> set (escape_char c)"
  by (auto simp: escape_char_def REPLACEMENT_def)

lemma escape_xml_no_markup: "d \<in> {CHR ''<'', CHR ''>'', CHR 0x22, CHR 0x27} \<Longrightarrow> d \<notin> set (escape_xml s)"
proof (induction s rule: escape_xml.induct)
  case (2 c cs)
  then show ?case
    by (auto simp: escape_char_no_markup REPLACEMENT_def split: list.splits if_splits)
qed simp

lemma markup_chars:
  "char_of (38::nat) = CHR ''&''" "char_of (60::nat) = CHR ''<''" "char_of (62::nat) = CHR ''>''"
  "char_of (34::nat) = CHR 0x22" "char_of (39::nat) = CHR 0x27" "char_of (9::nat) = CHR 0x09"
  "char_of (10::nat) = CHR 0x0A" "char_of (13::nat) = CHR 0x0D"
  by code_simp+

lemma entity_text_eval:
  "entity_text ''amp'' = Inr ''&''" "entity_text ''lt'' = Inr ''<''" "entity_text ''gt'' = Inr ''>''"
  "entity_text ''#34'' = Inr [CHR 0x22]" "entity_text ''#39'' = Inr [CHR 0x27]"
  "entity_text ''#x9'' = Inr [CHR 0x09]" "entity_text ''#xA'' = Inr [CHR 0x0A]" "entity_text ''#xD'' = Inr [CHR 0x0D]"
  by (simp_all add: entity_text_def entity_code_def parse_hex_def hex_value_def parse_uint_def digit_value_def
      char_from_u32_def utf8_encode_def xml_code_point_def u32_max_def Let_def markup_chars)

lemma decode_entities_plain:
  assumes "c \<noteq> CHR ''&''"
  shows "decode_entities (c # s) = and_then (decode_entities s) (\<lambda>t. Inr (c # t))"
proof (cases "split_once (CHR ''&'') s")
  case None
  then show ?thesis using assms by (simp add: decode_entities.simps [of "c # s"] decode_entities.simps [of s])
next
  case (Some p)
  obtain before rest where p: "p = (before, rest)" by fastforce
  show ?thesis
  proof (cases "split_once (CHR '';'') rest")
    case None
    then show ?thesis
      using assms Some p by (simp add: decode_entities.simps [of "c # s"] decode_entities.simps [of s])
  next
    case (Some q)
    obtain entity rest' where q: "q = (entity, rest')" by fastforce
    have "decode_entities (c # s) = and_then (entity_text entity) (\<lambda>t.
        and_then (decode_entities rest') (\<lambda>decoded. Inr (c # before @ t @ decoded)))"
      using assms \<open>split_once (CHR ''&'') s = Some p\<close> p Some q
      by (simp add: decode_entities.simps [of "c # s"])
    moreover have "decode_entities s = and_then (entity_text entity) (\<lambda>t.
        and_then (decode_entities rest') (\<lambda>decoded. Inr (before @ t @ decoded)))"
      using \<open>split_once (CHR ''&'') s = Some p\<close> p Some q by (simp add: decode_entities.simps [of s])
    ultimately show ?thesis
      by (cases "entity_text entity"; cases "decode_entities rest'") simp_all
  qed
qed

lemma decode_entities_entity:
  assumes "CHR '';'' \<notin> set entity" "entity_text entity = Inr t"
  shows "decode_entities (CHR ''&'' # entity @ CHR '';'' # s) = and_then (decode_entities s) (\<lambda>u. Inr (t @ u))"
proof -
  have "split_once (CHR '';'') (entity @ CHR '';'' # s) = Some (entity, s)"
    using assms(1) by (induction entity) auto
  then show ?thesis by (subst decode_entities.simps) (simp add: assms(2))
qed

lemma decode_escape_char:
  assumes "is_xml_character c \<or> c \<in> {CHR 0x09, CHR 0x0A, CHR 0x0D}"
  shows "decode_entities (escape_char c @ s) = and_then (decode_entities s) (\<lambda>t. Inr (c # t))"
proof -
  have special: "decode_entities (CHR ''&'' # e @ CHR '';'' # s) = and_then (decode_entities s) (\<lambda>t. Inr (c # t))"
    if "CHR '';'' \<notin> set e" "entity_text e = Inr [c]" for e
    using decode_entities_entity [OF that] by simp
  show ?thesis
    using assms special [of "''amp''"] special [of "''lt''"] special [of "''gt''"] special [of "''#34''"]
      special [of "''#39''"] special [of "''#x9''"] special [of "''#xA''"] special [of "''#xD''"]
    by (auto simp: escape_char_def entity_text_eval decode_entities_plain)
qed

lemma decode_escape: "representable s \<Longrightarrow> decode_entities (escape_xml s) = Inr s"
proof (induction s)
  case Nil
  show ?case by (simp add: decode_entities.simps)
next
  case (Cons c cs)
  then show ?case by (simp add: escape_xml_Cons decode_escape_char del: escape_xml.simps)
qed

section \<open>Finding an element\<close>

lemma split_str_skip:
  assumes "CHR ''<'' \<notin> set t"
  shows "split_str (CHR ''<'' # p) (t @ s) = map_option (\<lambda>(a, b). (t @ a, b)) (split_str (CHR ''<'' # p) s)"
  using assms by (induction t) (auto simp: option.map_comp comp_def case_prod_unfold option.map_ident_strong)

lemma split_str_other: "c \<noteq> d \<Longrightarrow>
    split_str (d # p) (c # s) = map_option (\<lambda>(a, b). (c # a, b)) (split_str (d # p) s)"
  by simp

lemma split_str_at: "split_str (d # p) (d # s) =
    (if take (length p) s = p then Some ([], drop (length p) s)
     else map_option (\<lambda>(a, b). (d # a, b)) (split_str (d # p) s))"
  by simp

lemma split_str_text:
  assumes "CHR ''<'' \<notin> set t"
  shows "split_str (CHR ''<'' # p) (t @ CHR ''<'' # p @ s) = Some (t, s)"
  unfolding split_str_skip [OF assms] by (simp add: split_str_at)

declare split_str.simps [simp del]

lemma split_str_name: "split_str ''<name>'' (''<domain type='kvm'>'' @ nl @ ''  <name>'' @ s) =
    Some (''<domain type='kvm'>'' @ nl @ ''  '', s)"
  by (simp add: split_str_at split_str_other nl_def)

lemma split_str_uuid:
  assumes "CHR ''<'' \<notin> set n"
  shows "\<exists>before. split_str ''<uuid>'' (''<domain type='kvm'>'' @ nl @ ''  <name>'' @ n @ ''</name>'' @ nl @
      ''  <uuid>'' @ s) = Some (before, s)"
  by (simp add: split_str_at split_str_other split_str_skip [OF assms] nl_def)


text \<open>An instance whose name tries to close its element.\<close>

definition hostile_spec :: domain_spec where
  "hostile_spec = \<lparr>sp_name = ''web</name><uuid>0'', sp_uuid = ''u1'', sp_vcpu = 1, sp_memory_mib = 512,
    sp_disk_path = ''/var/d'', sp_iso_path = [], sp_network = ''bento-user-0'', sp_mac = ''02:00:00:00:00:01'',
    sp_nested = False, sp_ksm = True, sp_arch = []\<rparr>"

lemma hostile_spec_valid: "validate_spec hostile_spec = Inr ()"
  by (simp add: validate_spec_def hostile_spec_def valid_mac_def is_ascii_hexdigit_def ARCH_AMD64_def
      ARCH_ARM64_def Let_def)

lemma hostile_spec_rendered: "\<exists>xml. domain_xml arch hostile_spec = Inr xml"
  by (simp add: domain_xml_def hostile_spec_valid Let_def)

lemma hostile_spec_representable: "representable (sp_name hostile_spec)" "representable (sp_uuid hostile_spec)"
  by (simp_all add: hostile_spec_def)


end
