(* ===== verification/Net_Prefix.thy ===== *)
theory Net_Prefix
  imports Bento_Prelude
begin

text \<open>
  IPv4 addresses and prefixes: \<open>Ipv4Prefix\<close> of the config crate with its
  text form, and the mask helpers of the network crate.

  An address is a \<open>32 word\<close>, so \<open>addr_to_u32\<close> and \<open>u32_to_addr\<close> are the
  identity.  A prefix length is a \<open>nat\<close> standing for a \<open>u8\<close>.  The lemma
  \<open>unat_mask\<close> turns every mask into division, and the collection
  \<open>prefix_simps\<close> carries that arithmetic to the allocators.  The text form
  covers the standard library's reader and printer of a dotted quad; the
  reason given in a parse error is not kept.
\<close>

named_theorems prefix_simps

type_synonym ipv4_addr = "32 word"

section \<open>Definitions\<close>

record ipv4_prefix =
  p_addr :: ipv4_addr
  p_bits :: nat

definition prefix_mask :: "nat \<Rightarrow> ipv4_addr" where
  "prefix_mask b = (if b = 0 then 0 else if b \<le> 32 then push_bit (32 - b) (- 1) else 0)"

definition contains :: "ipv4_prefix \<Rightarrow> ipv4_addr \<Rightarrow> bool" where
  "contains p a =
    (if p_bits p = 0 then a AND 0 = p_addr p AND 0
     else if p_bits p \<le> 32 then
       (let mask = push_bit (32 - p_bits p) (- 1) in a AND mask = p_addr p AND mask)
     else False)"

definition masked :: "ipv4_prefix \<Rightarrow> ipv4_prefix" where
  "masked p = \<lparr>p_addr = p_addr p AND prefix_mask (p_bits p), p_bits = p_bits p\<rparr>"

definition octet :: "nat \<Rightarrow> ipv4_addr \<Rightarrow> nat" where
  "octet k a = unat (take_bit 8 (drop_bit k a))"

definition show_ipv4 :: "ipv4_addr \<Rightarrow> string" where
  "show_ipv4 a = show_nat (octet 24 a) @ ''.'' @ show_nat (octet 16 a) @ ''.'' @
     show_nat (octet 8 a) @ ''.'' @ show_nat (octet 0 a)"

definition parse_octet :: "string \<Rightarrow> nat option" where
  "parse_octet s =
    (if s = [] \<or> 3 < length s \<or> (1 < length s \<and> hd s = CHR ''0'') then None
     else case digits_from 0 s of
            None \<Rightarrow> None
          | Some n \<Rightarrow> if n \<le> u8_max then Some n else None)"

definition parse_ipv4 :: "string \<Rightarrow> ipv4_addr option" where
  "parse_ipv4 s =
    (case map parse_octet (split_on CHR ''.'' s) of
       [Some a, Some b, Some c, Some d] \<Rightarrow> Some (of_nat (((a * 256 + b) * 256 + c) * 256 + d))
     | _ \<Rightarrow> None)"

definition format_prefix :: "ipv4_prefix \<Rightarrow> string" where
  "format_prefix p = show_ipv4 (p_addr p) @ ''/'' @ show_nat (p_bits p)"

definition parse_prefix :: "string \<Rightarrow> ipv4_prefix option" where
  "parse_prefix s =
    (case split_once CHR ''/'' s of
       None \<Rightarrow> None
     | Some (addr_part, bits_part) \<Rightarrow>
        (case (parse_ipv4 addr_part, parse_uint u8_max bits_part) of
           (Some a, Some b) \<Rightarrow> if b > 32 then None else Some \<lparr>p_addr = a, p_bits = b\<rparr>
         | _ \<Rightarrow> None))"

text \<open>Evaluation of printed and parsed text on concrete input.\<close>

lemmas text_eval = show_ipv4_def octet_def show_nat.simps digit_char_def digit_chars format_prefix_def
  parse_prefix_def parse_ipv4_def parse_octet_def parse_uint_def digit_value_def u8_max_def Let_def

section \<open>Masks are division\<close>

lemma and_push_bit_minus_one: "(x :: ipv4_addr) AND push_bit k (- 1) = push_bit k (drop_bit k x)"
  by (rule bit_eqI) (auto simp: bit_simps)

lemma unat_push_bit_drop_bit:
  "unat (push_bit k (drop_bit k (x :: ipv4_addr))) = (unat x div 2 ^ k) * 2 ^ k"
proof -
  have "(unat x div 2 ^ k) * 2 ^ k \<le> unat x" by simp
  also have "unat x < 2 ^ 32" using unsigned_less [of x] by simp
  finally have "take_bit 32 ((unat x div 2 ^ k) * 2 ^ k) = (unat x div 2 ^ k) * 2 ^ k"
    by (simp only: take_bit_nat_eq_self_iff)
  then show ?thesis
    unfolding unsigned_push_bit_eq unat_drop_bit_eq
    by (simp add: push_bit_eq_mult drop_bit_eq_div)
qed

lemma unat_and_mask:
  assumes "b \<le> 32"
  shows "unat (x AND prefix_mask b) = (unat x div 2 ^ (32 - b)) * 2 ^ (32 - b)"
proof (cases "b = 0")
  case True
  have "unat x < 2 ^ 32" using unsigned_less [of x] by simp
  then show ?thesis using True by (simp add: prefix_mask_def)
next
  case False
  then show ?thesis
    using assms by (simp only: prefix_mask_def and_push_bit_minus_one unat_push_bit_drop_bit
        if_True if_False)
qed

lemma unat_masked [prefix_simps]:
  "p_bits p \<le> 32 \<Longrightarrow>
    unat (p_addr (masked p)) = (unat (p_addr p) div 2 ^ (32 - p_bits p)) * 2 ^ (32 - p_bits p)"
  by (simp add: masked_def unat_and_mask)

lemma masked_bits [simp]: "p_bits (masked p) = p_bits p"
  by (simp add: masked_def)

lemma contains_iff_mask:
  "p_bits p \<le> 32 \<Longrightarrow>
    contains p a \<longleftrightarrow> a AND prefix_mask (p_bits p) = p_addr p AND prefix_mask (p_bits p)"
  by (auto simp: contains_def prefix_mask_def Let_def)

lemma contains_iff [prefix_simps]:
  assumes "p_bits p \<le> 32"
  shows "contains p a \<longleftrightarrow>
    unat a div 2 ^ (32 - p_bits p) = unat (p_addr p) div 2 ^ (32 - p_bits p)"
  using assms by (simp add: contains_iff_mask word_unat_eq_iff unat_and_mask)

lemma contains_masked [simp]: "contains (masked p) = contains p"
  by (auto simp: fun_eq_iff contains_def masked_def prefix_mask_def Let_def and.assoc)

lemma masked_masked [simp]: "masked (masked p) = masked p"
  by (simp add: masked_def and.assoc)

lemma contains_self: "p_bits p \<le> 32 \<Longrightarrow> contains p (p_addr p)"
  by (simp add: contains_iff)

text \<open>A longer prefix whose network address lies in a shorter one is inside it.\<close>

lemma contains_trans:
  assumes "p_bits p \<le> p_bits q" "p_bits q \<le> 32" "contains p (p_addr q)" "contains q a"
  shows "contains p a"
proof -
  let ?e = "2 ^ (p_bits q - p_bits p) :: nat"
  have pow: "2 ^ (32 - p_bits p) = 2 ^ (32 - p_bits q) * ?e"
    using assms(1,2) by (simp flip: power_add)
  have "unat a div 2 ^ (32 - p_bits p) = unat a div 2 ^ (32 - p_bits q) div ?e"
    by (simp only: pow div_mult2_eq)
  also have "\<dots> = unat (p_addr q) div 2 ^ (32 - p_bits q) div ?e"
    using assms(2,4) by (simp add: contains_iff)
  also have "\<dots> = unat (p_addr q) div 2 ^ (32 - p_bits p)"
    by (simp only: pow div_mult2_eq)
  finally show ?thesis
    using assms(1-3) by (simp add: contains_iff)
qed

section \<open>The text form\<close>

lemma unat_octet: "octet k a = unat a div 2 ^ k mod 256"
  unfolding octet_def unsigned_take_bit_eq unat_drop_bit_eq
  by (simp add: take_bit_eq_mod drop_bit_eq_div)

lemma octet_le: "octet k a \<le> u8_max"
  using mod_less_divisor [of 256 "unat a div 2 ^ k"] by (simp add: unat_octet u8_max_def)

lemma show_nat_length: "n \<le> u8_max \<Longrightarrow> length (show_nat n) \<le> 3"
  by (subst show_nat.simps, subst show_nat.simps, subst show_nat.simps) (simp add: u8_max_def)

lemma show_nat_head: "1 < length (show_nat n) \<Longrightarrow> hd (show_nat n) \<noteq> CHR ''0''"
proof (induction n rule: show_nat.induct)
  case (1 n)
  have n: "\<not> n < 10" using "1.prems" by (subst (asm) show_nat.simps) (auto split: if_splits)
  then have step: "show_nat n = show_nat (n div 10) @ [digit_char (n mod 10)]"
    by (subst show_nat.simps) simp
  show ?case
  proof (cases "n div 10 < 10")
    case True
    moreover have "n div 10 \<noteq> 0" using n by simp
    ultimately have "digit_char (n div 10) \<noteq> CHR ''0''"
      by (auto simp: digit_char_def dest: arg_cong [where f = "of_char :: char \<Rightarrow> nat"])
    then show ?thesis using step True by (simp add: show_nat.simps [of "n div 10"])
  next
    case False
    then have "1 < length (show_nat (n div 10))"
      by (subst show_nat.simps) (simp add: Suc_le_eq)
    then show ?thesis using "1.IH" n step by simp
  qed
qed

lemma parse_octet_show_nat [text_simps]: "n \<le> u8_max \<Longrightarrow> parse_octet (show_nat n) = Some n"
  using show_nat_length [of n] show_nat_head [of n]
  by (auto simp: parse_octet_def digits_from_show_nat)

lemma octets_recompose:
  "of_nat (((octet 24 a * 256 + octet 16 a) * 256 + octet 8 a) * 256 + octet 0 a) = a"
proof -
  have "unat a < 2 ^ 32" using unsigned_less [of a] by simp
  then have less: "unat a div 2 ^ 24 < 256" by (simp add: less_mult_imp_div_less)
  have shift: "unat a div 2 ^ 24 = unat a div 2 ^ 16 div 256" "unat a div 2 ^ 16 = unat a div 2 ^ 8 div 256"
      "unat a div 2 ^ 8 = unat a div 2 ^ 0 div 256"
    by (simp_all flip: div_mult2_eq)
  have "octet 24 a * 256 + octet 16 a = unat a div 2 ^ 16"
    using less by (simp only: unat_octet mod_less) (simp only: shift(1) div_mult_mod_eq)
  moreover have "unat a div 2 ^ 16 * 256 + octet 8 a = unat a div 2 ^ 8"
    by (simp only: unat_octet shift(2) div_mult_mod_eq)
  moreover have "unat a div 2 ^ 8 * 256 + octet 0 a = unat a"
    by (simp only: unat_octet shift(3) div_mult_mod_eq power_0 div_by_1)
  ultimately show ?thesis by (simp only:) simp
qed

lemma parse_show_ipv4 [text_simps]: "parse_ipv4 (show_ipv4 a) = Some a"
  using octets_recompose [of a] by (simp add: parse_ipv4_def show_ipv4_def text_simps octet_le)

lemma show_ipv4_inj: "show_ipv4 a = show_ipv4 b \<longleftrightarrow> a = b"
  using parse_show_ipv4 by (metis option.inject)

lemma show_ipv4_no_slash: "CHR ''/'' \<notin> set (show_ipv4 a)"
  by (simp add: show_ipv4_def text_simps)

lemma parse_prefix_format:
  "p_bits p \<le> 32 \<Longrightarrow> parse_prefix (format_prefix p) = Some p"
  using split_once_append [OF show_ipv4_no_slash]
  by (simp add: parse_prefix_def format_prefix_def text_simps u8_max_def)

lemma parse_prefix_bits: "parse_prefix s = Some p \<Longrightarrow> p_bits p \<le> 32"
  by (auto simp: parse_prefix_def split: option.splits prod.splits if_splits)

section \<open>Properties\<close>

text \<open>C40. Printing a prefix and parsing the text gives the prefix back, and every
  prefix the parser returns has a length of at most 32, so the text stored for a
  user subnet always reads back as the subnet that was written.\<close>

theorem prefix_text_roundtrip:
  "(p_bits p \<le> 32 \<longrightarrow> parse_prefix (format_prefix p) = Some p) \<and>
   (parse_prefix s = Some q \<longrightarrow> p_bits q \<le> 32) \<and>
   parse_ipv4 (show_ipv4 a) = Some a"
  using parse_prefix_format parse_prefix_bits parse_show_ipv4 by blast

theorem prefix_text_roundtrip_witness:
  "parse_prefix (format_prefix \<lparr>p_addr = 0x0A640000, p_bits = 16\<rparr>) =
    Some \<lparr>p_addr = 0x0A640000, p_bits = 16\<rparr>"
  using prefix_text_roundtrip [of "\<lparr>p_addr = 0x0A640000, p_bits = 16\<rparr>"] by simp

end
