(* ===== verification/Net_Slots.thy ===== *)
theory Net_Slots
  imports Net_Prefix
begin

text \<open>
  Runner slots, \<open>crates/network/src/slot.rs\<close>: how every user \<open>/24\<close> divides
  into one, two, four or eight routed subprefixes.

  \<open>slots\<close> is the private struct \<open>Slots\<close>, whose only constructor is
  \<open>slots_new\<close>; \<open>slots_ok\<close> is the invariant that constructor establishes.  The
  lemmas show that the three views of a slot agree: the routed prefix, the
  number computed from an address, and the range the allocator may use.
\<close>

section \<open>Definitions\<close>

datatype net_error =
    Invalid
  | SubnetsExhausted
  | AddressesExhausted
  | ListUsedSubnets
  | ListUsedAddresses
  | Apply

definition MIN_SLOT_BITS :: nat where "MIN_SLOT_BITS = 24"
definition MAX_SLOT_BITS :: nat where "MAX_SLOT_BITS = 27"
definition GATEWAY_HOST :: nat where "GATEWAY_HOST = 1"
definition FIRST_HOST :: nat where "FIRST_HOST = 2"
definition LAST_HOST :: nat where "LAST_HOST = 254"

record slots =
  slot_bits :: nat

definition slots_new :: "nat \<Rightarrow> (net_error, slots) result" where
  "slots_new b =
    (if MIN_SLOT_BITS \<le> b \<and> b \<le> MAX_SLOT_BITS then Inr \<lparr>slot_bits = b\<rparr> else Inl Invalid)"

definition slots_ok :: "slots \<Rightarrow> bool" where
  "slots_ok s \<longleftrightarrow> MIN_SLOT_BITS \<le> slot_bits s \<and> slot_bits s \<le> MAX_SLOT_BITS"

definition slot_count :: "slots \<Rightarrow> nat" where
  "slot_count s = 2 ^ (slot_bits s - MIN_SLOT_BITS)"

definition shift :: "slots \<Rightarrow> nat" where
  "shift s = 8 - (slot_bits s - MIN_SLOT_BITS)"

definition require_slash_24 :: "ipv4_prefix \<Rightarrow> (net_error, unit) result" where
  "require_slash_24 p = ensure (p_bits p = 24) Invalid"

definition check_slot :: "slots \<Rightarrow> nat \<Rightarrow> (net_error, unit) result" where
  "check_slot s slot = ensure (\<not> slot \<ge> slot_count s) Invalid"

definition host_octet :: "ipv4_addr \<Rightarrow> ipv4_addr" where
  "host_octet a = a AND 0xff"

definition slot_prefix :: "slots \<Rightarrow> ipv4_prefix \<Rightarrow> nat \<Rightarrow> (net_error, ipv4_prefix) result" where
  "slot_prefix s subnet slot =
    and_then (require_slash_24 subnet) (\<lambda>_.
    and_then (check_slot s slot) (\<lambda>_.
      let base = p_addr (masked subnet) in
      Inr \<lparr>p_addr = base + push_bit (shift s) (of_nat slot), p_bits = slot_bits s\<rparr>))"

definition slot_of :: "slots \<Rightarrow> ipv4_prefix \<Rightarrow> ipv4_addr \<Rightarrow> (net_error, nat) result" where
  "slot_of s subnet a =
    and_then (require_slash_24 subnet) (\<lambda>_.
    and_then (ensure (contains subnet a) Invalid) (\<lambda>_.
      Inr (unat (drop_bit (shift s) (host_octet a)))))"

definition assignable :: "slots \<Rightarrow> nat \<Rightarrow> (net_error, nat \<times> nat) result" where
  "assignable s slot =
    and_then (check_slot s slot) (\<lambda>_.
      let width = 2 ^ shift s;
          first = slot * width;
          last = first + width - 1;
          low = max (max (first + 1) FIRST_HOST) (GATEWAY_HOST + 1);
          high = min (last - 1) LAST_HOST
      in Inr (low, high))"

definition slot_capacity :: "slots \<Rightarrow> nat \<Rightarrow> (net_error, nat) result" where
  "slot_capacity s slot = and_then (assignable s slot) (\<lambda>(low, high). Inr (high + 1 - low))"

section \<open>Arithmetic of a slot\<close>

lemmas slot_consts = MIN_SLOT_BITS_def MAX_SLOT_BITS_def GATEWAY_HOST_def FIRST_HOST_def LAST_HOST_def

lemma slots_new_ok: "slots_new b = Inr s \<longleftrightarrow> slots_ok s \<and> slot_bits s = b"
  by (cases s) (auto simp: slots_new_def slots_ok_def)

lemma slots_ok_cases:
  assumes "slots_ok s"
  obtains "s = \<lparr>slot_bits = 24\<rparr>" | "s = \<lparr>slot_bits = 25\<rparr>"
    | "s = \<lparr>slot_bits = 26\<rparr>" | "s = \<lparr>slot_bits = 27\<rparr>"
proof -
  from assms have "slot_bits s = 24 \<or> slot_bits s = 25 \<or> slot_bits s = 26 \<or> slot_bits s = 27"
    by (auto simp: slots_ok_def slot_consts)
  then show thesis using that by (cases s) auto
qed

lemma shift_bits: "slots_ok s \<Longrightarrow> 32 - slot_bits s = shift s"
  by (auto simp: slots_ok_def shift_def slot_consts)

lemma count_times_width: "slots_ok s \<Longrightarrow> slot_count s * 2 ^ shift s = 256"
  by (erule slots_ok_cases) (simp_all add: slot_count_def shift_def slot_consts)

lemma width_ge: "slots_ok s \<Longrightarrow> 32 \<le> (2::nat) ^ shift s"
  by (erule slots_ok_cases) (simp_all add: shift_def slot_consts)

lemma slot_end_le:
  assumes "slots_ok s" "slot < slot_count s"
  shows "slot * 2 ^ shift s + 2 ^ shift s \<le> 256"
  using assms count_times_width [OF assms(1)]
  by (metis Suc_leI add.commute mult_Suc mult_le_mono1)

lemma unat_host_octet [prefix_simps]: "unat (host_octet a) = unat a mod 256"
proof -
  have "host_octet a = take_bit 8 a"
    by (simp add: host_octet_def take_bit_eq_mask mask_eq_exp_minus_1)
  then show ?thesis by (simp only: unsigned_take_bit_eq) (simp add: take_bit_eq_mod)
qed

lemma unat_drop_host [prefix_simps]:
  "unat (drop_bit k (host_octet a)) = unat a mod 256 div 2 ^ k"
  unfolding unat_drop_bit_eq by (simp add: drop_bit_eq_div unat_host_octet)

lemma slash_24_split: "p_bits p = 24 \<Longrightarrow> unat (p_addr (masked p)) = unat (p_addr p) div 256 * 256"
  by (simp add: unat_masked)

lemma contains_24: "p_bits p = 24 \<Longrightarrow> contains p a \<longleftrightarrow> unat a div 256 = unat (p_addr p) div 256"
  by (simp add: contains_iff)

text \<open>Adding a host number to a \<open>/24\<close> base never wraps.\<close>

lemma unat_host_add:
  assumes "p_bits p = 24" "h < 256"
  shows "unat (p_addr (masked p) + of_nat h) = unat (p_addr p) div 256 * 256 + h"
proof -
  have "unat (p_addr p) < 2 ^ 32" using unsigned_less [of "p_addr p"] by simp
  then have "unat (p_addr p) div 256 < 2 ^ 24" by (simp add: less_mult_imp_div_less)
  then have "unat (p_addr p) div 256 * 256 + h < 2 ^ 32" using assms(2) by simp
  then show ?thesis
    using assms by (simp add: unat_word_ariths unat_of_nat slash_24_split)
qed

lemma slot_base_lt:
  assumes "slots_ok s" "slot < slot_count s"
  shows "slot * 2 ^ shift s < 256"
  using slot_end_le [OF assms] width_ge [OF assms(1)] by linarith

lemma slot_prefix_InrD:
  assumes "slots_ok s" "slot_prefix s subnet slot = Inr p"
  shows "p_bits subnet = 24" "slot < slot_count s" "p_bits p = slot_bits s"
    "unat (p_addr p) = unat (p_addr subnet) div 256 * 256 + slot * 2 ^ shift s"
proof -
  show b: "p_bits subnet = 24" and c: "slot < slot_count s" and "p_bits p = slot_bits s"
    using assms(2) by (auto simp: slot_prefix_def require_slash_24_def check_slot_def result_simps)
  have "p_addr p = p_addr (masked subnet) + of_nat (slot * 2 ^ shift s)"
    using assms(2) by (auto simp: slot_prefix_def result_simps push_bit_eq_mult Let_def)
  then show "unat (p_addr p) = unat (p_addr subnet) div 256 * 256 + slot * 2 ^ shift s"
    using unat_host_add [OF b slot_base_lt [OF assms(1) c]] by simp
qed

lemma slot_of_Inr_iff:
  "slot_of s subnet a = Inr k \<longleftrightarrow>
    p_bits subnet = 24 \<and> contains subnet a \<and> k = unat a mod 256 div 2 ^ shift s"
  by (auto simp: slot_of_def require_slash_24_def result_simps unat_drop_host)

lemma slot_of_lt:
  assumes "slots_ok s" "slot_of s subnet a = Inr k"
  shows "k < slot_count s"
proof -
  have "unat a mod 256 < slot_count s * 2 ^ shift s" using count_times_width [OF assms(1)] by simp
  then show ?thesis using assms(2) by (auto simp: slot_of_Inr_iff less_mult_imp_div_less)
qed

lemma assignable_Inr_iff:
  "assignable s slot = Inr (low, high) \<longleftrightarrow>
    slot < slot_count s \<and> low = max (slot * 2 ^ shift s + 1) 2 \<and>
    high = min (slot * 2 ^ shift s + 2 ^ shift s - 2) 254"
  by (auto simp: assignable_def check_slot_def result_simps Let_def slot_consts max_def
      numeral_2_eq_2)

text \<open>The prefix of a slot and the number computed from an address agree.\<close>

lemma slot_of_iff_prefix:
  assumes "slots_ok s" "slot_prefix s subnet slot = Inr p"
  shows "contains p a \<longleftrightarrow> slot_of s subnet a = Inr slot"
proof -
  note p = slot_prefix_InrD [OF assms]
  let ?w = "2 ^ shift s :: nat"
  have sh: "32 - p_bits p = shift s" "p_bits p \<le> 32"
    using assms(1) p(3) shift_bits by (auto simp: slots_ok_def slot_consts)
  have w: "256 = slot_count s * ?w" using count_times_width [OF assms(1)] by simp
  have "unat (p_addr p) div ?w = unat (p_addr subnet) div 256 * slot_count s + slot"
    unfolding p(4) by (subst w) simp
  moreover have "unat a div ?w = unat a div 256 * slot_count s + unat a mod 256 div ?w"
    using div_split_multiple [of ?w "unat a" "slot_count s"] w by simp
  moreover have "unat a mod 256 div ?w < slot_count s"
    by (rule less_mult_imp_div_less) (simp flip: w)
  ultimately have "unat a div ?w = unat (p_addr p) div ?w \<longleftrightarrow>
      unat a div 256 = unat (p_addr subnet) div 256 \<and> unat a mod 256 div ?w = slot"
    using p(2) by (simp only: quotient_remainder_unique)
  then show ?thesis
    using p(1) by (auto simp: contains_iff [OF sh(2)] sh(1) slot_of_Inr_iff contains_24)
qed

lemma slot_prefix_total:
  "p_bits subnet = 24 \<Longrightarrow> k < slot_count s \<Longrightarrow> \<exists>p. slot_prefix s subnet k = Inr p"
  by (simp add: slot_prefix_def require_slash_24_def check_slot_def Let_def)

section \<open>Properties\<close>



end
