(* ===== verification/Net_Firewall.thy ===== *)
theory Net_Firewall
  imports Net_Slots "HOL-Library.Char_ord" "HOL-Library.List_Lexorder"
begin

text \<open>
  The nftables table, \<open>crates/network/src/nftables.rs\<close>.

  \<open>render\<close> checks the input and prints one table.  The model keeps the table as rules
  (\<open>render_table\<close>) and prints it with \<open>show_table\<close>, which writes the same bytes as the
  source.  Ports are \<open>nat\<close> standing for \<open>u16\<close> and slot numbers \<open>nat\<close> standing for \<open>u32\<close>;
  nothing computes with them.

  The program \<open>nft\<close> is not part of the source.  It is an argument \<open>nft\<close> of the
  properties, and \<open>nft_loads\<close> is what its manual says of a table: rules are read in order, the
  first one that matches decides, the policy decides when none does, \<open>ip\<close> expressions match only
  IPv4 packets, and a set expression must not be empty.
\<close>

section \<open>Input\<close>

datatype port_range = PortRange (pr_from: nat) (pr_to: nat)

text \<open>The derived order of \<open>PortRange\<close> compares \<open>from\<close>, then \<open>to\<close>.\<close>

instantiation port_range :: linorder
begin

definition less_eq_port_range :: "port_range \<Rightarrow> port_range \<Rightarrow> bool" where
  "less_eq_port_range a b \<longleftrightarrow> pr_from a < pr_from b \<or> pr_from a = pr_from b \<and> pr_to a \<le> pr_to b"

definition less_port_range :: "port_range \<Rightarrow> port_range \<Rightarrow> bool" where
  "less_port_range a b \<longleftrightarrow> pr_from a < pr_from b \<or> pr_from a = pr_from b \<and> pr_to a < pr_to b"

instance
  by standard (auto simp: less_eq_port_range_def less_port_range_def port_range.expand)

end

record user_network =
  un_name :: string
  un_bridge :: string
  un_subnet :: ipv4_prefix

record published_instance =
  pi_address :: ipv4_addr
  pi_http_ports :: "nat list"
  pi_port_ranges :: "port_range list"

record firewall_user =
  fu_network :: user_network
  fu_instances :: "published_instance list"

record ruleset =
  rs_private_range :: ipv4_prefix
  rs_users :: "firewall_user list"
  rs_underlay_peers :: bool
  rs_frontends :: "ipv4_addr list"
  rs_runner_prefix :: nat
  rs_remote_slots :: "nat list"
  rs_management :: "ipv4_addr list"

text \<open>Iterating a \<open>BTreeSet\<close> built from a list: sorted, without repetition.\<close>

definition btree_set :: "'a::linorder list \<Rightarrow> 'a list" where
  "btree_set xs = remdups (sort xs)"

section \<open>Rules\<close>

text \<open>The match expressions and statements the renderer writes.  A rule is its matches in
  order and its statement.\<close>

datatype nft_match =
    Iifname string
  | IifnameNot "string list"
  | Oifname string
  | SaddrIn "ipv4_prefix list"
  | SaddrNot "ipv4_prefix list"
  | SaddrIs ipv4_addr
  | DaddrIn "ipv4_prefix list"
  | DaddrNot ipv4_prefix
  | DaddrIs ipv4_addr
  | DaddrSet "ipv4_addr list"
  | TcpDport "nat list" "port_range list"
  | CtEstablished
  | IcmpType "string list"

datatype nft_statement = Accept | Drop | Masquerade

type_synonym nft_rule = "nft_match list \<times> nft_statement"

datatype nft_line = Comment string | Rule nft_rule

record nft_chain =
  ch_name :: string
  ch_hook :: string
  ch_policy :: nft_statement
  ch_lines :: "nft_line list"

section \<open>Text\<close>

definition quoted :: "string \<Rightarrow> string" where
  "quoted s = [CHR 0x22] @ s @ [CHR 0x22]"

fun join :: "string \<Rightarrow> string list \<Rightarrow> string" where
  "join sep [] = []"
| "join sep [x] = x"
| "join sep (x # y # xs) = x @ sep @ join sep (y # xs)"

definition braces :: "string list \<Rightarrow> string" where
  "braces parts = ''{ '' @ join '', '' parts @ '' }''"

definition prefix_set :: "ipv4_prefix list \<Rightarrow> string" where
  "prefix_set prefixes =
    (case prefixes of [one] \<Rightarrow> format_prefix one | _ \<Rightarrow> braces (map format_prefix prefixes))"

definition addr_set :: "ipv4_addr list \<Rightarrow> string" where
  "addr_set addresses = braces (map show_ipv4 addresses)"

fun show_range :: "port_range \<Rightarrow> string" where
  "show_range (PortRange from to) = show_nat from @ ''-'' @ show_nat to"

text \<open>The ports of a set expression; the second half of \<open>port_set\<close> in the source.\<close>

definition show_ports :: "nat list \<Rightarrow> port_range list \<Rightarrow> string" where
  "show_ports ports ranges = join '', '' (map show_nat ports @ map show_range ranges)"

fun show_match :: "nft_match \<Rightarrow> string" where
  "show_match (Iifname b) = ''iifname '' @ quoted b"
| "show_match (IifnameNot bs) = ''iifname != '' @ braces (map quoted bs)"
| "show_match (Oifname b) = ''oifname '' @ quoted b"
| "show_match (SaddrIn ps) = ''ip saddr '' @ prefix_set ps"
| "show_match (SaddrNot ps) = ''ip saddr != '' @ prefix_set ps"
| "show_match (SaddrIs a) = ''ip saddr '' @ show_ipv4 a"
| "show_match (DaddrIn ps) = ''ip daddr '' @ prefix_set ps"
| "show_match (DaddrNot p) = ''ip daddr != '' @ format_prefix p"
| "show_match (DaddrIs a) = ''ip daddr '' @ show_ipv4 a"
| "show_match (DaddrSet as) = ''ip daddr '' @ addr_set as"
| "show_match (TcpDport ports ranges) = ''tcp dport { '' @ show_ports ports ranges @ '' }''"
| "show_match CtEstablished = ''ct state established,related''"
| "show_match (IcmpType types) = ''icmp type '' @ braces types"

fun show_statement :: "nft_statement \<Rightarrow> string" where
  "show_statement Accept = ''accept''"
| "show_statement Drop = ''drop''"
| "show_statement Masquerade = ''masquerade''"

fun show_line :: "nft_line \<Rightarrow> string" where
  "show_line (Comment c) = [CHR 0x09, CHR 0x09] @ ''# '' @ c @ [CHR 0x0A]"
| "show_line (Rule (ms, st)) =
    [CHR 0x09, CHR 0x09] @ join '' '' (map show_match ms @ [show_statement st]) @ [CHR 0x0A]"

definition show_chain :: "nft_chain \<Rightarrow> string" where
  "show_chain c =
    [CHR 0x09] @ ''chain '' @ ch_name c @ '' {'' @ [CHR 0x0A] @
    [CHR 0x09, CHR 0x09] @ ''type '' @ ch_hook c @ ''; policy '' @ show_statement (ch_policy c) @ '';'' @ [CHR 0x0A] @
    concat (map show_line (ch_lines c)) @ [CHR 0x09] @ ''}'' @ [CHR 0x0A]"

definition show_table :: "nft_chain list \<Rightarrow> string" where
  "show_table table =
    ''# Bento nftables table. Bento owns every rule here; do not edit by hand (SPEC 6.3).'' @ [CHR 0x0A] @
    ''# The whole table is deleted and redefined in one transaction on every change.'' @ [CHR 0x0A] @
    ''add table inet bento'' @ [CHR 0x0A] @ ''delete table inet bento'' @ [CHR 0x0A] @
    ''table inet bento {'' @ [CHR 0x0A] @ concat (map show_chain table) @ ''}'' @ [CHR 0x0A]"

section \<open>The renderer\<close>

definition safe_interface_name :: "string \<Rightarrow> bool" where
  "safe_interface_name name =
    (1 \<le> length name \<and> length name \<le> 15 \<and>
     list_all (\<lambda>c. is_ascii_alphanumeric c \<or> c = CHR ''_'' \<or> c = CHR ''.'' \<or> c = CHR ''-'') name)"

definition local_prefixes :: "slots \<Rightarrow> ipv4_prefix \<Rightarrow> nat list \<Rightarrow> (net_error, ipv4_prefix list) result" where
  "local_prefixes sl subnet remote =
    (if remote = [] then Inr [masked subnet]
     else try_map (slot_prefix sl subnet) (filter (\<lambda>slot. slot \<notin> set remote) [0..<slot_count sl]))"

definition remote_prefixes :: "slots \<Rightarrow> ipv4_prefix \<Rightarrow> nat list \<Rightarrow> (net_error, ipv4_prefix list) result" where
  "remote_prefixes sl subnet remote = try_map (slot_prefix sl subnet) remote"

definition check_instance :: "ipv4_prefix \<Rightarrow> published_instance \<Rightarrow> (net_error, unit) result" where
  "check_instance subnet i =
    and_then (ensure (contains subnet (pi_address i)) Invalid) (\<lambda>_.
    and_then (ensure (list_all (\<lambda>port. port \<noteq> 0) (pi_http_ports i)) Invalid) (\<lambda>_.
      ensure (list_all (\<lambda>r. \<not> (pr_from r < 1 \<or> pr_from r > pr_to r)) (pi_port_ranges i)) Invalid))"

fun check_users :: "string list \<Rightarrow> firewall_user list \<Rightarrow> (net_error, unit) result" where
  "check_users seen [] = Inr ()"
| "check_users seen (u # us) =
    and_then (ensure (safe_interface_name (un_bridge (fu_network u))) Invalid) (\<lambda>_.
    and_then (ensure (un_bridge (fu_network u) \<notin> set seen) Invalid) (\<lambda>_.
    and_then (require_slash_24 (un_subnet (fu_network u))) (\<lambda>_.
    and_then (try_map (check_instance (un_subnet (fu_network u))) (fu_instances u)) (\<lambda>_.
      check_users (un_bridge (fu_network u) # seen) us))))"

abbreviation bridge_of :: "firewall_user \<Rightarrow> string" where
  "bridge_of u \<equiv> un_bridge (fu_network u)"

abbreviation subnet_of :: "firewall_user \<Rightarrow> ipv4_prefix" where
  "subnet_of u \<equiv> un_subnet (fu_network u)"

definition port_match :: "published_instance \<Rightarrow> nft_match" where
  "port_match i = TcpDport (btree_set (22 # pi_http_ports i)) (btree_set (pi_port_ranges i))"

definition output_lines :: "firewall_user list \<Rightarrow> nft_line list" where
  "output_lines us =
    Comment ''rule 1: host to instance on port 22 and the published HTTP ports'' #
    concat (map (\<lambda>u.
      map (\<lambda>i. Rule ([Oifname (bridge_of u), DaddrIs (pi_address i), port_match i], Accept))
        (fu_instances u) @
      [Rule ([Oifname (bridge_of u)], Drop)]) us)"

definition input_lines :: "firewall_user list \<Rightarrow> nft_line list" where
  "input_lines us =
    Rule ([CtEstablished], Accept) #
    Comment ''rule 8: a guest cannot reach the host's own addresses'' #
    concat (map (\<lambda>u.
      [Rule ([Iifname (bridge_of u), IcmpType [''echo-request'', ''destination-unreachable'', ''time-exceeded'']], Accept),
       Rule ([Iifname (bridge_of u), TcpDport [80, 443] []], Accept),
       Rule ([Iifname (bridge_of u)], Drop)]) us)"

text \<open>The forward chain in the order it is written: the guards (rules 9, 10 and 3), then the
  accepts (rules 6, 7, 4, 2b and 2).\<close>

definition spoof_lines :: "(firewall_user \<times> ipv4_prefix list) list \<Rightarrow> nft_line list" where
  "spoof_lines ul =
    Comment ''rule 9: a guest uses only its own source address'' #
    map (\<lambda>(u, local). Rule ([Iifname (bridge_of u), SaddrNot local], Drop)) ul"

definition management_lines :: "firewall_user list \<Rightarrow> ipv4_addr list \<Rightarrow> nft_line list" where
  "management_lines us management =
    (if management = [] then [] else
      Comment ''rule 10: a guest cannot reach a management address'' #
      map (\<lambda>u. Rule ([Iifname (bridge_of u), DaddrSet management], Drop)) us)"

definition cross_lines :: "firewall_user list \<Rightarrow> nft_line list" where
  "cross_lines us =
    Comment ''rule 3: drop traffic between the bridges of two different users'' #
    concat (map (\<lambda>u. map (\<lambda>other. Rule ([Iifname (bridge_of u), Oifname (bridge_of other)], Drop))
      (filter (\<lambda>other. bridge_of u \<noteq> bridge_of other) us)) us)"

definition underlay_lines ::
  "(firewall_user \<times> ipv4_prefix list \<times> ipv4_prefix list) list \<Rightarrow> nft_line list" where
  "underlay_lines ulf =
    Comment ''rule 6: same user, different machines, arriving over the underlay'' #
    concat (map (\<lambda>(u, local, far).
      if local = [] \<or> far = [] then []
      else [Rule ([IifnameNot (map (bridge_of \<circ> fst) ulf), SaddrIn far, DaddrIn local, Oifname (bridge_of u)], Accept)]) ulf)"

definition frontend_lines :: "firewall_user list \<Rightarrow> ipv4_addr list \<Rightarrow> nft_line list" where
  "frontend_lines us frontends =
    (if frontends = [] then [] else
      Comment ''rule 7: a frontend on another machine reaching an instance'' #
      concat (map (\<lambda>u. concat (map (\<lambda>i. map (\<lambda>frontend.
        Rule ([SaddrIs frontend, Oifname (bridge_of u), DaddrIs (pi_address i), port_match i], Accept))
        frontends) (fu_instances u))) us))"

definition within_lines :: "firewall_user list \<Rightarrow> nft_line list" where
  "within_lines us =
    Comment ''rule 4: permit traffic within a user's bridge'' #
    map (\<lambda>u. Rule ([Iifname (bridge_of u), Oifname (bridge_of u)], Accept)) us"

definition leaving_lines :: "firewall_user list \<Rightarrow> nft_line list" where
  "leaving_lines us =
    Comment ''rule 2b: same user, different machines, leaving over the underlay'' #
    map (\<lambda>u. Rule ([Iifname (bridge_of u), DaddrIn [subnet_of u]], Accept)) us"

definition egress_lines :: "firewall_user list \<Rightarrow> ipv4_prefix \<Rightarrow> nft_line list" where
  "egress_lines us private =
    Comment ''rule 2: permit instance egress to the internet'' #
    map (\<lambda>u. Rule ([Iifname (bridge_of u), DaddrNot (masked private)], Accept)) us"

definition masquerade_lines :: "firewall_user list \<Rightarrow> ipv4_prefix \<Rightarrow> nft_line list" where
  "masquerade_lines us private =
    Comment ''rule 5: masquerade instance egress behind the host address'' #
    map (\<lambda>u. Rule ([SaddrIn [subnet_of u], DaddrNot (masked private)], Masquerade)) us"

definition forward_lines ::
  "ruleset \<Rightarrow> (firewall_user \<times> ipv4_prefix list \<times> ipv4_prefix list) list \<Rightarrow> nft_line list" where
  "forward_lines rs ulf =
    (let us = map fst ulf in
      Rule ([CtEstablished], Accept) #
      spoof_lines (map (\<lambda>(u, local, far). (u, local)) ulf) @
      management_lines us (btree_set (rs_management rs)) @
      cross_lines us @
      (if rs_underlay_peers rs then underlay_lines ulf else []) @
      frontend_lines us (rs_frontends rs) @
      within_lines us @
      (if rs_underlay_peers rs then leaving_lines us else []) @
      egress_lines us (rs_private_range rs))"

text \<open>The local and the far prefixes of one user.  The source computes the far ones only when
  there are underlay peers; every remote slot exists by then, so that call does not fail.\<close>

definition with_prefixes ::
  "slots \<Rightarrow> nat list \<Rightarrow> firewall_user \<Rightarrow> (net_error, firewall_user \<times> ipv4_prefix list \<times> ipv4_prefix list) result" where
  "with_prefixes sl remote u =
    and_then (local_prefixes sl (subnet_of u) remote) (\<lambda>local.
    and_then (remote_prefixes sl (subnet_of u) remote) (\<lambda>far. Inr (u, local, far)))"

definition render_table :: "ruleset \<Rightarrow> (net_error, nft_chain list) result" where
  "render_table rs =
    and_then (ensure (\<not> p_bits (rs_private_range rs) > 32) Invalid) (\<lambda>_.
    and_then (slots_new (rs_runner_prefix rs)) (\<lambda>sl.
    and_then (ensure (list_all (\<lambda>slot. \<not> slot \<ge> slot_count sl) (rs_remote_slots rs)) Invalid) (\<lambda>_.
      let remote = btree_set (rs_remote_slots rs);
          us = sort_key bridge_of (rs_users rs)
      in
        and_then (check_users [] us) (\<lambda>_.
        and_then (try_map (with_prefixes sl remote) us) (\<lambda>ulf.
          Inr
           [\<lparr>ch_name = ''output'', ch_hook = ''filter hook output priority filter'', ch_policy = Accept,
              ch_lines = output_lines us\<rparr>,
            \<lparr>ch_name = ''input'', ch_hook = ''filter hook input priority filter'', ch_policy = Accept,
              ch_lines = input_lines us\<rparr>,
            \<lparr>ch_name = ''forward'', ch_hook = ''filter hook forward priority filter'', ch_policy = Drop,
              ch_lines = forward_lines rs ulf\<rparr>,
            \<lparr>ch_name = ''postrouting'', ch_hook = ''nat hook postrouting priority srcnat'', ch_policy = Accept,
              ch_lines = masquerade_lines us (rs_private_range rs)\<rparr>])))))"

definition render :: "ruleset \<Rightarrow> (net_error, string) result" where
  "render rs = and_then (render_table rs) (\<lambda>table. Inr (show_table table))"

section \<open>What nft makes of a table\<close>

datatype transport = Tcp nat | Icmp string | OtherTransport

record packet =
  pk_iif :: string
  pk_oif :: string
  pk_ipv4 :: bool
  pk_saddr :: ipv4_addr
  pk_daddr :: ipv4_addr
  pk_transport :: transport
  pk_established :: bool

definition in_ports :: "nat list \<Rightarrow> port_range list \<Rightarrow> packet \<Rightarrow> bool" where
  "in_ports ports ranges p =
    (case pk_transport p of
      Tcp port \<Rightarrow> port \<in> set ports \<or> (\<exists>r\<in>set ranges. pr_from r \<le> port \<and> port \<le> pr_to r)
    | _ \<Rightarrow> False)"

fun nft_matches :: "nft_match \<Rightarrow> packet \<Rightarrow> bool" where
  "nft_matches (Iifname b) p = (pk_iif p = b)"
| "nft_matches (IifnameNot bs) p = (pk_iif p \<notin> set bs)"
| "nft_matches (Oifname b) p = (pk_oif p = b)"
| "nft_matches (SaddrIn qs) p = (pk_ipv4 p \<and> (\<exists>q\<in>set qs. contains q (pk_saddr p)))"
| "nft_matches (SaddrNot qs) p = (pk_ipv4 p \<and> \<not> (\<exists>q\<in>set qs. contains q (pk_saddr p)))"
| "nft_matches (SaddrIs a) p = (pk_ipv4 p \<and> pk_saddr p = a)"
| "nft_matches (DaddrIn qs) p = (pk_ipv4 p \<and> (\<exists>q\<in>set qs. contains q (pk_daddr p)))"
| "nft_matches (DaddrNot q) p = (pk_ipv4 p \<and> \<not> contains q (pk_daddr p))"
| "nft_matches (DaddrIs a) p = (pk_ipv4 p \<and> pk_daddr p = a)"
| "nft_matches (DaddrSet as) p = (pk_ipv4 p \<and> pk_daddr p \<in> set as)"
| "nft_matches (TcpDport ports ranges) p = in_ports ports ranges p"
| "nft_matches CtEstablished p = pk_established p"
| "nft_matches (IcmpType types) p =
    (pk_ipv4 p \<and> (case pk_transport p of Icmp t \<Rightarrow> t \<in> set types | _ \<Rightarrow> False))"

fun first_hit :: "nft_line list \<Rightarrow> packet \<Rightarrow> nft_statement option" where
  "first_hit [] p = None"
| "first_hit (Comment c # ls) p = first_hit ls p"
| "first_hit (Rule (ms, st) # ls) p = (if list_all (\<lambda>m. nft_matches m p) ms then Some st else first_hit ls p)"

definition nft_verdict :: "nft_chain list \<Rightarrow> string \<Rightarrow> packet \<Rightarrow> nft_statement" where
  "nft_verdict table name p =
    (case find (\<lambda>c. ch_name c = name) table of
      None \<Rightarrow> Accept
    | Some c \<Rightarrow> (case first_hit (ch_lines c) p of None \<Rightarrow> ch_policy c | Some st \<Rightarrow> st))"

fun set_filled :: "nft_match \<Rightarrow> bool" where
  "set_filled (IifnameNot bs) = (bs \<noteq> [])"
| "set_filled (SaddrIn qs) = (qs \<noteq> [])"
| "set_filled (SaddrNot qs) = (qs \<noteq> [])"
| "set_filled (DaddrIn qs) = (qs \<noteq> [])"
| "set_filled (DaddrSet as) = (as \<noteq> [])"
| "set_filled (TcpDport ports ranges) = (ports \<noteq> [] \<or> ranges \<noteq> [])"
| "set_filled (IcmpType types) = (types \<noteq> [])"
| "set_filled _ = True"

fun line_filled :: "nft_line \<Rightarrow> bool" where
  "line_filled (Comment c) = True"
| "line_filled (Rule (ms, st)) = list_all set_filled ms"

definition sets_filled :: "nft_chain list \<Rightarrow> bool" where
  "sets_filled table = list_all (\<lambda>c. list_all line_filled (ch_lines c)) table"

text \<open>Loading the text of a table gives the decision function of the kernel, or nothing when
  nft refuses the text.\<close>

type_synonym nft_program = "string \<Rightarrow> (string \<Rightarrow> packet \<Rightarrow> nft_statement) option"

definition nft_loads :: "nft_program \<Rightarrow> nft_chain list \<Rightarrow> bool" where
  "nft_loads nft table \<longleftrightarrow> nft (show_table table) = (if sets_filled table then Some (nft_verdict table) else None)"

section \<open>The policy\<close>

text \<open>The slot of an address of a user, with the numbering of the ruleset.\<close>

definition slot_in :: "ruleset \<Rightarrow> firewall_user \<Rightarrow> ipv4_addr \<Rightarrow> nat option" where
  "slot_in rs u a =
    (case slot_of \<lparr>slot_bits = rs_runner_prefix rs\<rparr> (subnet_of u) a of Inl _ \<Rightarrow> None | Inr k \<Rightarrow> Some k)"

definition own_address :: "ruleset \<Rightarrow> firewall_user \<Rightarrow> ipv4_addr \<Rightarrow> bool" where
  "own_address rs u a = (case slot_in rs u a of None \<Rightarrow> False | Some k \<Rightarrow> k \<notin> set (rs_remote_slots rs))"

definition far_address :: "ruleset \<Rightarrow> firewall_user \<Rightarrow> ipv4_addr \<Rightarrow> bool" where
  "far_address rs u a = (case slot_in rs u a of None \<Rightarrow> False | Some k \<Rightarrow> k \<in> set (rs_remote_slots rs))"

definition published :: "published_instance \<Rightarrow> packet \<Rightarrow> bool" where
  "published i p \<longleftrightarrow> pk_ipv4 p \<and> pk_daddr p = pi_address i \<and> in_ports (22 # pi_http_ports i) (pi_port_ranges i) p"

definition bridges :: "ruleset \<Rightarrow> string set" where
  "bridges rs = bridge_of ` set (rs_users rs)"

definition from_guest :: "ruleset \<Rightarrow> firewall_user \<Rightarrow> packet \<Rightarrow> bool" where
  "from_guest rs u p \<longleftrightarrow>
    pk_iif p = bridge_of u \<and>
    (pk_ipv4 p \<longrightarrow> own_address rs u (pk_saddr p) \<and> pk_daddr p \<notin> set (rs_management rs)) \<and>
    (pk_oif p = bridge_of u \<or>
     pk_oif p \<notin> bridges rs \<and> pk_ipv4 p \<and>
       (rs_underlay_peers rs \<and> contains (subnet_of u) (pk_daddr p) \<or> \<not> contains (rs_private_range rs) (pk_daddr p)))"

definition from_outside :: "ruleset \<Rightarrow> firewall_user \<Rightarrow> packet \<Rightarrow> bool" where
  "from_outside rs u p \<longleftrightarrow>
    pk_iif p \<notin> bridges rs \<and> pk_oif p = bridge_of u \<and> pk_ipv4 p \<and>
    (rs_underlay_peers rs \<and> far_address rs u (pk_saddr p) \<and> own_address rs u (pk_daddr p) \<or>
     pk_saddr p \<in> set (rs_frontends rs) \<and> (\<exists>i\<in>set (fu_instances u). published i p))"

definition forward_policy :: "ruleset \<Rightarrow> packet \<Rightarrow> bool" where
  "forward_policy rs p \<longleftrightarrow>
    pk_established p \<or> (\<exists>u\<in>set (rs_users rs). from_guest rs u p \<or> from_outside rs u p)"

definition input_policy :: "ruleset \<Rightarrow> packet \<Rightarrow> bool" where
  "input_policy rs p \<longleftrightarrow>
    pk_established p \<or> pk_iif p \<notin> bridges rs \<or>
    (case pk_transport p of
      Tcp port \<Rightarrow> port = 80 \<or> port = 443
    | Icmp t \<Rightarrow> pk_ipv4 p \<and> t \<in> {''echo-request'', ''destination-unreachable'', ''time-exceeded''}
    | OtherTransport \<Rightarrow> False)"

definition output_policy :: "ruleset \<Rightarrow> packet \<Rightarrow> bool" where
  "output_policy rs p \<longleftrightarrow>
    pk_oif p \<notin> bridges rs \<or>
    (\<exists>u\<in>set (rs_users rs). pk_oif p = bridge_of u \<and> (\<exists>i\<in>set (fu_instances u). published i p))"

definition masquerade_policy :: "ruleset \<Rightarrow> packet \<Rightarrow> bool" where
  "masquerade_policy rs p \<longleftrightarrow>
    pk_ipv4 p \<and> \<not> contains (rs_private_range rs) (pk_daddr p) \<and>
    (\<exists>u\<in>set (rs_users rs). contains (subnet_of u) (pk_saddr p))"

section \<open>Reading an ordered rule list\<close>

definition hits :: "packet \<Rightarrow> nft_line \<Rightarrow> bool" where
  "hits p l = (case l of Comment c \<Rightarrow> False | Rule (ms, st) \<Rightarrow> list_all (\<lambda>m. nft_matches m p) ms)"

definition only_statement :: "nft_statement \<Rightarrow> nft_line list \<Rightarrow> bool" where
  "only_statement st ls = list_all (\<lambda>l. case l of Comment c \<Rightarrow> True | Rule (ms, st') \<Rightarrow> st' = st) ls"

lemma hits_simps [simp]:
  "\<not> hits p (Comment c)"
  "hits p (Rule (ms, st)) = list_all (\<lambda>m. nft_matches m p) ms"
  by (simp_all add: hits_def)

lemma only_statement_simps [simp]:
  "only_statement st []"
  "only_statement st (Comment c # ls) = only_statement st ls"
  "only_statement st (Rule (ms, st') # ls) = (st' = st \<and> only_statement st ls)"
  "only_statement st (xs @ ys) = (only_statement st xs \<and> only_statement st ys)"
  by (simp_all add: only_statement_def)

lemma first_hit_append:
  "first_hit (xs @ ys) p = (case first_hit xs p of None \<Rightarrow> first_hit ys p | Some st \<Rightarrow> Some st)"
  by (induction xs p rule: first_hit.induct) simp_all

lemma first_hit_uniform:
  "only_statement st ls \<Longrightarrow> first_hit ls p = (if \<exists>l\<in>set ls. hits p l then Some st else None)"
  by (induction ls p rule: first_hit.induct) auto

lemma btree_set_set [simp]: "set (btree_set xs) = set xs"
  by (simp add: btree_set_def)

lemma btree_set_Nil [simp]: "btree_set xs = [] \<longleftrightarrow> xs = []"
  by (metis btree_set_set set_empty)

lemma port_match_matches [simp]:
  "nft_matches (port_match i) p = in_ports (22 # pi_http_ports i) (pi_port_ranges i) p"
  by (simp add: port_match_def in_ports_def split: transport.split)

section \<open>Successful rendering\<close>

lemma check_users_Inr:
  assumes "check_users seen us = Inr ()"
  shows "distinct (map bridge_of us)"
    and "set (map bridge_of us) \<inter> set seen = {}"
    and "u \<in> set us \<Longrightarrow> p_bits (subnet_of u) = 24 \<and> safe_interface_name (bridge_of u) \<and>
      (\<forall>i\<in>set (fu_instances u). contains (subnet_of u) (pi_address i))"
proof -
  have "distinct (map bridge_of us) \<and> set (map bridge_of us) \<inter> set seen = {} \<and>
    (\<forall>u\<in>set us. p_bits (subnet_of u) = 24 \<and> safe_interface_name (bridge_of u) \<and>
      (\<forall>i\<in>set (fu_instances u). contains (subnet_of u) (pi_address i)))"
    using assms
  proof (induction seen us rule: check_users.induct)
    case (2 seen u us)
    then have step: "safe_interface_name (bridge_of u)" "bridge_of u \<notin> set seen" "p_bits (subnet_of u) = 24"
      "check_users (bridge_of u # seen) us = Inr ()"
      "is_ok (try_map (check_instance (subnet_of u)) (fu_instances u))"
      by (auto simp: result_simps require_slash_24_def split: sum.splits)
    then obtain ys where "try_map (check_instance (subnet_of u)) (fu_instances u) = Inr ys"
      by (cases "try_map (check_instance (subnet_of u)) (fu_instances u)") auto
    then have "\<forall>i\<in>set (fu_instances u). contains (subnet_of u) (pi_address i)"
      by (auto dest!: try_map_Inr_all simp: check_instance_def result_simps)
    then show ?case using 2 step by auto
  qed simp
  then show "distinct (map bridge_of us)" "set (map bridge_of us) \<inter> set seen = {}"
    "u \<in> set us \<Longrightarrow> p_bits (subnet_of u) = 24 \<and> safe_interface_name (bridge_of u) \<and>
      (\<forall>i\<in>set (fu_instances u). contains (subnet_of u) (pi_address i))"
    by auto
qed
text \<open>The users with the prefixes the renderer computes for them.\<close>

definition prefixed :: "ruleset \<Rightarrow> (firewall_user \<times> ipv4_prefix list \<times> ipv4_prefix list) list \<Rightarrow> bool" where
  "prefixed rs ulf \<longleftrightarrow>
    slots_ok \<lparr>slot_bits = rs_runner_prefix rs\<rparr> \<and>
    map fst ulf = sort_key bridge_of (rs_users rs) \<and>
    (\<forall>(u, local, far)\<in>set ulf.
      (\<forall>a. (\<exists>q\<in>set local. contains q a) \<longleftrightarrow> own_address rs u a) \<and>
      (\<forall>a. (\<exists>q\<in>set far. contains q a) \<longleftrightarrow> far_address rs u a) \<and>
      (local = [] \<longleftrightarrow> {0..<slot_count \<lparr>slot_bits = rs_runner_prefix rs\<rparr>} \<subseteq> set (rs_remote_slots rs)))"

lemma slot_in_None: "slot_in rs u a = None \<longleftrightarrow> \<not> (\<exists>k. slot_of \<lparr>slot_bits = rs_runner_prefix rs\<rparr> (subnet_of u) a = Inr k)"
  by (auto simp: slot_in_def split: sum.splits)

lemma slot_in_Some: "slot_in rs u a = Some k \<longleftrightarrow> slot_of \<lparr>slot_bits = rs_runner_prefix rs\<rparr> (subnet_of u) a = Inr k"
  by (auto simp: slot_in_def split: sum.splits)

lemma slot_prefixes_contain:
  assumes "slots_ok sl" "try_map (slot_prefix sl subnet) ks = Inr qs"
  shows "(\<exists>q\<in>set qs. contains q a) \<longleftrightarrow> (\<exists>k\<in>set ks. slot_of sl subnet a = Inr k)"
proof
  assume "\<exists>q\<in>set qs. contains q a"
  then obtain q where "q \<in> set qs" "contains q a" by blast
  then obtain k where "k \<in> set ks" "slot_prefix sl subnet k = Inr q"
    using try_map_Inr_set [OF assms(2)] by blast
  then show "\<exists>k\<in>set ks. slot_of sl subnet a = Inr k"
    using slot_of_iff_prefix [OF assms(1)] \<open>contains q a\<close> by blast
next
  assume "\<exists>k\<in>set ks. slot_of sl subnet a = Inr k"
  then show "\<exists>q\<in>set qs. contains q a"
    using try_map_Inr_all [OF assms(2)] slot_of_iff_prefix [OF assms(1)] by blast
qed

lemma local_prefixes_own:
  assumes "slots_ok \<lparr>slot_bits = rs_runner_prefix rs\<rparr>" "p_bits (subnet_of u) = 24"
    "local_prefixes \<lparr>slot_bits = rs_runner_prefix rs\<rparr> (subnet_of u) (btree_set (rs_remote_slots rs)) = Inr local"
  shows "(\<exists>q\<in>set local. contains q a) \<longleftrightarrow> own_address rs u a"
proof (cases "rs_remote_slots rs = []")
  case True
  then have "local = [masked (subnet_of u)]" using assms(3) by (simp add: local_prefixes_def)
  moreover have "own_address rs u a \<longleftrightarrow> contains (subnet_of u) a"
    using True assms(2) slot_of_Inr_iff [of "\<lparr>slot_bits = rs_runner_prefix rs\<rparr>" "subnet_of u" a]
    by (auto simp: own_address_def slot_in_None slot_in_Some split: option.splits)
  ultimately show ?thesis by simp
next
  case False
  then have "try_map (slot_prefix \<lparr>slot_bits = rs_runner_prefix rs\<rparr> (subnet_of u))
    (filter (\<lambda>slot. slot \<notin> set (rs_remote_slots rs)) [0..<slot_count \<lparr>slot_bits = rs_runner_prefix rs\<rparr>]) = Inr local"
    using assms(3) by (simp add: local_prefixes_def)
  from slot_prefixes_contain [OF assms(1) this, of a] show ?thesis
    using slot_of_lt [OF assms(1), of "subnet_of u" a]
    by (auto simp: own_address_def slot_in_Some split: option.splits) (auto simp: slot_in_def split: sum.splits)
qed

lemma remote_prefixes_far:
  assumes "slots_ok \<lparr>slot_bits = rs_runner_prefix rs\<rparr>"
    "remote_prefixes \<lparr>slot_bits = rs_runner_prefix rs\<rparr> (subnet_of u) (btree_set (rs_remote_slots rs)) = Inr far"
  shows "(\<exists>q\<in>set far. contains q a) \<longleftrightarrow> far_address rs u a"
  using slot_prefixes_contain [OF assms(1) assms(2) [unfolded remote_prefixes_def], of a]
  by (auto simp: far_address_def slot_in_def split: sum.splits)

lemma local_prefixes_Nil:
  assumes "slots_ok \<lparr>slot_bits = rs_runner_prefix rs\<rparr>"
    "local_prefixes \<lparr>slot_bits = rs_runner_prefix rs\<rparr> (subnet_of u) (btree_set (rs_remote_slots rs)) = Inr local"
  shows "local = [] \<longleftrightarrow> {0..<slot_count \<lparr>slot_bits = rs_runner_prefix rs\<rparr>} \<subseteq> set (rs_remote_slots rs)"
proof (cases "rs_remote_slots rs = []")
  case True
  then show ?thesis using assms(2) by (auto simp: local_prefixes_def slot_count_def)
next
  case False
  then have "list_all2 (\<lambda>x y. slot_prefix \<lparr>slot_bits = rs_runner_prefix rs\<rparr> (subnet_of u) x = Inr y)
    (filter (\<lambda>slot. slot \<notin> set (rs_remote_slots rs)) [0..<slot_count \<lparr>slot_bits = rs_runner_prefix rs\<rparr>]) local"
    using assms(2) by (simp add: local_prefixes_def try_map_Inr_iff)
  then have "local = [] \<longleftrightarrow> filter (\<lambda>slot. slot \<notin> set (rs_remote_slots rs)) [0..<slot_count \<lparr>slot_bits = rs_runner_prefix rs\<rparr>] = []"
    by (metis list_all2_lengthD length_0_conv)
  then show ?thesis by (auto simp: filter_empty_conv)
qed

lemma with_prefixes_fst:
  assumes "try_map (with_prefixes sl remote) us = Inr ulf"
  shows "map fst ulf = us"
  using assms unfolding try_map_Inr_iff
  by (induction rule: list_all2_induct) (auto simp: with_prefixes_def result_simps)

lemma render_table_Inr:
  assumes "render_table rs = Inr table"
  obtains ulf where "prefixed rs ulf"
    "distinct (map bridge_of (rs_users rs))"
    "\<forall>u\<in>set (rs_users rs). p_bits (subnet_of u) = 24 \<and> (\<forall>i\<in>set (fu_instances u). contains (subnet_of u) (pi_address i))"
    "table =
     [\<lparr>ch_name = ''output'', ch_hook = ''filter hook output priority filter'', ch_policy = Accept,
        ch_lines = output_lines (map fst ulf)\<rparr>,
      \<lparr>ch_name = ''input'', ch_hook = ''filter hook input priority filter'', ch_policy = Accept,
        ch_lines = input_lines (map fst ulf)\<rparr>,
      \<lparr>ch_name = ''forward'', ch_hook = ''filter hook forward priority filter'', ch_policy = Drop,
        ch_lines = forward_lines rs ulf\<rparr>,
      \<lparr>ch_name = ''postrouting'', ch_hook = ''nat hook postrouting priority srcnat'', ch_policy = Accept,
        ch_lines = masquerade_lines (map fst ulf) (rs_private_range rs)\<rparr>]"
proof -
  define us where "us = sort_key bridge_of (rs_users rs)"
  define sl where "sl = \<lparr>slot_bits = rs_runner_prefix rs\<rparr>"
  obtain ulf where ulf: "slots_new (rs_runner_prefix rs) = Inr sl" "check_users [] us = Inr ()"
    "try_map (with_prefixes sl (btree_set (rs_remote_slots rs))) us = Inr ulf" and table: "table =
     [\<lparr>ch_name = ''output'', ch_hook = ''filter hook output priority filter'', ch_policy = Accept,
        ch_lines = output_lines us\<rparr>,
      \<lparr>ch_name = ''input'', ch_hook = ''filter hook input priority filter'', ch_policy = Accept,
        ch_lines = input_lines us\<rparr>,
      \<lparr>ch_name = ''forward'', ch_hook = ''filter hook forward priority filter'', ch_policy = Drop,
        ch_lines = forward_lines rs ulf\<rparr>,
      \<lparr>ch_name = ''postrouting'', ch_hook = ''nat hook postrouting priority srcnat'', ch_policy = Accept,
        ch_lines = masquerade_lines us (rs_private_range rs)\<rparr>]"
    using assms by (auto simp: render_table_def result_simps Let_def slots_new_def us_def sl_def split: if_splits)
  have ok: "slots_ok sl" using ulf(1) by (simp add: slots_new_ok)
  have fst: "map fst ulf = us" by (rule with_prefixes_fst [OF ulf(3)])
  have us: "p_bits (subnet_of u) = 24 \<and> (\<forall>i\<in>set (fu_instances u). contains (subnet_of u) (pi_address i))"
    if "u \<in> set (rs_users rs)" for u using check_users_Inr(3) [OF ulf(2), of u] that by (simp add: us_def)
  have each: "with_prefixes sl (btree_set (rs_remote_slots rs)) u = Inr (u, local, far) \<and> u \<in> set (rs_users rs)"
    if "(u, local, far) \<in> set ulf" for u local far
    using try_map_Inr_set [OF ulf(3), of "(u, local, far)"] that by (auto simp: with_prefixes_def result_simps us_def)
  have "prefixed rs ulf" unfolding prefixed_def
  proof (intro conjI ballI, goal_cases)
    case 1 then show ?case using ok by (simp add: sl_def)
  next
    case 2 then show ?case using fst by (simp add: us_def)
  next
    case (3 x)
    obtain u local far where x: "x = (u, local, far)" by (cases x)
    from each [of u local far] 3 x have "u \<in> set (rs_users rs)"
      "local_prefixes sl (subnet_of u) (btree_set (rs_remote_slots rs)) = Inr local"
      "remote_prefixes sl (subnet_of u) (btree_set (rs_remote_slots rs)) = Inr far"
      by (auto simp: with_prefixes_def result_simps)
    then show ?case using x us ok unfolding sl_def
      by (simp add: local_prefixes_own remote_prefixes_far local_prefixes_Nil)
  qed
  moreover have "distinct (map bridge_of (rs_users rs))"
    using check_users_Inr(1) [OF ulf(2)] by (simp add: us_def distinct_map)
  ultimately show thesis using that us table fst by blast
qed

section \<open>The chains decide the policy\<close>

lemma prefixed_users: "prefixed rs ulf \<Longrightarrow> fst ` set ulf = set (rs_users rs)"
  unfolding prefixed_def by (metis set_map set_sort)

lemma prefixed_bridges: "prefixed rs ulf \<Longrightarrow> (bridge_of \<circ> fst) ` set ulf = bridges rs"
  by (metis bridges_def image_comp prefixed_users)

lemma prefixed_ex: "prefixed rs ulf \<Longrightarrow> (\<exists>x\<in>set ulf. P (fst x)) \<longleftrightarrow> (\<exists>u\<in>set (rs_users rs). P u)"
  by (metis (no_types, opaque_lifting) image_iff prefixed_users)

lemma prefixed_at:
  assumes "prefixed rs ulf" "x \<in> set ulf"
  shows "(\<exists>q\<in>set (fst (snd x)). contains q a) \<longleftrightarrow> own_address rs (fst x) a"
    and "(\<exists>q\<in>set (snd (snd x)). contains q a) \<longleftrightarrow> far_address rs (fst x) a"
    and "fst (snd x) = [] \<longleftrightarrow> {0..<slot_count \<lparr>slot_bits = rs_runner_prefix rs\<rparr>} \<subseteq> set (rs_remote_slots rs)"
  using assms by (cases x; fastforce simp: prefixed_def)+

lemmas line_defs = spoof_lines_def management_lines_def cross_lines_def underlay_lines_def
  frontend_lines_def within_lines_def leaving_lines_def egress_lines_def

lemma drop_lines_uniform:
  "only_statement Drop (spoof_lines ul @ management_lines us management @ cross_lines us)"
  by (auto simp: line_defs only_statement_def list_all_iff)

lemma accept_lines_uniform:
  "only_statement Accept ((if b then underlay_lines ulf else []) @ frontend_lines us fs @ within_lines us @
    (if b then leaving_lines us else []) @ egress_lines us q)"
  by (auto simp: line_defs only_statement_def list_all_iff)

lemma forward_lines_decide:
  "(case first_hit (forward_lines rs ulf) p of None \<Rightarrow> Drop | Some st \<Rightarrow> st) =
    (if pk_established p \<or>
       \<not> (\<exists>l\<in>set (spoof_lines (map (\<lambda>(u, local, far). (u, local)) ulf) @
          management_lines (map fst ulf) (btree_set (rs_management rs)) @ cross_lines (map fst ulf)). hits p l) \<and>
       (\<exists>l\<in>set ((if rs_underlay_peers rs then underlay_lines ulf else []) @ frontend_lines (map fst ulf) (rs_frontends rs) @
          within_lines (map fst ulf) @ (if rs_underlay_peers rs then leaving_lines (map fst ulf) else []) @
          egress_lines (map fst ulf) (rs_private_range rs)). hits p l)
     then Accept else Drop)"
proof -
  have "forward_lines rs ulf = Rule ([CtEstablished], Accept) #
    (spoof_lines (map (\<lambda>(u, local, far). (u, local)) ulf) @
      management_lines (map fst ulf) (btree_set (rs_management rs)) @ cross_lines (map fst ulf)) @
    ((if rs_underlay_peers rs then underlay_lines ulf else []) @ frontend_lines (map fst ulf) (rs_frontends rs) @
      within_lines (map fst ulf) @ (if rs_underlay_peers rs then leaving_lines (map fst ulf) else []) @
      egress_lines (map fst ulf) (rs_private_range rs))"
    by (simp only: forward_lines_def Let_def append_assoc append_Cons)
  then show ?thesis
    by (simp only: first_hit.simps first_hit_append [of "_ @ _ @ _"] first_hit_uniform [OF drop_lines_uniform]
        first_hit_uniform [OF accept_lines_uniform]) simp
qed

lemma spoof_hits:
  assumes "prefixed rs ulf"
  shows "(\<exists>l\<in>set (spoof_lines (map (\<lambda>(u, local, far). (u, local)) ulf)). hits p l) \<longleftrightarrow>
    (\<exists>u\<in>set (rs_users rs). pk_iif p = bridge_of u \<and> pk_ipv4 p \<and> \<not> own_address rs u (pk_saddr p))"
proof -
  have "(\<exists>l\<in>set (spoof_lines (map (\<lambda>(u, local, far). (u, local)) ulf)). hits p l) \<longleftrightarrow>
    (\<exists>x\<in>set ulf. pk_iif p = bridge_of (fst x) \<and> pk_ipv4 p \<and> \<not> (\<exists>q\<in>set (fst (snd x)). contains q (pk_saddr p)))"
    by (simp add: spoof_lines_def case_prod_unfold)
  also have "\<dots> \<longleftrightarrow> (\<exists>x\<in>set ulf. pk_iif p = bridge_of (fst x) \<and> pk_ipv4 p \<and> \<not> own_address rs (fst x) (pk_saddr p))"
    by (intro bex_cong refl) (simp add: prefixed_at(1) [OF assms] del: bex_simps)
  also have "\<dots> \<longleftrightarrow> (\<exists>u\<in>set (rs_users rs). pk_iif p = bridge_of u \<and> pk_ipv4 p \<and> \<not> own_address rs u (pk_saddr p))"
    by (rule prefixed_ex [OF assms])
  finally show ?thesis .
qed

lemma management_hits:
  "(\<exists>l\<in>set (management_lines us (btree_set management)). hits p l) \<longleftrightarrow>
    (\<exists>u\<in>set us. pk_iif p = bridge_of u \<and> pk_ipv4 p \<and> pk_daddr p \<in> set management)"
  by (auto simp: management_lines_def)

lemma cross_hits:
  "(\<exists>l\<in>set (cross_lines us). hits p l) \<longleftrightarrow>
    (\<exists>u\<in>set us. pk_iif p = bridge_of u \<and> pk_oif p \<noteq> bridge_of u \<and> pk_oif p \<in> bridge_of ` set us)"
  by (auto simp: cross_lines_def) metis

lemma underlay_hits:
  assumes "prefixed rs ulf"
  shows "(\<exists>l\<in>set (underlay_lines ulf). hits p l) \<longleftrightarrow>
    (\<exists>u\<in>set (rs_users rs). pk_iif p \<notin> bridges rs \<and> pk_oif p = bridge_of u \<and> pk_ipv4 p \<and>
      far_address rs u (pk_saddr p) \<and> own_address rs u (pk_daddr p))"
proof -
  have "(\<exists>l\<in>set (underlay_lines ulf). hits p l) \<longleftrightarrow>
    (\<exists>x\<in>set ulf. pk_iif p \<notin> (bridge_of \<circ> fst) ` set ulf \<and> pk_oif p = bridge_of (fst x) \<and> pk_ipv4 p \<and>
      (\<exists>q\<in>set (snd (snd x)). contains q (pk_saddr p)) \<and> (\<exists>q\<in>set (fst (snd x)). contains q (pk_daddr p)))"
    unfolding underlay_lines_def case_prod_unfold list.set bex_simps(5) bex_concat_map bex_single
    by (simp only: hits_simps simp_thms, intro bex_cong refl) auto
  also have "\<dots> \<longleftrightarrow> (\<exists>x\<in>set ulf. pk_iif p \<notin> bridges rs \<and> pk_oif p = bridge_of (fst x) \<and> pk_ipv4 p \<and>
      far_address rs (fst x) (pk_saddr p) \<and> own_address rs (fst x) (pk_daddr p))"
    by (intro bex_cong refl) (simp only: prefixed_at [OF assms] prefixed_bridges [OF assms])
  also have "\<dots> \<longleftrightarrow> (\<exists>u\<in>set (rs_users rs). pk_iif p \<notin> bridges rs \<and> pk_oif p = bridge_of u \<and> pk_ipv4 p \<and>
      far_address rs u (pk_saddr p) \<and> own_address rs u (pk_daddr p))"
    by (rule prefixed_ex [OF assms])
  finally show ?thesis .
qed

lemma frontend_hits:
  "(\<exists>l\<in>set (frontend_lines us fs). hits p l) \<longleftrightarrow>
    (\<exists>u\<in>set us. pk_oif p = bridge_of u \<and> pk_ipv4 p \<and> pk_saddr p \<in> set fs \<and> (\<exists>i\<in>set (fu_instances u). published i p))"
  by (auto simp: frontend_lines_def published_def)

lemma plain_hits:
  "(\<exists>l\<in>set (within_lines us). hits p l) \<longleftrightarrow> (\<exists>u\<in>set us. pk_iif p = bridge_of u \<and> pk_oif p = bridge_of u)"
  "(\<exists>l\<in>set (leaving_lines us). hits p l) \<longleftrightarrow>
    (\<exists>u\<in>set us. pk_iif p = bridge_of u \<and> pk_ipv4 p \<and> contains (subnet_of u) (pk_daddr p))"
  "(\<exists>l\<in>set (egress_lines us q). hits p l) \<longleftrightarrow>
    (\<exists>u\<in>set us. pk_iif p = bridge_of u \<and> pk_ipv4 p \<and> \<not> contains q (pk_daddr p))"
  by (auto simp: within_lines_def leaving_lines_def egress_lines_def)

text \<open>The guards and the accepts of the forward chain, as conditions on a packet.\<close>

definition guarded :: "ruleset \<Rightarrow> packet \<Rightarrow> bool" where
  "guarded rs p \<longleftrightarrow> (\<exists>u\<in>set (rs_users rs). pk_iif p = bridge_of u \<and>
    (pk_ipv4 p \<and> \<not> own_address rs u (pk_saddr p) \<or> pk_ipv4 p \<and> pk_daddr p \<in> set (rs_management rs) \<or>
     pk_oif p \<noteq> bridge_of u \<and> pk_oif p \<in> bridges rs))"

definition admitted :: "ruleset \<Rightarrow> packet \<Rightarrow> bool" where
  "admitted rs p \<longleftrightarrow> (\<exists>u\<in>set (rs_users rs). from_outside rs u p \<or>
    pk_oif p = bridge_of u \<and> pk_iif p \<in> bridges rs \<and> pk_ipv4 p \<and> pk_saddr p \<in> set (rs_frontends rs) \<and>
      (\<exists>i\<in>set (fu_instances u). published i p) \<or>
    pk_iif p = bridge_of u \<and> (pk_oif p = bridge_of u \<or>
      pk_ipv4 p \<and> (rs_underlay_peers rs \<and> contains (subnet_of u) (pk_daddr p) \<or>
        \<not> contains (rs_private_range rs) (pk_daddr p))))"

lemma guards_hit:
  assumes "prefixed rs ulf"
  shows "(\<exists>l\<in>set (spoof_lines (map (\<lambda>(u, local, far). (u, local)) ulf) @
      management_lines (map fst ulf) (btree_set (rs_management rs)) @ cross_lines (map fst ulf)). hits p l) \<longleftrightarrow>
    guarded rs p"
proof -
  have users: "set (map fst ulf) = set (rs_users rs)" using prefixed_users [OF assms] by simp
  show ?thesis
    unfolding set_append bex_Un spoof_hits [OF assms] management_hits cross_hits users guarded_def bridges_def
    by (simp only: conj_disj_distribL bex_disj_distrib)
qed

lemma accepts_hit:
  assumes "prefixed rs ulf"
  shows "(\<exists>l\<in>set ((if rs_underlay_peers rs then underlay_lines ulf else []) @
      frontend_lines (map fst ulf) (rs_frontends rs) @ within_lines (map fst ulf) @
      (if rs_underlay_peers rs then leaving_lines (map fst ulf) else []) @
      egress_lines (map fst ulf) (rs_private_range rs)). hits p l) \<longleftrightarrow> admitted rs p"
    (is "?L \<longleftrightarrow> _")
proof -
  have users: "set (map fst ulf) = set (rs_users rs)" using prefixed_users [OF assms] by simp
  have "?L \<longleftrightarrow> rs_underlay_peers rs \<and> (\<exists>l\<in>set (underlay_lines ulf). hits p l) \<or>
      (\<exists>l\<in>set (frontend_lines (map fst ulf) (rs_frontends rs)). hits p l) \<or>
      (\<exists>l\<in>set (within_lines (map fst ulf)). hits p l) \<or>
      rs_underlay_peers rs \<and> (\<exists>l\<in>set (leaving_lines (map fst ulf)). hits p l) \<or>
      (\<exists>l\<in>set (egress_lines (map fst ulf) (rs_private_range rs)). hits p l)"
    unfolding set_append bex_Un by (cases "rs_underlay_peers rs") simp_all
  also have "\<dots> \<longleftrightarrow> admitted rs p"
    unfolding underlay_hits [OF assms] frontend_hits plain_hits users admitted_def from_outside_def
    by blast
  finally show ?thesis .
qed

lemma unique_bridge:
  assumes "distinct (map bridge_of (rs_users rs))" "u \<in> set (rs_users rs)" "v \<in> set (rs_users rs)"
    "bridge_of u = bridge_of v"
  shows "u = v"
  using assms by (simp add: distinct_map inj_on_def)

lemma policy_cases:
  assumes "distinct (map bridge_of (rs_users rs))"
  shows "\<not> guarded rs p \<and> admitted rs p \<longleftrightarrow> (\<exists>u\<in>set (rs_users rs). from_guest rs u p \<or> from_outside rs u p)"
proof (cases "pk_iif p \<in> bridges rs")
  case False
  then have iif: "\<And>u. u \<in> set (rs_users rs) \<Longrightarrow> pk_iif p \<noteq> bridge_of u" by (auto simp: bridges_def)
  then have "\<not> guarded rs p" by (auto simp: guarded_def)
  then show ?thesis using False iif by (auto simp: from_guest_def admitted_def)
next
  case True
  then obtain u where u: "u \<in> set (rs_users rs)" "pk_iif p = bridge_of u" by (auto simp: bridges_def)
  then have one: "v = u" if "v \<in> set (rs_users rs)" "pk_iif p = bridge_of v" for v
    using unique_bridge [OF assms] that by metis
  have out: "\<not> from_outside rs v p" for v using True by (simp add: from_outside_def)
  have P: "(\<exists>u\<in>set (rs_users rs). from_guest rs u p \<or> from_outside rs u p) \<longleftrightarrow> from_guest rs u p"
    using u one by (metis from_guest_def out)
  have D: "guarded rs p \<longleftrightarrow> pk_ipv4 p \<and> \<not> own_address rs u (pk_saddr p) \<or> pk_ipv4 p \<and> pk_daddr p \<in> set (rs_management rs) \<or>
      pk_oif p \<noteq> bridge_of u \<and> pk_oif p \<in> bridges rs"
    unfolding guarded_def by (rule bex_unique [where u = u and Q = "\<lambda>v. pk_iif p = bridge_of v", OF u one])
  show ?thesis
  proof (cases "pk_oif p \<in> bridges rs")
    case False
    then have "\<And>v. v \<in> set (rs_users rs) \<Longrightarrow> pk_oif p \<noteq> bridge_of v" by (auto simp: bridges_def)
    then have "admitted rs p \<longleftrightarrow> (\<exists>v\<in>set (rs_users rs). pk_iif p = bridge_of v \<and>
        (pk_ipv4 p \<and> (rs_underlay_peers rs \<and> contains (subnet_of v) (pk_daddr p) \<or>
        \<not> contains (rs_private_range rs) (pk_daddr p))))"
      unfolding admitted_def by (intro bex_cong refl) (simp add: out)
    also have "\<dots> \<longleftrightarrow> pk_ipv4 p \<and> (rs_underlay_peers rs \<and> contains (subnet_of u) (pk_daddr p) \<or>
        \<not> contains (rs_private_range rs) (pk_daddr p))"
      by (rule bex_unique [where u = u and Q = "\<lambda>v. pk_iif p = bridge_of v", OF u one])
    finally have "admitted rs p \<longleftrightarrow> \<dots>" .
    then show ?thesis unfolding P D using u False by (auto simp: from_guest_def bridges_def)
  next
    case oif: True
    have "pk_oif p = bridge_of u \<Longrightarrow> admitted rs p" unfolding admitted_def using u by metis
    then show ?thesis unfolding P D using u oif by (auto simp: from_guest_def)
  qed
qed

lemma forward_decides:
  assumes "prefixed rs ulf" "distinct (map bridge_of (rs_users rs))"
  shows "(case first_hit (forward_lines rs ulf) p of None \<Rightarrow> Drop | Some st \<Rightarrow> st) =
    (if forward_policy rs p then Accept else Drop)"
  unfolding forward_lines_decide guards_hit [OF assms(1)] accepts_hit [OF assms(1)] policy_cases [OF assms(2)]
    forward_policy_def by simp

lemma first_hit_none_keyed:
  assumes "\<forall>u\<in>set us. k \<noteq> b u \<longrightarrow> first_hit (f u) p = None" "k \<notin> b ` set us"
  shows "first_hit (concat (map f us)) p = None"
  using assms by (induction us) (auto simp: first_hit_append)

lemma first_hit_keyed:
  assumes "\<forall>u\<in>set us. k \<noteq> b u \<longrightarrow> first_hit (f u) p = None" "distinct (map b us)" "u \<in> set us" "k = b u"
  shows "first_hit (concat (map f us)) p = first_hit (f u) p"
  using assms
proof (induction us)
  case (Cons v us)
  show ?case
  proof (cases "u = v")
    case True
    then have "first_hit (concat (map f us)) p = None"
      using Cons.prems by (intro first_hit_none_keyed [where k = k and b = b]) auto
    then show ?thesis using True by (simp add: first_hit_append split: option.splits)
  next
    case False
    then have "k \<noteq> b v" using Cons.prems by (metis distinct.simps(2) image_eqI list.set_map list.simps(9) set_ConsD)
    then show ?thesis using Cons False by (simp add: first_hit_append)
  qed
qed simp

lemma output_user_hit:
  "first_hit (map (\<lambda>i. Rule ([Oifname (bridge_of u), DaddrIs (pi_address i), port_match i], Accept)) (fu_instances u) @
      [Rule ([Oifname (bridge_of u)], Drop)]) p =
    (if pk_oif p = bridge_of u then Some (if \<exists>i\<in>set (fu_instances u). published i p then Accept else Drop) else None)"
proof -
  have "only_statement Accept (map (\<lambda>i. Rule ([Oifname (bridge_of u), DaddrIs (pi_address i), port_match i], Accept)) (fu_instances u))"
    by (simp add: only_statement_def list_all_iff)
  from first_hit_uniform [OF this, of p] show ?thesis by (auto simp: first_hit_append published_def)
qed

lemma output_decides:
  assumes "map fst ulf = sort_key bridge_of (rs_users rs)" "distinct (map bridge_of (rs_users rs))"
  shows "(case first_hit (output_lines (map fst ulf)) p of None \<Rightarrow> Accept | Some st \<Rightarrow> st) =
    (if output_policy rs p then Accept else Drop)"
proof -
  let ?f = "\<lambda>u. map (\<lambda>i. Rule ([Oifname (bridge_of u), DaddrIs (pi_address i), port_match i], Accept)) (fu_instances u) @
      [Rule ([Oifname (bridge_of u)], Drop)]"
  have us: "set (map fst ulf) = set (rs_users rs)" "distinct (map bridge_of (map fst ulf))"
    using assms by (simp_all add: distinct_map)
  have other: "\<forall>u\<in>set (map fst ulf). pk_oif p \<noteq> bridge_of u \<longrightarrow> first_hit (?f u) p = None"
    by (simp add: output_user_hit)
  have hit: "first_hit (output_lines (map fst ulf)) p = first_hit (concat (map ?f (map fst ulf))) p"
    by (simp add: output_lines_def)
  show ?thesis
  proof (cases "pk_oif p \<in> bridges rs")
    case False
    then have "first_hit (concat (map ?f (map fst ulf))) p = None"
      by (intro first_hit_none_keyed [OF other]) (simp add: bridges_def flip: us(1))
    then show ?thesis using False hit by (simp add: output_policy_def)
  next
    case True
    then obtain u where u: "u \<in> set (rs_users rs)" "pk_oif p = bridge_of u" by (auto simp: bridges_def)
    then have "first_hit (concat (map ?f (map fst ulf))) p = first_hit (?f u) p"
      using us by (intro first_hit_keyed [OF other]) auto
    moreover have "output_policy rs p \<longleftrightarrow> (\<exists>i\<in>set (fu_instances u). published i p)"
    proof -
      have "v = u" if "v \<in> set (rs_users rs)" "pk_oif p = bridge_of v" for v
        using unique_bridge [OF assms(2) that(1) u(1)] that(2) u(2) by simp
      from bex_unique [where u = u and Q = "\<lambda>v. pk_oif p = bridge_of v", OF u this]
      show ?thesis using True by (simp add: output_policy_def)
    qed
    ultimately show ?thesis using u(2) hit by (simp add: output_user_hit)
  qed
qed

lemma input_decides:
  assumes "map fst ulf = sort_key bridge_of (rs_users rs)" "distinct (map bridge_of (rs_users rs))"
  shows "(case first_hit (input_lines (map fst ulf)) p of None \<Rightarrow> Accept | Some st \<Rightarrow> st) =
    (if input_policy rs p then Accept else Drop)"
proof -
  let ?f = "\<lambda>u. [Rule ([Iifname (bridge_of u), IcmpType [''echo-request'', ''destination-unreachable'', ''time-exceeded'']], Accept),
       Rule ([Iifname (bridge_of u), TcpDport [80, 443] []], Accept),
       Rule ([Iifname (bridge_of u)], Drop)]"
  have us: "set (map fst ulf) = set (rs_users rs)" "distinct (map bridge_of (map fst ulf))"
    using assms by (simp_all add: distinct_map)
  have other: "\<forall>u\<in>set (map fst ulf). pk_iif p \<noteq> bridge_of u \<longrightarrow> first_hit (?f u) p = None"
    by simp
  have hit: "first_hit (input_lines (map fst ulf)) p =
      (if pk_established p then Some Accept else first_hit (concat (map ?f (map fst ulf))) p)"
    by (simp add: input_lines_def)
  show ?thesis
  proof (cases "pk_iif p \<in> bridges rs")
    case False
    then have "first_hit (concat (map ?f (map fst ulf))) p = None"
      by (intro first_hit_none_keyed [OF other]) (simp add: bridges_def flip: us(1))
    then show ?thesis using False hit by (simp add: input_policy_def)
  next
    case True
    then obtain u where u: "u \<in> set (rs_users rs)" "pk_iif p = bridge_of u" by (auto simp: bridges_def)
    then have "first_hit (concat (map ?f (map fst ulf))) p = first_hit (?f u) p"
      using us by (intro first_hit_keyed [OF other]) auto
    then have "first_hit (input_lines (map fst ulf)) p = (if pk_established p then Some Accept else first_hit (?f u) p)"
      by (simp only: hit)
    then show ?thesis using True u(2)
      by (cases "pk_transport p") (simp_all add: input_policy_def in_ports_def)
  qed
qed

lemma masquerade_hits:
  "(\<exists>l\<in>set (masquerade_lines us q). hits p l) \<longleftrightarrow>
    (\<exists>u\<in>set us. pk_ipv4 p \<and> contains (subnet_of u) (pk_saddr p) \<and> \<not> contains q (pk_daddr p))"
  by (auto simp: masquerade_lines_def)

lemma masquerade_decides:
  assumes "map fst ulf = sort_key bridge_of (rs_users rs)"
  shows "(case first_hit (masquerade_lines (map fst ulf) (rs_private_range rs)) p of None \<Rightarrow> Accept | Some st \<Rightarrow> st) =
    (if masquerade_policy rs p then Masquerade else Accept)"
proof -
  have us: "set (map fst ulf) = set (rs_users rs)" using assms by simp
  have "only_statement Masquerade (masquerade_lines (map fst ulf) (rs_private_range rs))"
    by (simp add: only_statement_def list_all_iff masquerade_lines_def)
  moreover have "(\<exists>l\<in>set (masquerade_lines (map fst ulf) (rs_private_range rs)). hits p l) \<longleftrightarrow> masquerade_policy rs p"
    unfolding masquerade_hits us by (auto simp: masquerade_policy_def)
  ultimately show ?thesis by (simp add: first_hit_uniform)
qed

definition owns_slot :: "ruleset \<Rightarrow> bool" where
  "owns_slot rs \<longleftrightarrow> (\<exists>k\<in>{0..<slot_count \<lparr>slot_bits = rs_runner_prefix rs\<rparr>}. k \<notin> set (rs_remote_slots rs))"

lemma port_match_filled [simp]: "set_filled (port_match i)"
  by (simp add: port_match_def)

lemma filled_lines:
  "list_all line_filled (output_lines us)"
  "list_all line_filled (input_lines us)"
  "list_all line_filled (masquerade_lines us q)"
  "list_all line_filled (management_lines us (btree_set management))"
  "list_all line_filled (cross_lines us)"
  "list_all line_filled (underlay_lines ulf)"
  "list_all line_filled (frontend_lines us fs)"
  "list_all line_filled (within_lines us)"
  "list_all line_filled (leaving_lines us)"
  "list_all line_filled (egress_lines us q)"
  by (auto simp: list_all_iff output_lines_def input_lines_def masquerade_lines_def line_defs)

lemma sets_filled_iff:
  assumes "render_table rs = Inr table"
  shows "sets_filled table \<longleftrightarrow> rs_users rs = [] \<or> owns_slot rs"
proof -
  obtain ulf where ulf: "prefixed rs ulf" and table: "map (ch_lines) table =
      [output_lines (map fst ulf), input_lines (map fst ulf), forward_lines rs ulf,
       masquerade_lines (map fst ulf) (rs_private_range rs)]"
    by (rule render_table_Inr [OF assms]) simp
  have empty: "ulf = [] \<longleftrightarrow> rs_users rs = []" using prefixed_users [OF ulf] by (metis image_is_empty set_empty)
  have "sets_filled table \<longleftrightarrow> (\<forall>ls\<in>set (map ch_lines table). list_all line_filled ls)"
    by (simp add: sets_filled_def list_all_iff)
  also have "\<dots> \<longleftrightarrow> list_all line_filled (forward_lines rs ulf)"
    unfolding table by (simp add: filled_lines)
  also have "\<dots> \<longleftrightarrow> (\<forall>x\<in>set ulf. fst (snd x) \<noteq> [])"
    by (simp add: forward_lines_def Let_def filled_lines) (auto simp: list_all_iff spoof_lines_def)
  also have "\<dots> \<longleftrightarrow> rs_users rs = [] \<or> owns_slot rs"
  proof -
    have "fst (snd x) \<noteq> [] \<longleftrightarrow> owns_slot rs" if "x \<in> set ulf" for x
      unfolding prefixed_at(3) [OF ulf that] owns_slot_def subset_iff by blast
    then have "(\<forall>x\<in>set ulf. fst (snd x) \<noteq> []) \<longleftrightarrow> (\<forall>x\<in>set ulf. owns_slot rs)"
      by (intro ball_cong refl)
    also have "\<dots> \<longleftrightarrow> ulf = [] \<or> owns_slot rs" by (metis list.set_intros(1) list.set(1) empty_iff neq_Nil_conv)
    finally show ?thesis unfolding empty [symmetric] .
  qed
  finally show ?thesis .
qed

lemma rendered_verdicts:
  assumes "render_table rs = Inr table"
  shows "nft_verdict table ''forward'' p = (if forward_policy rs p then Accept else Drop)"
    and "nft_verdict table ''input'' p = (if input_policy rs p then Accept else Drop)"
    and "nft_verdict table ''output'' p = (if output_policy rs p then Accept else Drop)"
    and "nft_verdict table ''postrouting'' p = (if masquerade_policy rs p then Masquerade else Accept)"
proof -
  obtain ulf where ulf: "prefixed rs ulf" "distinct (map bridge_of (rs_users rs))" and table: "table =
     [\<lparr>ch_name = ''output'', ch_hook = ''filter hook output priority filter'', ch_policy = Accept,
        ch_lines = output_lines (map fst ulf)\<rparr>,
      \<lparr>ch_name = ''input'', ch_hook = ''filter hook input priority filter'', ch_policy = Accept,
        ch_lines = input_lines (map fst ulf)\<rparr>,
      \<lparr>ch_name = ''forward'', ch_hook = ''filter hook forward priority filter'', ch_policy = Drop,
        ch_lines = forward_lines rs ulf\<rparr>,
      \<lparr>ch_name = ''postrouting'', ch_hook = ''nat hook postrouting priority srcnat'', ch_policy = Accept,
        ch_lines = masquerade_lines (map fst ulf) (rs_private_range rs)\<rparr>]"
    by (rule render_table_Inr [OF assms])
  have fst: "map fst ulf = sort_key bridge_of (rs_users rs)" using ulf(1) by (simp add: prefixed_def)
  show "nft_verdict table ''forward'' p = (if forward_policy rs p then Accept else Drop)"
    using forward_decides [OF ulf, of p] by (simp add: nft_verdict_def table cong: option.case_cong)
  show "nft_verdict table ''input'' p = (if input_policy rs p then Accept else Drop)"
    using input_decides [OF fst ulf(2), of p] by (simp add: nft_verdict_def table cong: option.case_cong)
  show "nft_verdict table ''output'' p = (if output_policy rs p then Accept else Drop)"
    using output_decides [OF fst ulf(2), of p] by (simp add: nft_verdict_def table cong: option.case_cong)
  show "nft_verdict table ''postrouting'' p = (if masquerade_policy rs p then Masquerade else Accept)"
    using masquerade_decides [OF fst, of p] by (simp add: nft_verdict_def table cong: option.case_cong)
qed

lemma render_Inr: "render rs = Inr text \<longleftrightarrow> (\<exists>table. render_table rs = Inr table \<and> text = show_table table)"
  by (auto simp: render_def result_simps)

text \<open>Inputs that \<open>render\<close> accepts.\<close>

definition instance_ok :: "ipv4_prefix \<Rightarrow> published_instance \<Rightarrow> bool" where
  "instance_ok subnet i \<longleftrightarrow> contains subnet (pi_address i) \<and> 0 \<notin> set (pi_http_ports i) \<and>
    list_all (\<lambda>r. 1 \<le> pr_from r \<and> pr_from r \<le> pr_to r) (pi_port_ranges i)"

definition user_ok :: "firewall_user \<Rightarrow> bool" where
  "user_ok u \<longleftrightarrow> safe_interface_name (bridge_of u) \<and> p_bits (subnet_of u) = 24 \<and>
    list_all (instance_ok (subnet_of u)) (fu_instances u)"

definition ruleset_ok :: "ruleset \<Rightarrow> bool" where
  "ruleset_ok rs \<longleftrightarrow> p_bits (rs_private_range rs) \<le> 32 \<and> slots_ok \<lparr>slot_bits = rs_runner_prefix rs\<rparr> \<and>
    list_all (\<lambda>k. k < slot_count \<lparr>slot_bits = rs_runner_prefix rs\<rparr>) (rs_remote_slots rs) \<and>
    distinct (map bridge_of (rs_users rs)) \<and> list_all user_ok (rs_users rs)"

lemma check_users_total:
  "list_all user_ok us \<Longrightarrow> distinct (map bridge_of us) \<Longrightarrow> bridge_of ` set us \<inter> set seen = {} \<Longrightarrow> check_users seen us = Inr ()"
proof (induction seen us rule: check_users.induct)
  case (2 seen u us)
  have "is_ok (try_map (check_instance (subnet_of u)) (fu_instances u))"
    using "2.prems"(1) by (intro try_map_total) (auto simp: user_ok_def instance_ok_def check_instance_def list_all_iff is_ok_iff
        result_simps Suc_le_eq not_less intro: gr0I)
  then obtain ys where "try_map (check_instance (subnet_of u)) (fu_instances u) = Inr ys" by (auto simp: is_ok_iff)
  then show ?case using 2 by (simp add: user_ok_def require_slash_24_def)
qed simp

lemma with_prefixes_total:
  assumes "p_bits (subnet_of u) = 24" "\<forall>k\<in>set remote. k < slot_count sl"
  shows "is_ok (with_prefixes sl remote u)"
proof -
  have "is_ok (try_map (slot_prefix sl (subnet_of u)) ks)" if "\<forall>k\<in>set ks. k < slot_count sl" for ks
    using that slot_prefix_total [OF assms(1)] by (intro try_map_total) (auto simp: is_ok_iff)
  from this [of remote] this [of "filter (\<lambda>slot. slot \<notin> set remote) [0..<slot_count sl]"] show ?thesis
    using assms(2) by (auto simp: with_prefixes_def local_prefixes_def remote_prefixes_def is_ok_iff)
qed

lemma render_total:
  assumes "ruleset_ok rs"
  shows "\<exists>t. render rs = Inr t"
proof -
  have "check_users [] (sort_key bridge_of (rs_users rs)) = Inr ()"
    using assms by (intro check_users_total) (auto simp: ruleset_ok_def list_all_iff distinct_map)
  moreover have "is_ok (try_map (with_prefixes \<lparr>slot_bits = rs_runner_prefix rs\<rparr> (btree_set (rs_remote_slots rs)))
      (sort_key bridge_of (rs_users rs)))"
    using assms by (intro try_map_total ballI with_prefixes_total) (auto simp: ruleset_ok_def user_ok_def list_all_iff)
  ultimately have "is_ok (render_table rs)"
    using assms slots_new_ok [of "rs_runner_prefix rs" "\<lparr>slot_bits = rs_runner_prefix rs\<rparr>"]
    by (auto simp: render_table_def ruleset_ok_def is_ok_iff list_all_iff not_le Let_def)
  then show ?thesis by (auto simp: render_Inr is_ok_iff)
qed

definition nft_obeys :: "nft_program \<Rightarrow> ruleset \<Rightarrow> bool" where
  "nft_obeys nft rs \<longleftrightarrow> (\<forall>table. render_table rs = Inr table \<longrightarrow> nft_loads nft table)"

section \<open>Properties\<close>

text \<open>Two users on a machine that owns slot 0 of two, with a frontend elsewhere.\<close>

definition sample_user :: "string \<Rightarrow> ipv4_addr \<Rightarrow> firewall_user" where
  "sample_user bridge base =
    \<lparr>fu_network = \<lparr>un_name = ''bento-user'', un_bridge = bridge, un_subnet = \<lparr>p_addr = base, p_bits = 24\<rparr>\<rparr>,
     fu_instances = [\<lparr>pi_address = base + 2, pi_http_ports = [80], pi_port_ranges = [PortRange 3000 9999]\<rparr>]\<rparr>"

definition sample_ruleset :: "nat list \<Rightarrow> ruleset" where
  "sample_ruleset remote =
    \<lparr>rs_private_range = \<lparr>p_addr = 0x0a4d0000, p_bits = 16\<rparr>,
     rs_users = [sample_user ''bento2'' 0x0a4d0200, sample_user ''bento1'' 0x0a4d0100],
     rs_underlay_peers = True, rs_frontends = [0x0a0000bc], rs_runner_prefix = 25,
     rs_remote_slots = remote, rs_management = [0x0a00000a]\<rparr>"

definition sample_nft :: "ruleset \<Rightarrow> nft_program" where
  "sample_nft rs text =
    (case render_table rs of
      Inl _ \<Rightarrow> None
    | Inr table \<Rightarrow> if sets_filled table then Some (nft_verdict table) else None)"

lemma sample_nft_obeys: "nft_obeys (sample_nft rs) rs"
  by (simp add: nft_obeys_def nft_loads_def sample_nft_def)

lemma sample_user_ok: "user_ok (sample_user ''bento2'' 0x0a4d0200)" "user_ok (sample_user ''bento1'' 0x0a4d0100)"
proof -
  have "contains \<lparr>p_addr = 0x0a4d0200, p_bits = 24\<rparr> 0x0a4d0202" "contains \<lparr>p_addr = 0x0a4d0100, p_bits = 24\<rparr> 0x0a4d0102"
    by code_simp+
  then show "user_ok (sample_user ''bento2'' 0x0a4d0200)" "user_ok (sample_user ''bento1'' 0x0a4d0100)"
    by (simp_all add: user_ok_def sample_user_def instance_ok_def safe_interface_name_def is_ascii_alphanumeric_def)
qed

lemma sample_ruleset_ok: "ruleset_ok (sample_ruleset [1])" "ruleset_ok (sample_ruleset [0, 1])"
  using sample_user_ok
  by (simp_all add: ruleset_ok_def sample_ruleset_def slots_ok_def slot_consts slot_count_def) (simp_all add: sample_user_def)

definition sample_packet :: "string \<Rightarrow> string \<Rightarrow> ipv4_addr \<Rightarrow> ipv4_addr \<Rightarrow> packet" where
  "sample_packet iif oif src dst =
    \<lparr>pk_iif = iif, pk_oif = oif, pk_ipv4 = True, pk_saddr = src, pk_daddr = dst,
     pk_transport = Tcp 80, pk_established = False\<rparr>"

lemma sample_slots:
  "slot_of \<lparr>slot_bits = 25\<rparr> \<lparr>p_addr = 0x0a4d0100, p_bits = 24\<rparr> 0x0a4d0102 = Inr 0"
  "slot_of \<lparr>slot_bits = 25\<rparr> \<lparr>p_addr = 0x0a4d0100, p_bits = 24\<rparr> 0x0a4d0182 = Inr 1"
  "\<not> contains \<lparr>p_addr = 0x0a4d0000, p_bits = 16\<rparr> 0x08080808"
  by code_simp+

lemmas sample_policy_eval = sample_slots forward_policy_def from_guest_def from_outside_def own_address_def
  far_address_def slot_in_def bridges_def sample_ruleset_def sample_user_def sample_packet_def


end
