(* ===== verification/Net_Subnet.thy ===== *)
theory Net_Subnet
  imports Net_Slots
begin

text \<open>
  The subnet plan and the two allocators, \<open>crates/network/src/subnet.rs\<close>.

  \<open>plan\<close> carves the private range into user \<open>/24\<close> subnets; \<open>plan_allocate\<close>
  and \<open>allocate_address\<close> return the lowest free subnet and the lowest free
  address of a slot.  The traits \<open>SubnetStore\<close> and \<open>AddressStore\<close> are the
  argument \<open>used\<close>: the answer of the store, which may be an error.
\<close>

section \<open>Definitions\<close>

record plan =
  plan_prefix :: ipv4_prefix

definition from_prefix :: "ipv4_prefix \<Rightarrow> (net_error, plan) result" where
  "from_prefix p = (if p_bits p > 24 then Inl Invalid else Inr \<lparr>plan_prefix = masked p\<rparr>)"

definition plan_new :: "string \<Rightarrow> (net_error, plan) result" where
  "plan_new private_range = and_then (ok_or Invalid (parse_prefix private_range)) from_prefix"

definition plan_range :: "plan \<Rightarrow> ipv4_prefix" where
  "plan_range pl = plan_prefix pl"

definition subnets :: "plan \<Rightarrow> nat" where
  "subnets pl = 2 ^ (24 - p_bits (plan_prefix pl))"

definition plan_subnet :: "plan \<Rightarrow> int \<Rightarrow> (net_error, ipv4_prefix) result" where
  "plan_subnet pl index =
    (if index < 0 \<or> nat index \<ge> subnets pl then Inl Invalid
     else let base = p_addr (plan_prefix pl) in
       Inr \<lparr>p_addr = base + push_bit 8 (of_nat (nat index)), p_bits = 24\<rparr>)"

definition plan_index :: "plan \<Rightarrow> ipv4_prefix \<Rightarrow> (net_error, nat) result" where
  "plan_index pl subnet =
    (if p_bits subnet \<noteq> 24 then Inl Invalid
     else let subnet = masked subnet in
       if \<not> contains (plan_prefix pl) (p_addr subnet) then Inl Invalid
       else Inr (unat (drop_bit 8 (p_addr subnet - p_addr (plan_prefix pl)))))"

definition plan_allocate :: "plan \<Rightarrow> (unit, ipv4_prefix list) result \<Rightarrow> (net_error, ipv4_prefix) result" where
  "plan_allocate pl used =
    (case used of
       Inl _ \<Rightarrow> Inl ListUsedSubnets
     | Inr used \<Rightarrow>
        let taken = List.map_filter (\<lambda>p. to_ok (plan_index pl p)) used in
        (case find (\<lambda>index. index \<notin> set taken) [0..<subnets pl] of
           Some index \<Rightarrow> plan_subnet pl (int index)
         | None \<Rightarrow> Inl SubnetsExhausted))"

definition allocate_address ::
  "(ipv4_prefix \<Rightarrow> (unit, ipv4_addr list) result) \<Rightarrow> ipv4_prefix \<Rightarrow> slots \<Rightarrow> nat
    \<Rightarrow> (net_error, ipv4_addr) result" where
  "allocate_address used_addresses subnet s slot =
    and_then (require_slash_24 subnet) (\<lambda>_.
    and_then (assignable s slot) (\<lambda>(low, high).
      case used_addresses subnet of
        Inl _ \<Rightarrow> Inl ListUsedAddresses
      | Inr used \<Rightarrow>
         let base = p_addr (masked subnet) in
         (case find (\<lambda>host. base + of_nat host \<notin> set used) [low..<high + 1] of
            Some host \<Rightarrow> Inr (base + of_nat host)
          | None \<Rightarrow> Inl AddressesExhausted)))"

definition gateway :: "ipv4_prefix \<Rightarrow> ipv4_addr" where
  "gateway subnet = p_addr (masked subnet) + of_nat GATEWAY_HOST"

record 'ip guest_network =
  gn_address :: ipv4_prefix
  gn_gateway :: ipv4_addr
  gn_dns :: "'ip list"

definition guest_network_new ::
  "'ip list \<Rightarrow> ipv4_prefix \<Rightarrow> ipv4_addr \<Rightarrow> 'ip list option \<Rightarrow> (net_error, 'ip guest_network) result" where
  "guest_network_new default_dns subnet a dns =
    and_then (require_slash_24 subnet) (\<lambda>_.
    and_then (ensure (contains subnet a) Invalid) (\<lambda>_.
      Inr \<lparr>gn_address = \<lparr>p_addr = a, p_bits = 24\<rparr>, gn_gateway = gateway subnet,
           gn_dns = (case dns of None \<Rightarrow> default_dns | Some d \<Rightarrow> d)\<rparr>))"

text \<open>The invariant of a plan: what \<open>from_prefix\<close> establishes.\<close>

definition plan_ok :: "plan \<Rightarrow> bool" where
  "plan_ok pl \<longleftrightarrow> p_bits (plan_prefix pl) \<le> 24 \<and> masked (plan_prefix pl) = plan_prefix pl"

section \<open>The plan\<close>

lemma from_prefix_ok: "from_prefix p = Inr pl \<Longrightarrow> plan_ok pl"
  by (auto simp: from_prefix_def plan_ok_def split: if_splits)

lemma plan_width:
  assumes "p_bits (plan_prefix pl) \<le> 24"
  shows "2 ^ (32 - p_bits (plan_prefix pl)) = subnets pl * (256::nat)"
proof -
  have "32 - p_bits (plan_prefix pl) = (24 - p_bits (plan_prefix pl)) + 8" using assms by simp
  then have "2 ^ (32 - p_bits (plan_prefix pl)) = 2 ^ (24 - p_bits (plan_prefix pl)) * (2::nat) ^ 8"
    by (simp only: power_add)
  then show ?thesis by (simp only: subnets_def) simp
qed

lemma plan_base:
  assumes "plan_ok pl"
  obtains q where "unat (p_addr (plan_prefix pl)) = q * (subnets pl * 256)"
    "q * (subnets pl * 256) + subnets pl * 256 \<le> 2 ^ 32"
proof -
  let ?b = "p_bits (plan_prefix pl)"
  define q where "q = unat (p_addr (plan_prefix pl)) div 2 ^ (32 - ?b)"
  have b: "?b \<le> 24" and m: "masked (plan_prefix pl) = plan_prefix pl"
    using assms by (auto simp: plan_ok_def)
  have w: "2 ^ (32 - ?b) = subnets pl * (256::nat)" using b by (rule plan_width)
  have base: "unat (p_addr (plan_prefix pl)) = q * (subnets pl * 256)"
    unfolding q_def w [symmetric] by (rule unat_masked [of "plan_prefix pl", unfolded m]) (use b in simp)
  have full: "2 ^ ?b * 2 ^ (32 - ?b) = (2::nat) ^ 32"
    unfolding power_add [symmetric] using b by simp
  have "unat (p_addr (plan_prefix pl)) < 2 ^ 32" using unsigned_less [of "p_addr (plan_prefix pl)"] by simp
  then have "q < 2 ^ ?b" unfolding q_def full [symmetric] by (rule less_mult_imp_div_less)
  then have "Suc q * 2 ^ (32 - ?b) \<le> 2 ^ ?b * 2 ^ (32 - ?b)" by (intro mult_le_mono1) simp
  then have "q * (subnets pl * 256) + subnets pl * 256 \<le> 2 ^ 32"
    unfolding full by (simp only: w mult_Suc add.commute)
  with base show thesis by (rule that)
qed

lemma plan_subnet_unat:
  assumes "plan_ok pl" "i < subnets pl"
  shows "unat (p_addr (plan_prefix pl) + push_bit 8 (of_nat i)) =
    unat (p_addr (plan_prefix pl)) + i * 256"
proof -
  obtain q where q: "unat (p_addr (plan_prefix pl)) = q * (subnets pl * 256)"
      and le: "q * (subnets pl * 256) + subnets pl * 256 \<le> 2 ^ 32"
    using plan_base [OF assms(1)] .
  have "i * 256 < subnets pl * 256" using assms(2) by simp
  then have lt: "unat (p_addr (plan_prefix pl)) + i * 256 < 2 ^ 32" using q le by linarith
  have "push_bit 8 (of_nat i) = (of_nat (i * 256) :: ipv4_addr)" by (simp add: push_bit_eq_mult)
  then show ?thesis using lt by (simp only: unat_word_ariths unat_of_nat) simp
qed

lemma plan_subnet_InrD:
  assumes "plan_ok pl" "plan_subnet pl i = Inr p"
  shows "0 \<le> i" "nat i < subnets pl" "p_bits p = 24"
    "unat (p_addr p) = unat (p_addr (plan_prefix pl)) + nat i * 256"
  using assms plan_subnet_unat [OF assms(1), of "nat i"]
  by (auto simp: plan_subnet_def Let_def split: if_splits)

lemma plan_contains_iff:
  assumes "plan_ok pl"
  shows "contains (plan_prefix pl) a \<longleftrightarrow>
    (\<exists>i < subnets pl. unat a div 256 = unat (p_addr (plan_prefix pl)) div 256 + i)"
proof -
  let ?b = "p_bits (plan_prefix pl)"
  obtain q where q: "unat (p_addr (plan_prefix pl)) = q * (subnets pl * 256)"
    using plan_base [OF assms] .
  have b: "?b \<le> 24" using assms by (simp add: plan_ok_def)
  then have w: "2 ^ (32 - ?b) = subnets pl * (256::nat)" by (rule plan_width)
  have pos: "0 < subnets pl" by (simp add: subnets_def)
  have "contains (plan_prefix pl) a \<longleftrightarrow> unat a div 256 div subnets pl = q"
    using b pos by (simp add: contains_iff w q div_mult2_eq mult.commute [of _ 256])
  also have "\<dots> \<longleftrightarrow> (\<exists>i < subnets pl. unat a div 256 = q * subnets pl + i)"
  proof
    assume "unat a div 256 div subnets pl = q"
    then have "unat a div 256 = q * subnets pl + unat a div 256 mod subnets pl"
      by (metis div_mult_mod_eq)
    then show "\<exists>i < subnets pl. unat a div 256 = q * subnets pl + i" using pos by (meson mod_less_divisor)
  qed (use pos in auto)
  also have "q * subnets pl = unat (p_addr (plan_prefix pl)) div 256"
    by (simp add: q)
  finally show ?thesis .
qed

lemma plan_index_Inr_iff:
  assumes "plan_ok pl"
  shows "plan_index pl p = Inr i \<longleftrightarrow>
    p_bits p = 24 \<and> i < subnets pl \<and>
    unat (p_addr p) div 256 = unat (p_addr (plan_prefix pl)) div 256 + i"
proof (cases "p_bits p = 24 \<and> contains (plan_prefix pl) (p_addr (masked p))")
  case True
  let ?base = "p_addr (plan_prefix pl)"
  have m: "unat (p_addr (masked p)) = unat (p_addr p) div 256 * 256" using True slash_24_split by blast
  obtain k where k: "k < subnets pl" "unat (p_addr p) div 256 = unat ?base div 256 + k"
    using True m unfolding plan_contains_iff [OF assms] by auto
  obtain q where "unat ?base = q * (subnets pl * 256)" using plan_base [OF assms] .
  then have "unat ?base div 256 * 256 = unat ?base" by simp
  then have "unat (p_addr (masked p)) = unat ?base + k * 256" using m k by (simp add: algebra_simps)
  then have "unat (p_addr (masked p) - ?base) = k * 256"
    by (simp add: unat_sub word_le_nat_alt)
  then have "unat (drop_bit 8 (p_addr (masked p) - ?base)) = k"
    by (simp only: unat_drop_bit_eq) (simp add: drop_bit_eq_div)
  then show ?thesis using True k by (auto simp: plan_index_def Let_def)
next
  case False
  then show ?thesis
    using slash_24_split [of p] by (auto simp: plan_index_def Let_def plan_contains_iff [OF assms])
qed

lemma plan_index_subnet:
  assumes "plan_ok pl" "plan_subnet pl i = Inr p"
  shows "plan_index pl p = Inr (nat i)"
  using plan_subnet_InrD [OF assms] by (simp add: plan_index_Inr_iff [OF assms(1)])

lemma plan_subnet_of_index:
  assumes "plan_ok pl" "plan_index pl p = Inr i"
  shows "plan_subnet pl (int i) = Inr (masked p)"
proof -
  have i: "p_bits p = 24" "i < subnets pl"
      "unat (p_addr p) div 256 = unat (p_addr (plan_prefix pl)) div 256 + i"
    using assms by (auto simp: plan_index_Inr_iff)
  obtain q where "unat (p_addr (plan_prefix pl)) = q * (subnets pl * 256)"
    using plan_base [OF assms(1)] .
  then have "unat (p_addr (plan_prefix pl)) div 256 * 256 = unat (p_addr (plan_prefix pl))" by simp
  then have "unat (p_addr (plan_prefix pl) + push_bit 8 (of_nat i)) = unat (p_addr (masked p))"
    using i by (simp add: plan_subnet_unat [OF assms(1)] slash_24_split algebra_simps)
  then have "p_addr (plan_prefix pl) + push_bit 8 (of_nat i) = p_addr (masked p)"
    by (simp only: word_unat_eq_iff)
  then show ?thesis using i by (simp add: plan_subnet_def masked_def)
qed

lemma slash_24_disjoint:
  assumes "p_bits p = 24" "p_bits q = 24" "contains p a" "contains q a"
  shows "masked p = masked q"
proof -
  have "unat (p_addr p) div 256 = unat (p_addr q) div 256" using assms by (simp add: contains_24)
  then have "unat (p_addr (masked p)) = unat (p_addr (masked q))"
    using assms by (simp add: slash_24_split)
  then show ?thesis using assms by (simp add: word_unat_eq_iff masked_def)
qed

lemma plan_index_masked_eq:
  assumes "plan_ok pl" "plan_index pl p = Inr i" "plan_index pl q = Inr j"
  shows "i = j \<longleftrightarrow> masked p = masked q"
  using plan_subnet_of_index [OF assms(1,2)] plan_subnet_of_index [OF assms(1,3)]
    plan_index_subnet [OF assms(1)]
  by (metis Inr_inject nat_int)

lemma plan_allocate_InrD:
  assumes "plan_ok pl" "plan_allocate pl (Inr used) = Inr p"
  obtains i where "i < subnets pl" "plan_subnet pl (int i) = Inr p"
    "\<And>u. u \<in> set used \<Longrightarrow> plan_index pl u \<noteq> Inr i"
    "\<And>j. j < i \<Longrightarrow> \<exists>u \<in> set used. plan_index pl u = Inr j"
proof -
  let ?taken = "List.map_filter (\<lambda>p. to_ok (plan_index pl p)) used"
  have taken: "j \<in> set ?taken \<longleftrightarrow> (\<exists>u \<in> set used. plan_index pl u = Inr j)" for j
    by simp
  obtain i where i: "find (\<lambda>index. index \<notin> set ?taken) [0..<subnets pl] = Some i"
      and p: "plan_subnet pl (int i) = Inr p"
    using assms(2) by (auto simp: plan_allocate_def Let_def split: option.splits)
  show thesis
    using find_upt_SomeD [OF i] p taken by (intro that [of i]) auto
qed

lemma plan_allocate_InlD:
  assumes "plan_ok pl" "plan_allocate pl (Inr used) = Inl e"
  shows "e = SubnetsExhausted" "i < subnets pl \<Longrightarrow> \<exists>u \<in> set used. plan_index pl u = Inr i"
proof -
  let ?taken = "List.map_filter (\<lambda>p. to_ok (plan_index pl p)) used"
  have taken: "j \<in> set ?taken \<longleftrightarrow> (\<exists>u \<in> set used. plan_index pl u = Inr j)" for j
    by simp
  have "find (\<lambda>index. index \<notin> set ?taken) [0..<subnets pl] = None \<and> e = SubnetsExhausted"
    using assms(2) find_upt_SomeD(2)
    by (fastforce simp: plan_allocate_def Let_def plan_subnet_def split: option.splits if_splits)
  then show "e = SubnetsExhausted" "i < subnets pl \<Longrightarrow> \<exists>u \<in> set used. plan_index pl u = Inr i"
    by (auto simp: find_upt_None_iff taken)
qed

section \<open>Addresses\<close>

lemma allocate_address_InrD:
  assumes "allocate_address ua subnet s slot = Inr a"
  obtains low high used h where "p_bits subnet = 24" "assignable s slot = Inr (low, high)"
    "ua subnet = Inr used" "low \<le> h" "h \<le> high" "a = p_addr (masked subnet) + of_nat h"
    "a \<notin> set used"
    "\<And>j. low \<le> j \<Longrightarrow> j < h \<Longrightarrow> p_addr (masked subnet) + of_nat j \<in> set used"
proof -
  obtain low high where *: "p_bits subnet = 24" "assignable s slot = Inr (low, high)"
    using assms by (auto simp: allocate_address_def require_slash_24_def result_simps)
  then obtain used where ua: "ua subnet = Inr used"
    using assms by (cases "ua subnet") (auto simp: allocate_address_def require_slash_24_def)
  obtain h where f: "find (\<lambda>host. p_addr (masked subnet) + of_nat host \<notin> set used) [low..<high + 1] = Some h"
      and a: "a = p_addr (masked subnet) + of_nat h"
    using assms * ua
    by (auto simp: allocate_address_def require_slash_24_def Let_def simp del: upt_Suc split: option.splits)
  show thesis using find_upt_SomeD [OF f] * ua a by (intro that [of low high used h]) auto
qed

lemma assignable_bounds:
  assumes "slots_ok s" "assignable s slot = Inr (low, high)"
  shows "slot * 2 ^ shift s < low" "high < slot * 2 ^ shift s + 2 ^ shift s - 1" "2 \<le> low" "high \<le> 254"
  using assms width_ge [OF assms(1)] by (auto simp: assignable_Inr_iff)

lemma host_in_slot:
  assumes "slots_ok s" "p_bits subnet = 24" "assignable s slot = Inr (low, high)" "low \<le> h" "h \<le> high"
  shows "contains subnet (p_addr (masked subnet) + of_nat h)"
    "slot_of s subnet (p_addr (masked subnet) + of_nat h) = Inr slot"
proof -
  note b = assignable_bounds [OF assms(1,3)]
  have h: "h < 256" using assms(5) b(4) by simp
  note u = unat_host_add [OF assms(2) h]
  show c: "contains subnet (p_addr (masked subnet) + of_nat h)"
    using h by (simp add: contains_24 [OF assms(2)] u)
  have "h div 2 ^ shift s = slot"
    using b(1,2) assms(4,5) by (intro div_nat_eqI) (auto simp: algebra_simps)
  then show "slot_of s subnet (p_addr (masked subnet) + of_nat h) = Inr slot"
    using c h assms(2) by (simp add: slot_of_Inr_iff u)
qed

lemma host_add_inj:
  assumes "p_bits subnet = 24" "h < 256" "k < 256"
  shows "p_addr (masked subnet) + of_nat h = p_addr (masked subnet) + of_nat k \<longleftrightarrow> h = k"
  using unat_host_add [OF assms(1,2)] unat_host_add [OF assms(1,3)] by (metis add_left_imp_eq)

lemma contained_host:
  assumes "p_bits subnet = 24" "contains subnet a"
  shows "a = p_addr (masked subnet) + of_nat (unat a mod 256)"
proof -
  have "unat (p_addr (masked subnet) + of_nat (unat a mod 256)) = unat a"
    using assms div_mult_mod_eq [of "unat a" 256] by (simp add: unat_host_add contains_24)
  then show ?thesis by (simp only: word_unat_eq_iff)
qed

lemma slot_prefix_host:
  assumes "slots_ok s" "slot_prefix s subnet slot = Inr p" "h < 256"
  shows "contains p (p_addr (masked subnet) + of_nat h) \<longleftrightarrow>
    slot * 2 ^ shift s \<le> h \<and> h < slot * 2 ^ shift s + 2 ^ shift s"
proof -
  have b: "p_bits subnet = 24" using slot_prefix_InrD(1) [OF assms(1,2)] .
  have "contains p (p_addr (masked subnet) + of_nat h) \<longleftrightarrow> h div 2 ^ shift s = slot"
    using b assms(3) by (auto simp: slot_of_iff_prefix [OF assms(1,2)] slot_of_Inr_iff contains_24 unat_host_add)
  then show ?thesis by (simp only: div_eq_interval zero_less_power zero_less_numeral)
qed

lemma slot_prefix_ends:
  assumes "slots_ok s" "slot_prefix s subnet slot = Inr p"
  shows "p_addr p = p_addr (masked subnet) + of_nat (slot * 2 ^ shift s)"
    "p_addr p + of_nat (2 ^ (32 - p_bits p) - 1) =
      p_addr (masked subnet) + of_nat (slot * 2 ^ shift s + (2 ^ shift s - 1))"
proof -
  show first: "p_addr p = p_addr (masked subnet) + of_nat (slot * 2 ^ shift s)"
    using assms(2) by (auto simp: slot_prefix_def result_simps push_bit_eq_mult Let_def)
  have "32 - p_bits p = shift s"
    using slot_prefix_InrD(3) [OF assms] shift_bits [OF assms(1)] by simp
  then show "p_addr p + of_nat (2 ^ (32 - p_bits p) - 1) =
      p_addr (masked subnet) + of_nat (slot * 2 ^ shift s + (2 ^ shift s - 1))"
    unfolding first by (simp only: of_nat_add add.assoc)
qed

lemma assignable_hosts:
  assumes "slots_ok s" "assignable s slot = Inr (low, high)"
  shows "low \<le> h \<and> h \<le> high \<longleftrightarrow>
    slot * 2 ^ shift s \<le> h \<and> h < slot * 2 ^ shift s + 2 ^ shift s \<and> h \<noteq> 1 \<and>
    h \<noteq> slot * 2 ^ shift s \<and> h \<noteq> slot * 2 ^ shift s + (2 ^ shift s - 1)"
proof -
  have "slot < slot_count s" using assms(2) by (simp add: assignable_Inr_iff)
  note le = slot_end_le [OF assms(1) this] width_ge [OF assms(1)]
  show ?thesis
    using assms(2) le by (cases "slot = 0") (auto simp: assignable_Inr_iff)
qed

lemma assignable_excludes:
  assumes "slots_ok s" "p_bits subnet = 24" "slot_prefix s subnet slot = Inr p"
    "assignable s slot = Inr (low, high)"
  shows "(\<exists>h. low \<le> h \<and> h \<le> high \<and> a = p_addr (masked subnet) + of_nat h) \<longleftrightarrow>
    contains p a \<and> a \<noteq> gateway subnet \<and> a \<noteq> p_addr p \<and> a \<noteq> p_addr p + of_nat (2 ^ (32 - p_bits p) - 1)"
    (is "?range \<longleftrightarrow> ?good")
proof -
  let ?base = "p_addr (masked subnet)"
  note ends = slot_prefix_ends [OF assms(1,3)]
  note le = slot_end_le [OF assms(1) slot_prefix_InrD(2) [OF assms(1,3)]] width_ge [OF assms(1)]
  have hosts: "low \<le> h \<and> h \<le> high \<longleftrightarrow> contains p (?base + of_nat h) \<and> ?base + of_nat h \<noteq> gateway subnet \<and>
      ?base + of_nat h \<noteq> p_addr p \<and> ?base + of_nat h \<noteq> p_addr p + of_nat (2 ^ (32 - p_bits p) - 1)"
    if "h < 256" for h
  proof -
    have "?base + of_nat h = gateway subnet \<longleftrightarrow> h = 1"
      unfolding gateway_def GATEWAY_HOST_def using that by (simp only: host_add_inj [OF assms(2)])
    moreover have "?base + of_nat h = p_addr p \<longleftrightarrow> h = slot * 2 ^ shift s"
      unfolding ends(1) using that le by (simp only: host_add_inj [OF assms(2)])
    moreover have "?base + of_nat h = p_addr p + of_nat (2 ^ (32 - p_bits p) - 1) \<longleftrightarrow>
        h = slot * 2 ^ shift s + (2 ^ shift s - 1)"
      unfolding ends(2) using that le by (simp only: host_add_inj [OF assms(2)])
    ultimately show ?thesis
      using slot_prefix_host [OF assms(1,3) that] assignable_hosts [OF assms(1,4)] by metis
  qed
  show ?thesis
  proof
    assume ?range
    then obtain h where "low \<le> h \<and> h \<le> high" "a = ?base + of_nat h" by blast
    then show ?good using hosts [of h] assignable_bounds(4) [OF assms(1,4)] by simp
  next
    assume g: ?good
    then have "contains subnet a"
      using slot_of_iff_prefix [OF assms(1,3)] by (auto simp: slot_of_Inr_iff)
    then have a: "a = ?base + of_nat (unat a mod 256)" using contained_host assms(2) by blast
    then show ?range using g hosts [of "unat a mod 256"] by fastforce
  qed
qed

section \<open>Properties\<close>

text \<open>C37. The allocator's range of a slot is exact: the host numbers \<open>assignable\<close>
  returns are precisely the addresses of the slot's routed prefix that are not the
  gateway, the first or the last address of that prefix, and \<open>slot_capacity\<close>
  counts them; every slot has at least 29.\<close>

theorem assignable_exact:
  assumes "slots_new b = Inr s" "slot_prefix s subnet slot = Inr p"
  shows "\<exists>low high. assignable s slot = Inr (low, high) \<and>
    slot_capacity s slot = Inr (card {low..high}) \<and> 29 \<le> card {low..high} \<and>
    (\<forall>a. (\<exists>h. low \<le> h \<and> h \<le> high \<and> a = p_addr (masked subnet) + of_nat h) \<longleftrightarrow>
      contains p a \<and> a \<noteq> gateway subnet \<and> a \<noteq> p_addr p \<and>
      a \<noteq> p_addr p + of_nat (2 ^ (32 - p_bits p) - 1))"
proof -
  have s: "slots_ok s" using assms(1) by (simp add: slots_new_ok)
  note p = slot_prefix_InrD [OF s assms(2)]
  obtain low high where lh: "assignable s slot = Inr (low, high)"
    using p(2) by (simp add: assignable_def check_slot_def Let_def)
  have "29 \<le> high + 1 - low"
    using lh slot_end_le [OF s p(2)] width_ge [OF s] by (cases "slot = 0") (auto simp: assignable_Inr_iff)
  then show ?thesis
    using lh assignable_excludes [OF s p(1) assms(2) lh] by (auto simp: slot_capacity_def)
qed

theorem assignable_exact_witness:
  "slot_prefix \<lparr>slot_bits = 25\<rparr> \<lparr>p_addr = 0x0A640100, p_bits = 24\<rparr> 1 =
     Inr \<lparr>p_addr = 0x0A640180, p_bits = 25\<rparr> \<and>
   (\<exists>low high. assignable \<lparr>slot_bits = 25\<rparr> 1 = Inr (low, high) \<and> 29 \<le> card {low..high})"
proof -
  have new: "slots_new 25 = Inr \<lparr>slot_bits = 25\<rparr>" by (simp add: slots_new_def slot_consts)
  have p: "slot_prefix \<lparr>slot_bits = 25\<rparr> \<lparr>p_addr = 0x0A640100, p_bits = 24\<rparr> 1 =
     Inr \<lparr>p_addr = 0x0A640180, p_bits = 25\<rparr>" by code_simp
  show ?thesis using p assignable_exact [OF new p] by blast
qed

text \<open>C38. The mapping between subnet indices and subnets of the private range is a
  bijection: every index in range has a subnet whose index is that index, every
  index out of range is refused, and the subnet of the index of a \<open>/24\<close> is that
  \<open>/24\<close> with its host bits cleared.\<close>

theorem plan_index_roundtrip:
  assumes "from_prefix rng = Inr pl"
  shows "((\<exists>p. plan_subnet pl i = Inr p \<and> plan_index pl p = Inr (nat i)) \<longleftrightarrow> 0 \<le> i \<and> nat i < subnets pl) \<and>
    (plan_index pl q = Inr k \<longrightarrow> plan_subnet pl (int k) = Inr (masked q))"
  using plan_index_subnet [OF from_prefix_ok [OF assms]] plan_subnet_of_index [OF from_prefix_ok [OF assms]]
  by (auto simp: plan_subnet_def Let_def)

theorem plan_index_roundtrip_witness:
  "from_prefix \<lparr>p_addr = 0x0A4D0309, p_bits = 16\<rparr> = Inr \<lparr>plan_prefix = \<lparr>p_addr = 0x0A4D0000, p_bits = 16\<rparr>\<rparr> \<and>
   (\<exists>p. plan_subnet \<lparr>plan_prefix = \<lparr>p_addr = 0x0A4D0000, p_bits = 16\<rparr>\<rparr> 42 = Inr p \<and>
      plan_index \<lparr>plan_prefix = \<lparr>p_addr = 0x0A4D0000, p_bits = 16\<rparr>\<rparr> p = Inr 42)"
proof -
  have new: "from_prefix \<lparr>p_addr = 0x0A4D0309, p_bits = 16\<rparr> =
      Inr \<lparr>plan_prefix = \<lparr>p_addr = 0x0A4D0000, p_bits = 16\<rparr>\<rparr>" by code_simp
  show ?thesis using new plan_index_roundtrip [OF new, of 42] by (simp add: subnets_def)
qed

text \<open>C25. The subnet allocator returns the lowest free \<open>/24\<close> of the private range: the
  result lies in the range, shares no address with any used \<open>/24\<close>, and every lower
  \<open>/24\<close> of the range is in use.  It fails only when every \<open>/24\<close> of the range is in use.\<close>

theorem plan_allocate_lowest_free:
  assumes "from_prefix rng = Inr pl"
  shows "case plan_allocate pl (Inr used) of
      Inr p \<Rightarrow> \<exists>i. plan_subnet pl (int i) = Inr p \<and> plan_index pl p = Inr i \<and>
        (\<forall>u \<in> set used. p_bits u = 24 \<longrightarrow> (\<forall>a. \<not> (contains u a \<and> contains p a))) \<and>
        (\<forall>j < i. \<exists>u \<in> set used. plan_index pl u = Inr j)
    | Inl e \<Rightarrow> e = SubnetsExhausted \<and> (\<forall>j < subnets pl. \<exists>u \<in> set used. plan_index pl u = Inr j)"
proof (cases "plan_allocate pl (Inr used)")
  case (Inl e)
  then show ?thesis using plan_allocate_InlD [OF from_prefix_ok [OF assms] Inl] by simp
next
  case (Inr p)
  have pl: "plan_ok pl" using assms by (rule from_prefix_ok)
  obtain i where i: "plan_subnet pl (int i) = Inr p" "\<And>u. u \<in> set used \<Longrightarrow> plan_index pl u \<noteq> Inr i"
      "\<And>j. j < i \<Longrightarrow> \<exists>u \<in> set used. plan_index pl u = Inr j"
    using plan_allocate_InrD [OF pl Inr] by metis
  have index: "plan_index pl p = Inr i" using plan_index_subnet [OF pl i(1)] by simp
  have p: "p_bits p = 24" using plan_subnet_InrD(3) [OF pl i(1)] .
  have "\<not> (contains u a \<and> contains p a)" if u: "u \<in> set used" "p_bits u = 24" for u a
  proof
    assume "contains u a \<and> contains p a"
    then have "unat (p_addr u) div 256 = unat (p_addr p) div 256"
      using u(2) p by (simp add: contains_24)
    then have "plan_index pl u = Inr i" using index u(2) by (simp add: plan_index_Inr_iff [OF pl])
    then show False using i(2) u(1) by blast
  qed
  then show ?thesis using Inr i index by auto
qed

theorem plan_allocate_lowest_free_witness:
  "from_prefix \<lparr>p_addr = 0x0A4D0000, p_bits = 22\<rparr> = Inr \<lparr>plan_prefix = \<lparr>p_addr = 0x0A4D0000, p_bits = 22\<rparr>\<rparr> \<and>
   plan_allocate \<lparr>plan_prefix = \<lparr>p_addr = 0x0A4D0000, p_bits = 22\<rparr>\<rparr>
     (Inr [\<lparr>p_addr = 0x0A4D0000, p_bits = 24\<rparr>, \<lparr>p_addr = 0x0A4D0200, p_bits = 24\<rparr>]) =
     Inr \<lparr>p_addr = 0x0A4D0100, p_bits = 24\<rparr> \<and>
   (\<forall>a. \<not> (contains \<lparr>p_addr = 0x0A4D0000, p_bits = 24\<rparr> a \<and> contains \<lparr>p_addr = 0x0A4D0100, p_bits = 24\<rparr> a))"
proof -
  have new: "from_prefix \<lparr>p_addr = 0x0A4D0000, p_bits = 22\<rparr> =
      Inr \<lparr>plan_prefix = \<lparr>p_addr = 0x0A4D0000, p_bits = 22\<rparr>\<rparr>" by code_simp
  have got: "plan_allocate \<lparr>plan_prefix = \<lparr>p_addr = 0x0A4D0000, p_bits = 22\<rparr>\<rparr>
     (Inr [\<lparr>p_addr = 0x0A4D0000, p_bits = 24\<rparr>, \<lparr>p_addr = 0x0A4D0200, p_bits = 24\<rparr>]) =
     Inr \<lparr>p_addr = 0x0A4D0100, p_bits = 24\<rparr>" by code_simp
  show ?thesis
    using new got plan_allocate_lowest_free
      [OF new, of "[\<lparr>p_addr = 0x0A4D0000, p_bits = 24\<rparr>, \<lparr>p_addr = 0x0A4D0200, p_bits = 24\<rparr>]"] by auto
qed

text \<open>C23. The address allocator returns the lowest free address of a slot: the address
  is in the user subnet, in the requested slot, is neither the gateway nor an end of
  the slot's prefix, is not in use, and every lower assignable address is in use.
  \<open>AddressesExhausted\<close> is returned only when every assignable address is in use.\<close>

theorem allocate_address_lowest_free:
  assumes "slots_new b = Inr s" "slot_prefix s subnet slot = Inr p" "used_addresses subnet = Inr used"
  shows "case allocate_address used_addresses subnet s slot of
      Inr a \<Rightarrow> a \<notin> set used \<and> contains subnet a \<and> slot_of s subnet a = Inr slot \<and>
        a \<noteq> gateway subnet \<and> a \<noteq> p_addr p \<and> a \<noteq> p_addr p + of_nat (2 ^ (32 - p_bits p) - 1) \<and>
        (\<exists>low high h. assignable s slot = Inr (low, high) \<and> low \<le> h \<and> h \<le> high \<and>
          a = p_addr (masked subnet) + of_nat h \<and>
          (\<forall>j. low \<le> j \<and> j < h \<longrightarrow> p_addr (masked subnet) + of_nat j \<in> set used))
    | Inl e \<Rightarrow> e = AddressesExhausted \<and>
        (\<exists>low high. assignable s slot = Inr (low, high) \<and>
          (\<forall>j. low \<le> j \<and> j \<le> high \<longrightarrow> p_addr (masked subnet) + of_nat j \<in> set used))"
proof (cases "allocate_address used_addresses subnet s slot")
  case (Inl e)
  have s: "slots_ok s" using assms(1) by (simp add: slots_new_ok)
  note p = slot_prefix_InrD [OF s assms(2)]
  obtain low high where lh: "assignable s slot = Inr (low, high)"
    using p(2) by (simp add: assignable_def check_slot_def Let_def)
  have "e = AddressesExhausted \<and>
      find (\<lambda>host. p_addr (masked subnet) + of_nat host \<notin> set used) [low..<high + 1] = None"
    using Inl p(1) lh assms(3)
    by (auto simp: allocate_address_def require_slash_24_def Let_def simp del: upt_Suc split: option.splits)
  then have "e = AddressesExhausted \<and>
      (\<forall>j. low \<le> j \<and> j \<le> high \<longrightarrow> p_addr (masked subnet) + of_nat j \<in> set used)"
    unfolding find_upt_None_iff by auto
  then show ?thesis using Inl lh by auto
next
  case (Inr a)
  have s: "slots_ok s" using assms(1) by (simp add: slots_new_ok)
  obtain low high used' h where a: "p_bits subnet = 24" "assignable s slot = Inr (low, high)"
      "used_addresses subnet = Inr used'" "low \<le> h" "h \<le> high" "a = p_addr (masked subnet) + of_nat h" "a \<notin> set used'"
      "\<And>j. low \<le> j \<Longrightarrow> j < h \<Longrightarrow> p_addr (masked subnet) + of_nat j \<in> set used'"
    by (rule allocate_address_InrD [OF Inr]) blast
  have u: "used' = used" using a(3) assms(3) by simp
  have "a \<noteq> gateway subnet \<and> a \<noteq> p_addr p \<and> a \<noteq> p_addr p + of_nat (2 ^ (32 - p_bits p) - 1)"
    using assignable_excludes [OF s a(1) assms(2) a(2)] a(4-6) by blast
  then show ?thesis
    using Inr a [unfolded u] host_in_slot [OF s a(1,2,4,5)] by auto
qed

theorem allocate_address_lowest_free_witness:
  "slot_prefix \<lparr>slot_bits = 25\<rparr> \<lparr>p_addr = 0x0A640100, p_bits = 24\<rparr> 1 =
     Inr \<lparr>p_addr = 0x0A640180, p_bits = 25\<rparr> \<and>
   allocate_address (\<lambda>_. Inr [0x0A640181, 0x0A640183]) \<lparr>p_addr = 0x0A640100, p_bits = 24\<rparr>
     \<lparr>slot_bits = 25\<rparr> 1 = Inr 0x0A640182 \<and>
   slot_of \<lparr>slot_bits = 25\<rparr> \<lparr>p_addr = 0x0A640100, p_bits = 24\<rparr> 0x0A640182 = Inr 1"
proof -
  have new: "slots_new 25 = Inr \<lparr>slot_bits = 25\<rparr>" by (simp add: slots_new_def slot_consts)
  have p: "slot_prefix \<lparr>slot_bits = 25\<rparr> \<lparr>p_addr = 0x0A640100, p_bits = 24\<rparr> 1 =
     Inr \<lparr>p_addr = 0x0A640180, p_bits = 25\<rparr>" by code_simp
  have m: "masked \<lparr>p_addr = 0x0A640100, p_bits = 24\<rparr> = \<lparr>p_addr = 0x0A640100, p_bits = 24\<rparr>" by code_simp
  have got: "allocate_address (\<lambda>_. Inr [0x0A640181, 0x0A640183]) \<lparr>p_addr = 0x0A640100, p_bits = 24\<rparr>
     \<lparr>slot_bits = 25\<rparr> 1 = Inr 0x0A640182"
    by (simp add: allocate_address_def require_slash_24_def assignable_def check_slot_def slot_count_def
        shift_def slot_consts Let_def m upt_conv_Cons del: upt_Suc upt_rec_numeral)
  show ?thesis
    using p got allocate_address_lowest_free
      [OF new p, where used_addresses = "\<lambda>_. Inr [0x0A640181, 0x0A640183]", OF refl, unfolded got sum.case]
    by blast
qed

end
