(* ===== verification/Net_Machine.thy ===== *)
theory Net_Machine
  imports Net_Firewall Net_Subnet
begin

text \<open>
  The network of one machine, \<open>crates/network/src/machine.rs\<close>, \<open>routes.rs\<close> and \<open>mac.rs\<close>.

  \<open>machine_description\<close> is the description a machine is sent; \<open>machine_routes\<close>, \<open>machine_ruleset\<close> and
  \<open>machine_check\<close> are the methods that read it.  \<open>converge\<close> brings the guest routes of the host to
  the plan by running \<open>ip\<close>.  The program \<open>ip\<close> is an argument: the arguments it is given and the
  state of the kernel give its output and the next state, and \<open>ip_contract\<close> is what its manual
  says of the three calls the code makes.
\<close>

section \<open>The description of a machine\<close>

record machine_user =
  mu_index :: int
  mu_subnet :: ipv4_prefix
  mu_instances :: "published_instance list"

record remote_slot =
  rem_slot :: nat
  rem_next_hop :: ipv4_addr

record machine_description =
  mn_private_range :: ipv4_prefix
  mn_runner_prefix :: nat
  mn_users :: "machine_user list"
  mn_remote_slots :: "remote_slot list"
  mn_frontends :: "ipv4_addr list"
  mn_management :: "ipv4_addr list"

record route =
  rt_destination :: ipv4_prefix
  rt_next_hop :: ipv4_addr

definition networks :: "machine_description \<Rightarrow> user_network list" where
  "networks m =
    map (\<lambda>u. \<lparr>un_name = ''bento-user-'' @ show_int (mu_index u), un_bridge = ''bento'' @ show_int (mu_index u),
      un_subnet = mu_subnet u\<rparr>) (mn_users m)"

definition proxy_arp_bridges :: "machine_description \<Rightarrow> string list" where
  "proxy_arp_bridges m = map un_bridge (networks m)"

definition slot_route :: "slots \<Rightarrow> machine_user \<Rightarrow> remote_slot \<Rightarrow> (net_error, route) result" where
  "slot_route sl u r =
    and_then (slot_prefix sl (mu_subnet u) (rem_slot r)) (\<lambda>destination.
    and_then (ensure (\<not> p_bits destination \<le> p_bits (mu_subnet u)) Invalid) (\<lambda>_.
      Inr \<lparr>rt_destination = destination, rt_next_hop = rem_next_hop r\<rparr>))"

definition machine_routes :: "machine_description \<Rightarrow> (net_error, route list) result" where
  "machine_routes m =
    and_then (slots_new (mn_runner_prefix m)) (\<lambda>sl.
      if slot_count sl = 1 then Inr []
      else and_then (try_map (\<lambda>u. try_map (slot_route sl u) (mn_remote_slots m)) (mn_users m)) (\<lambda>rss.
        Inr (concat rss)))"

definition machine_ruleset :: "machine_description \<Rightarrow> ruleset" where
  "machine_ruleset m =
    \<lparr>rs_private_range = mn_private_range m,
     rs_users = map (\<lambda>(network, u). \<lparr>fu_network = network, fu_instances = mu_instances u\<rparr>) (zip (networks m) (mn_users m)),
     rs_underlay_peers = (mn_remote_slots m \<noteq> []),
     rs_frontends = mn_frontends m,
     rs_runner_prefix = mn_runner_prefix m,
     rs_remote_slots = map rem_slot (mn_remote_slots m),
     rs_management = mn_management m\<rparr>"

fun check_remote :: "slots \<Rightarrow> ipv4_prefix \<Rightarrow> nat list \<Rightarrow> remote_slot list \<Rightarrow> (net_error, unit) result" where
  "check_remote sl private seen [] = Inr ()"
| "check_remote sl private seen (r # rs) =
    and_then (ensure (\<not> rem_slot r \<ge> slot_count sl) Invalid) (\<lambda>_.
    and_then (ensure (rem_slot r \<notin> set seen) Invalid) (\<lambda>_.
    and_then (ensure (\<not> contains private (rem_next_hop r)) Invalid) (\<lambda>_.
      check_remote sl private (rem_slot r # seen) rs)))"

definition machine_check :: "machine_description \<Rightarrow> (net_error, unit) result" where
  "machine_check m =
    and_then (slots_new (mn_runner_prefix m)) (\<lambda>sl.
    and_then (ensure (\<not> p_bits (mn_private_range m) > 24) Invalid) (\<lambda>_.
    and_then (try_map (\<lambda>u.
      and_then (require_slash_24 (mu_subnet u)) (\<lambda>_.
        ensure (contains (mn_private_range m) (p_addr (mu_subnet u))) Invalid)) (mn_users m)) (\<lambda>_.
    and_then (check_remote sl (mn_private_range m) [] (mn_remote_slots m)) (\<lambda>_.
      ensure (list_all (\<lambda>f. \<not> contains (mn_private_range m) f) (mn_frontends m)) Invalid))))"

section \<open>Installing routes\<close>

text \<open>\<open>ip\<close> is the program \<open>run_ip\<close> starts: its arguments and the state of the kernel give
  its output, or an error, and the next state.\<close>

type_synonym 'k ip_program = "string list \<Rightarrow> 'k \<Rightarrow> (unit, string) result \<times> 'k"

definition is_whitespace :: "char \<Rightarrow> bool" where
  "is_whitespace c = (let k = (of_char c :: nat) in k = 32 \<or> 9 \<le> k \<and> k \<le> 13)"

fun split_where :: "(char \<Rightarrow> bool) \<Rightarrow> string \<Rightarrow> string list" where
  "split_where P [] = [[]]"
| "split_where P (c # cs) =
    (if P c then [] # split_where P cs
     else (case split_where P cs of [] \<Rightarrow> [[c]] | w # ws \<Rightarrow> (c # w) # ws))"

definition split_whitespace :: "string \<Rightarrow> string list" where
  "split_whitespace s = filter (\<lambda>w. w \<noteq> []) (split_where is_whitespace s)"

definition parse_destination :: "string \<Rightarrow> ipv4_prefix option" where
  "parse_destination t =
    (case parse_prefix t of None \<Rightarrow> None | Some p \<Rightarrow> if 24 \<le> p_bits p \<and> p_bits p \<le> 27 then Some p else None)"

fun after_via :: "string list \<Rightarrow> string option" where
  "after_via [] = None"
| "after_via (f # fs) = (if f = ''via'' then (case fs of [] \<Rightarrow> None | n # _ \<Rightarrow> Some n) else after_via fs)"

definition parse_route :: "ipv4_prefix \<Rightarrow> string \<Rightarrow> route option" where
  "parse_route private line =
    (case split_whitespace line of
      [] \<Rightarrow> None
    | first # rest \<Rightarrow>
        Option.bind (parse_destination first) (\<lambda>destination.
        if \<not> contains private (p_addr destination) then None
        else Option.bind (Option.bind (after_via rest) parse_ipv4) (\<lambda>next_hop.
          Some \<lparr>rt_destination = destination, rt_next_hop = next_hop\<rparr>)))"

definition parse_routes :: "string \<Rightarrow> ipv4_prefix \<Rightarrow> route list" where
  "parse_routes t private = List.map_filter (parse_route private) (split_on (CHR 0x0A) t)"

definition installed :: "'k ip_program \<Rightarrow> ipv4_prefix \<Rightarrow> 'k \<Rightarrow> (net_error, route list) result \<times> 'k" where
  "installed ip private k =
    (case ip [''-4'', ''route'', ''show''] k of
      (Inl _, k') \<Rightarrow> (Inl Apply, k')
    | (Inr out, k') \<Rightarrow> (Inr (parse_routes out private), k'))"

definition add_route :: "'k ip_program \<Rightarrow> route \<Rightarrow> 'k \<Rightarrow> (net_error, unit) result \<times> 'k" where
  "add_route ip r k =
    (case ip [''route'', ''replace'', format_prefix (rt_destination r), ''via'', show_ipv4 (rt_next_hop r)] k of
      (Inl _, k') \<Rightarrow> (Inl Apply, k')
    | (Inr _, k') \<Rightarrow> (Inr (), k'))"

definition remove_route :: "'k ip_program \<Rightarrow> route \<Rightarrow> 'k \<Rightarrow> (net_error, unit) result \<times> 'k" where
  "remove_route ip r k =
    (case ip [''route'', ''del'', format_prefix (rt_destination r), ''via'', show_ipv4 (rt_next_hop r)] k of
      (Inl _, k') \<Rightarrow> (Inl Apply, k')
    | (Inr _, k') \<Rightarrow> (Inr (), k'))"

definition is_sysctl_component :: "string \<Rightarrow> bool" where
  "is_sysctl_component v =
    list_all (\<lambda>c. is_ascii_alphanumeric c \<or> c = CHR ''_'' \<or> c = CHR ''.'' \<or> c = CHR ''-'') v"

definition set_interface_flag ::
  "(string list \<Rightarrow> 'k \<Rightarrow> (unit, string) result \<times> 'k) \<Rightarrow> string \<Rightarrow> string \<Rightarrow> string \<Rightarrow> 'k \<Rightarrow> (net_error, unit) result \<times> 'k" where
  "set_interface_flag sysctl interface flag v k =
    (if interface = [] \<or> \<not> is_sysctl_component interface then (Inl Invalid, k)
     else if \<not> is_sysctl_component flag then (Inl Invalid, k)
     else (case sysctl [''-w'', ''net.ipv4.conf.'' @ interface @ ''.'' @ flag @ ''='' @ v] k of
        (Inl _, k') \<Rightarrow> (Inl Apply, k')
      | (Inr _, k') \<Rightarrow> (Inr (), k')))"

record converged =
  cv_added :: "route list"
  cv_removed :: "route list"
  cv_unchanged :: nat

text \<open>The first occurrence of every route, in order.\<close>

fun unique_from :: "route list \<Rightarrow> route list \<Rightarrow> route list" where
  "unique_from before [] = []"
| "unique_from before (r # rs) =
    (if r \<in> set before then unique_from (before @ [r]) rs else r # unique_from (before @ [r]) rs)"

definition unique_routes :: "route list \<Rightarrow> route list" where
  "unique_routes rs = unique_from [] rs"

fun remove_stale ::
  "'k ip_program \<Rightarrow> route list \<Rightarrow> route list \<Rightarrow> converged \<Rightarrow> 'k \<Rightarrow> (net_error, converged) result \<times> 'k" where
  "remove_stale ip desired [] c k = (Inr c, k)"
| "remove_stale ip desired (r # rs) c k =
    (if r \<in> set desired then remove_stale ip desired rs c k
     else (case remove_route ip r k of
        (Inl e, k') \<Rightarrow> (Inl e, k')
      | (Inr _, k') \<Rightarrow> remove_stale ip desired rs (c\<lparr>cv_removed := cv_removed c @ [r]\<rparr>) k'))"

fun add_missing ::
  "'k ip_program \<Rightarrow> route list \<Rightarrow> route list \<Rightarrow> converged \<Rightarrow> 'k \<Rightarrow> (net_error, converged) result \<times> 'k" where
  "add_missing ip present [] c k = (Inr c, k)"
| "add_missing ip present (r # rs) c k =
    (if r \<in> set present then add_missing ip present rs (c\<lparr>cv_unchanged := cv_unchanged c + 1\<rparr>) k
     else (case add_route ip r k of
        (Inl e, k') \<Rightarrow> (Inl e, k')
      | (Inr _, k') \<Rightarrow> add_missing ip present rs (c\<lparr>cv_added := cv_added c @ [r]\<rparr>) k'))"

definition converge ::
  "'k ip_program \<Rightarrow> ipv4_prefix \<Rightarrow> route list \<Rightarrow> 'k \<Rightarrow> (net_error, converged) result \<times> 'k" where
  "converge ip private desired k =
    (if \<not> list_all (\<lambda>r. 24 \<le> p_bits (rt_destination r) \<and> p_bits (rt_destination r) \<le> 27) desired then (Inl Invalid, k)
     else (case installed ip private k of
        (Inl e, k') \<Rightarrow> (Inl e, k')
      | (Inr present, k') \<Rightarrow>
          (case remove_stale ip desired (unique_routes present) \<lparr>cv_added = [], cv_removed = [], cv_unchanged = 0\<rparr> k' of
            (Inl e, k'') \<Rightarrow> (Inl e, k'')
          | (Inr c, k'') \<Rightarrow> add_missing ip present (unique_routes desired) c k'')))"

section \<open>Guest MAC addresses\<close>

text \<open>\<open>sha256\<close> is the digest function of the \<open>sha2\<close> crate.\<close>

definition mac :: "(string \<Rightarrow> 8 word list) \<Rightarrow> string \<Rightarrow> string" where
  "mac sha256 instance_uuid =
    (let digest = sha256 (''bento-mac:'' @ instance_uuid);
         bytes = take 6 digest;
         bytes = bytes[0 := ((bytes ! 0) AND NOT 1) OR 2]
     in join '':'' (map hex_byte bytes))"

section \<open>Convergence of routes\<close>

lemma unique_from_set: "set (unique_from before rs) = set rs - set before"
  by (induction before rs rule: unique_from.induct) auto

lemma unique_from_distinct: "distinct (unique_from before rs)"
  by (induction before rs rule: unique_from.induct) (auto simp: unique_from_set)

lemma unique_routes_facts [simp]: "set (unique_routes rs) = set rs" "distinct (unique_routes rs)"
  by (simp_all add: unique_routes_def unique_from_set unique_from_distinct)

text \<open>What \<open>ip\<close> documents, for a kernel whose table of routes with a next hop is
  \<open>table k\<close>: \<open>show\<close> lists the table, \<open>del\<close> takes out the named route, and \<open>replace\<close> puts the
  route in the place of every other route to that destination.\<close>

definition guest_route :: "ipv4_prefix \<Rightarrow> route \<Rightarrow> bool" where
  "guest_route private r \<longleftrightarrow> contains private (p_addr (rt_destination r)) \<and>
    24 \<le> p_bits (rt_destination r) \<and> p_bits (rt_destination r) \<le> 27"

definition ip_contract :: "'k ip_program \<Rightarrow> ipv4_prefix \<Rightarrow> ('k \<Rightarrow> route set) \<Rightarrow> bool" where
  "ip_contract ip private table \<longleftrightarrow>
    (\<forall>k. \<exists>out. ip [''-4'', ''route'', ''show''] k = (Inr out, k) \<and>
      set (parse_routes out private) = Set.filter (guest_route private) (table k)) \<and>
    (\<forall>k. \<forall>r\<in>table k. \<exists>out k'.
      ip [''route'', ''del'', format_prefix (rt_destination r), ''via'', show_ipv4 (rt_next_hop r)] k = (Inr out, k') \<and>
      table k' = table k - {r}) \<and>
    (\<forall>k r. guest_route private r \<and> masked (rt_destination r) = rt_destination r \<longrightarrow> (\<exists>out k'.
      ip [''route'', ''replace'', format_prefix (rt_destination r), ''via'', show_ipv4 (rt_next_hop r)] k = (Inr out, k') \<and>
      table k' = insert r (Set.filter (\<lambda>q. rt_destination q \<noteq> rt_destination r) (table k))))"

lemma installed_contract:
  assumes "ip_contract ip private table"
  shows "\<exists>present. installed ip private k = (Inr present, k) \<and> set present = Set.filter (guest_route private) (table k)"
proof -
  obtain out where "ip [''-4'', ''route'', ''show''] k = (Inr out, k)"
    "set (parse_routes out private) = Set.filter (guest_route private) (table k)"
    using assms unfolding ip_contract_def by metis
  then show ?thesis by (simp add: installed_def)
qed

lemma remove_route_contract:
  assumes "ip_contract ip private table" "r \<in> table k"
  shows "\<exists>k'. remove_route ip r k = (Inr (), k') \<and> table k' = table k - {r}"
proof -
  obtain out k' where "ip [''route'', ''del'', format_prefix (rt_destination r), ''via'', show_ipv4 (rt_next_hop r)] k = (Inr out, k')"
    "table k' = table k - {r}"
    using assms unfolding ip_contract_def by metis
  then show ?thesis by (simp add: remove_route_def)
qed

lemma add_route_contract:
  assumes "ip_contract ip private table" "guest_route private r" "masked (rt_destination r) = rt_destination r"
  shows "\<exists>k'. add_route ip r k = (Inr (), k') \<and>
    table k' = insert r (Set.filter (\<lambda>q. rt_destination q \<noteq> rt_destination r) (table k))"
proof -
  obtain out k' where "ip [''route'', ''replace'', format_prefix (rt_destination r), ''via'', show_ipv4 (rt_next_hop r)] k = (Inr out, k')"
    "table k' = insert r (Set.filter (\<lambda>q. rt_destination q \<noteq> rt_destination r) (table k))"
    using assms unfolding ip_contract_def by metis
  then show ?thesis by (simp add: add_route_def)
qed

lemma remove_stale_effect:
  assumes "ip_contract ip private table" "set rs \<subseteq> table k" "distinct rs"
  shows "\<exists>k'. remove_stale ip desired rs c k =
      (Inr (c\<lparr>cv_removed := cv_removed c @ filter (\<lambda>r. r \<notin> set desired) rs\<rparr>), k') \<and>
    table k' = table k - (set rs - set desired)"
  using assms(2,3)
proof (induction rs arbitrary: c k)
  case (Cons r rs)
  show ?case
  proof (cases "r \<in> set desired")
    case True
    then show ?thesis using Cons by auto
  next
    case False
    obtain k1 where k1: "remove_route ip r k = (Inr (), k1)" "table k1 = table k - {r}"
      using remove_route_contract [OF assms(1), of r k] Cons.prems by auto
    have "set rs \<subseteq> table k1" "distinct rs" using Cons.prems k1 by auto
    from Cons.IH [OF this, of "c\<lparr>cv_removed := cv_removed c @ [r]\<rparr>"] show ?thesis
      using False k1 by auto
  qed
qed simp

lemma add_missing_effect:
  assumes "ip_contract ip private table" "\<forall>r\<in>set rs. guest_route private r \<and> masked (rt_destination r) = rt_destination r"
    "distinct rs" "inj_on rt_destination (set rs)"
  shows "\<exists>k'. add_missing ip present rs c k =
      (Inr (c\<lparr>cv_added := cv_added c @ filter (\<lambda>r. r \<notin> set present) rs,
        cv_unchanged := cv_unchanged c + length (filter (\<lambda>r. r \<in> set present) rs)\<rparr>), k') \<and>
    table k' = (set rs - set present) \<union> Set.filter (\<lambda>q. rt_destination q \<notin> rt_destination ` (set rs - set present)) (table k)"
  using assms(2-4)
proof (induction rs arbitrary: c k)
  case (Cons r rs)
  show ?case
  proof (cases "r \<in> set present")
    case True
    have prems: "\<forall>r\<in>set rs. guest_route private r \<and> masked (rt_destination r) = rt_destination r" "distinct rs" "inj_on rt_destination (set rs)"
      using Cons.prems by auto
    have "set (r # rs) - set present = set rs - set present" using True by auto
    with Cons.IH [OF prems, of "c\<lparr>cv_unchanged := cv_unchanged c + 1\<rparr>" k] show ?thesis using True by simp
  next
    case False
    obtain k1 where k1: "add_route ip r k = (Inr (), k1)"
      "table k1 = insert r (Set.filter (\<lambda>q. rt_destination q \<noteq> rt_destination r) (table k))"
      using add_route_contract [OF assms(1), of r k] Cons.prems by auto
    have prems: "\<forall>r\<in>set rs. guest_route private r \<and> masked (rt_destination r) = rt_destination r" "distinct rs" "inj_on rt_destination (set rs)"
      using Cons.prems by auto
    have fresh: "rt_destination r \<notin> rt_destination ` (set rs - set present)" using Cons.prems(2,3) by auto
    have "set (r # rs) - set present = insert r (set rs - set present)" using False by auto
    with Cons.IH [OF prems, of "c\<lparr>cv_added := cv_added c @ [r]\<rparr>" k1] show ?thesis
      using False k1 fresh by auto
  qed
qed simp

definition route_plan :: "ipv4_prefix \<Rightarrow> route list \<Rightarrow> bool" where
  "route_plan private desired \<longleftrightarrow>
    (\<forall>r\<in>set desired. guest_route private r \<and> masked (rt_destination r) = rt_destination r) \<and>
    inj_on rt_destination (set desired)"

lemma route_plan_widths:
  "route_plan private desired \<Longrightarrow>
    list_all (\<lambda>r. 24 \<le> p_bits (rt_destination r) \<and> p_bits (rt_destination r) \<le> 27) desired"
  by (auto simp: route_plan_def guest_route_def list_all_iff)

lemma replaced_guests:
  assumes "P = Set.filter g T" "\<And>r. r \<in> D \<Longrightarrow> g r" "\<And>q r. q \<in> D \<Longrightarrow> r \<in> D \<Longrightarrow> d q = d r \<Longrightarrow> q = r"
  shows "Set.filter g ((D - P) \<union> Set.filter (\<lambda>q. d q \<notin> d ` (D - P)) (T - (P - D))) = D"
proof (intro set_eqI iffI)
  fix q assume "q \<in> D"
  moreover have "d q \<notin> d ` (D - P)" if "q \<in> P" using assms(3) \<open>q \<in> D\<close> that by blast
  ultimately show "q \<in> Set.filter g ((D - P) \<union> Set.filter (\<lambda>q. d q \<notin> d ` (D - P)) (T - (P - D)))"
    using assms(1,2) by (cases "q \<in> P") auto
qed (use assms(1) in auto)

lemma replaced_others:
  assumes "P = Set.filter g T" "\<And>r. r \<in> D \<Longrightarrow> g r" "\<And>q r. d q = d r \<Longrightarrow> g q = g r"
  shows "Set.filter (\<lambda>r. \<not> g r) ((D - P) \<union> Set.filter (\<lambda>q. d q \<notin> d ` (D - P)) (T - (P - D))) =
    Set.filter (\<lambda>r. \<not> g r) T"
proof (intro set_eqI iffI)
  fix q assume q: "q \<in> Set.filter (\<lambda>r. \<not> g r) T"
  have "d q \<notin> d ` (D - P)"
  proof
    assume "d q \<in> d ` (D - P)"
    then obtain r where "r \<in> D" "d q = d r" by blast
    then have "g q" using assms(2) assms(3) [of q r] by blast
    with q show False by simp
  qed
  then show "q \<in> Set.filter (\<lambda>r. \<not> g r) ((D - P) \<union> Set.filter (\<lambda>q. d q \<notin> d ` (D - P)) (T - (P - D)))"
    using q assms(1) by auto
qed (use assms(1,2) in auto)

lemma converge_effect:
  assumes "ip_contract ip private table" "route_plan private desired"
  shows "\<exists>c k'. converge ip private desired k = (Inr c, k') \<and>
    Set.filter (guest_route private) (table k') = set desired \<and>
    Set.filter (\<lambda>r. \<not> guest_route private r) (table k') = Set.filter (\<lambda>r. \<not> guest_route private r) (table k)"
proof -
  let ?c = "\<lparr>cv_added = [], cv_removed = [], cv_unchanged = 0\<rparr>"
  obtain present where present: "installed ip private k = (Inr present, k)"
    "set present = Set.filter (guest_route private) (table k)"
    using installed_contract [OF assms(1)] by blast
  obtain c1 k1 where k1: "remove_stale ip desired (unique_routes present) ?c k = (Inr c1, k1)"
    "table k1 = table k - (set present - set desired)"
    using remove_stale_effect [OF assms(1), of "unique_routes present" k desired ?c] present(2) by auto
  have "\<forall>r\<in>set (unique_routes desired). guest_route private r \<and> masked (rt_destination r) = rt_destination r"
    "inj_on rt_destination (set (unique_routes desired))"
    using assms(2) by (simp_all add: route_plan_def)
  then obtain c2 k2 where k2: "add_missing ip present (unique_routes desired) c1 k1 = (Inr c2, k2)"
    "table k2 = (set desired - set present) \<union> Set.filter (\<lambda>q. rt_destination q \<notin> rt_destination ` (set desired - set present)) (table k1)"
    using add_missing_effect [OF assms(1), of "unique_routes desired" present c1 k1] by auto
  have guest: "guest_route private r" if "r \<in> set desired" for r using assms(2) that by (simp add: route_plan_def)
  have same: "q = r" if "q \<in> set desired" "r \<in> set desired" "rt_destination q = rt_destination r" for q r
    using assms(2) that by (auto simp: route_plan_def inj_on_def)
  have shape: "guest_route private q = guest_route private r" if "rt_destination q = rt_destination r" for q r
    using that by (simp add: guest_route_def)
  have "converge ip private desired k = (Inr c2, k2)"
    using k1(1) k2(1) present(1) route_plan_widths [OF assms(2)] by (simp add: converge_def)
  moreover have "Set.filter (guest_route private) (table k2) = set desired"
    unfolding k2(2) k1(2) by (rule replaced_guests [OF present(2) guest same])
  moreover have "Set.filter (\<lambda>r. \<not> guest_route private r) (table k2) = Set.filter (\<lambda>r. \<not> guest_route private r) (table k)"
    unfolding k2(2) k1(2) by (rule replaced_others [OF present(2) guest shape])
  ultimately show ?thesis by blast
qed

lemma converge_stable:
  assumes "ip_contract ip private table" "route_plan private desired"
    "Set.filter (guest_route private) (table k) = set desired"
  shows "converge ip private desired k = (Inr \<lparr>cv_added = [], cv_removed = [], cv_unchanged = card (set desired)\<rparr>, k)"
proof -
  obtain present where present: "installed ip private k = (Inr present, k)" "set present = set desired"
    using installed_contract [OF assms(1), of k] assms(3) by auto
  have stale: "remove_stale ip desired rs c k = (Inr c, k)" if "set rs \<subseteq> set desired" for rs and c :: converged
    using that by (induction rs) auto
  have missing: "add_missing ip present rs c k = (Inr (c\<lparr>cv_unchanged := cv_unchanged c + length rs\<rparr>), k)"
    if "set rs \<subseteq> set present" for rs and c :: converged
    using that by (induction rs arbitrary: c) auto
  have "length (unique_routes desired) = card (set desired)"
    by (metis distinct_card unique_routes_facts)
  then show ?thesis
    using present route_plan_widths [OF assms(2)] by (simp add: converge_def stale missing)
qed

section \<open>The routes of a machine\<close>

lemma check_remote_Inr:
  assumes "check_remote sl private seen rs = Inr ()"
  shows "distinct (map rem_slot rs)" "\<forall>r\<in>set rs. rem_slot r < slot_count sl \<and> \<not> contains private (rem_next_hop r)"
proof -
  have "distinct (map rem_slot rs) \<and> set (map rem_slot rs) \<inter> set seen = {} \<and>
    (\<forall>r\<in>set rs. rem_slot r < slot_count sl \<and> \<not> contains private (rem_next_hop r))"
    using assms by (induction sl "private" seen rs rule: check_remote.induct) (auto simp: result_simps)
  then show "distinct (map rem_slot rs)" "\<forall>r\<in>set rs. rem_slot r < slot_count sl \<and> \<not> contains private (rem_next_hop r)"
    by auto
qed

lemma machine_check_Inr:
  assumes "machine_check m = Inr ()"
  shows "slots_ok \<lparr>slot_bits = mn_runner_prefix m\<rparr>" "p_bits (mn_private_range m) \<le> 24"
    "\<forall>u\<in>set (mn_users m). p_bits (mu_subnet u) = 24 \<and> contains (mn_private_range m) (p_addr (mu_subnet u))"
    "distinct (map rem_slot (mn_remote_slots m))"
    "\<forall>r\<in>set (mn_remote_slots m). rem_slot r < slot_count \<lparr>slot_bits = mn_runner_prefix m\<rparr> \<and>
      \<not> contains (mn_private_range m) (rem_next_hop r)"
    "\<forall>f\<in>set (mn_frontends m). \<not> contains (mn_private_range m) f"
proof -
  obtain sl us where step: "slots_new (mn_runner_prefix m) = Inr sl" "p_bits (mn_private_range m) \<le> 24"
    "try_map (\<lambda>u. and_then (require_slash_24 (mu_subnet u)) (\<lambda>_.
        ensure (contains (mn_private_range m) (p_addr (mu_subnet u))) Invalid)) (mn_users m) = Inr us"
    "check_remote sl (mn_private_range m) [] (mn_remote_slots m) = Inr ()"
    "\<forall>f\<in>set (mn_frontends m). \<not> contains (mn_private_range m) f"
    using assms by (auto simp: machine_check_def result_simps not_less list_all_iff)
  then have sl: "sl = \<lparr>slot_bits = mn_runner_prefix m\<rparr>" "slots_ok sl" by (cases sl; auto simp: slots_new_ok)+
  show "slots_ok \<lparr>slot_bits = mn_runner_prefix m\<rparr>" using sl by simp
  show "\<forall>u\<in>set (mn_users m). p_bits (mu_subnet u) = 24 \<and> contains (mn_private_range m) (p_addr (mu_subnet u))"
    using try_map_Inr_all [OF step(3)] by (auto simp: result_simps require_slash_24_def)
  show "distinct (map rem_slot (mn_remote_slots m))"
    "\<forall>r\<in>set (mn_remote_slots m). rem_slot r < slot_count \<lparr>slot_bits = mn_runner_prefix m\<rparr> \<and>
      \<not> contains (mn_private_range m) (rem_next_hop r)"
    using check_remote_Inr [OF step(4)] sl by auto
  show "p_bits (mn_private_range m) \<le> 24" "\<forall>f\<in>set (mn_frontends m). \<not> contains (mn_private_range m) f"
    using step(2,5) by simp_all
qed

lemma slot_prefix_canonical:
  assumes "slots_ok s" "slot_prefix s subnet slot = Inr p"
  shows "masked p = p"
proof -
  note p = slot_prefix_InrD [OF assms]
  let ?w = "2 ^ shift s :: nat"
  have w: "32 - p_bits p = shift s" "p_bits p \<le> 32" "256 = slot_count s * ?w"
    using assms(1) p(3) shift_bits [OF assms(1)] count_times_width [OF assms(1)] by (auto simp: slots_ok_def slot_consts)
  have "unat (p_addr p) = (unat (p_addr subnet) div 256 * slot_count s + slot) * ?w"
    unfolding p(4) by (subst w(3)) (simp add: algebra_simps)
  then have "unat (p_addr (masked p)) = unat (p_addr p)" by (simp add: unat_masked [OF w(2)] w(1))
  then have "p_addr (masked p) = p_addr p" by (simp only: word_unat_eq_iff)
  then show ?thesis by simp
qed

lemma slot_prefix_inside:
  assumes "slots_ok s" "slot_prefix s subnet slot = Inr p"
  shows "slot_of s subnet (p_addr p) = Inr slot" "contains subnet (p_addr p)"
proof -
  have "p_bits p \<le> 32" using assms slot_prefix_InrD(3) [OF assms] by (auto simp: slots_ok_def slot_consts)
  then show "slot_of s subnet (p_addr p) = Inr slot" using slot_of_iff_prefix [OF assms] contains_self by blast
  then show "contains subnet (p_addr p)" by (simp add: slot_of_Inr_iff)
qed

lemma machine_routes_set:
  assumes "machine_routes m = Inr desired" "sl = \<lparr>slot_bits = mn_runner_prefix m\<rparr>" "slot_count sl \<noteq> 1"
  shows "r \<in> set desired \<longleftrightarrow> (\<exists>u\<in>set (mn_users m). \<exists>q\<in>set (mn_remote_slots m). slot_route sl u q = Inr r)"
proof -
  obtain rss where rss: "try_map (\<lambda>u. try_map (slot_route sl u) (mn_remote_slots m)) (mn_users m) = Inr rss" "desired = concat rss"
    using assms by (auto simp: machine_routes_def result_simps slots_new_def split: if_splits)
  have "r \<in> set desired \<longleftrightarrow> (\<exists>rs. rs \<in> set rss \<and> r \<in> set rs)" using rss(2) by auto
  also have "\<dots> \<longleftrightarrow> (\<exists>u\<in>set (mn_users m). \<exists>rs. try_map (slot_route sl u) (mn_remote_slots m) = Inr rs \<and> r \<in> set rs)"
    using try_map_Inr_set [OF rss(1)] by blast
  also have "\<dots> \<longleftrightarrow> (\<exists>u\<in>set (mn_users m). \<exists>q\<in>set (mn_remote_slots m). slot_route sl u q = Inr r)"
  proof (intro bex_cong refl)
    fix u assume "u \<in> set (mn_users m)"
    then obtain rs where rs: "try_map (slot_route sl u) (mn_remote_slots m) = Inr rs"
      using try_map_Inr_all [OF rss(1)] by blast
    then show "(\<exists>rs. try_map (slot_route sl u) (mn_remote_slots m) = Inr rs \<and> r \<in> set rs) \<longleftrightarrow>
        (\<exists>q\<in>set (mn_remote_slots m). slot_route sl u q = Inr r)"
      using try_map_Inr_set [OF rs] by simp
  qed
  finally show ?thesis .
qed

lemma slot_route_Inr:
  "slot_route sl u q = Inr r \<longleftrightarrow> slot_prefix sl (mu_subnet u) (rem_slot q) = Inr (rt_destination r) \<and>
    p_bits (mu_subnet u) < p_bits (rt_destination r) \<and> rt_next_hop r = rem_next_hop q"
  by (cases r) (auto simp: slot_route_def result_simps not_le)

lemma machine_routes_plan:
  assumes check: "machine_check m = Inr ()" and routes: "machine_routes m = Inr desired"
    and subnets: "distinct (map (\<lambda>u. masked (mu_subnet u)) (mn_users m))"
  shows "route_plan (mn_private_range m) desired"
proof (cases "slot_count \<lparr>slot_bits = mn_runner_prefix m\<rparr> = 1")
  case True
  then have "desired = []" using routes by (auto simp: machine_routes_def result_simps slots_new_def split: if_splits)
  then show ?thesis by (simp add: route_plan_def)
next
  case False
  define sl where "sl = \<lparr>slot_bits = mn_runner_prefix m\<rparr>"
  note ok = machine_check_Inr [OF check, folded sl_def]
  note mem = machine_routes_set [OF routes sl_def False [folded sl_def]]
  have each: "guest_route (mn_private_range m) r \<and> masked (rt_destination r) = rt_destination r"
    if "u \<in> set (mn_users m)" "slot_route sl u q = Inr r" for u q r
  proof -
    have p: "slot_prefix sl (mu_subnet u) (rem_slot q) = Inr (rt_destination r)" using that by (simp add: slot_route_Inr)
    have "contains (mn_private_range m) (p_addr (rt_destination r))"
      by (rule contains_trans [OF _ _ _ slot_prefix_inside(2) [OF ok(1) p]]) (use ok(2,3) that(1) in auto)
    moreover have "24 \<le> p_bits (rt_destination r)" "p_bits (rt_destination r) \<le> 27"
      using slot_prefix_InrD(3) [OF ok(1) p] ok(1) by (auto simp: slots_ok_def slot_consts)
    ultimately show ?thesis using slot_prefix_canonical [OF ok(1) p] by (simp add: guest_route_def)
  qed
  moreover have "r = r'"
    if "u \<in> set (mn_users m)" "q \<in> set (mn_remote_slots m)" "slot_route sl u q = Inr r"
      "u' \<in> set (mn_users m)" "q' \<in> set (mn_remote_slots m)" "slot_route sl u' q' = Inr r'"
      "rt_destination r = rt_destination r'" for u q r u' q' r'
  proof -
    let ?a = "p_addr (rt_destination r)"
    have p: "slot_prefix sl (mu_subnet u) (rem_slot q) = Inr (rt_destination r)"
      "slot_prefix sl (mu_subnet u') (rem_slot q') = Inr (rt_destination r)"
      using that by (simp_all add: slot_route_Inr)
    note a = slot_prefix_inside [OF ok(1) p(1)] slot_prefix_inside [OF ok(1) p(2)]
    have "masked (mu_subnet u) = masked (mu_subnet u')"
      by (rule slash_24_disjoint [OF _ _ a(2,4)]) (use ok(3) that(1,4) in auto)
    then have "u = u'" using subnets that(1,4) by (auto simp: distinct_map inj_on_def)
    then have "rem_slot q = rem_slot q'" using a(1,3) by simp
    then have "q = q'" using ok(4) that(2,5) by (auto simp: distinct_map inj_on_def)
    then show ?thesis using that(3,6) \<open>u = u'\<close> by simp
  qed
  ultimately show ?thesis unfolding route_plan_def inj_on_def Ball_def mem by blast
qed

section \<open>Reading the route table\<close>

lemma text_no_whitespace:
  "c \<in> set (show_nat n) \<Longrightarrow> \<not> is_whitespace c \<and> c \<noteq> CHR 0x0A"
proof -
  assume "c \<in> set (show_nat n)"
  then obtain d where "d < 10" "c = digit_char d" using show_nat_digits by blast
  then show ?thesis
    by (auto simp: is_whitespace_def digit_char_def Let_def dest: arg_cong [where f = "of_char :: char \<Rightarrow> nat"])
qed

lemma show_ipv4_no_whitespace: "c \<in> set (show_ipv4 a) \<Longrightarrow> \<not> is_whitespace c \<and> c \<noteq> CHR 0x0A"
  using text_no_whitespace by (auto simp: show_ipv4_def is_whitespace_def)

lemma format_prefix_no_whitespace: "c \<in> set (format_prefix p) \<Longrightarrow> \<not> is_whitespace c \<and> c \<noteq> CHR 0x0A"
  using text_no_whitespace show_ipv4_no_whitespace by (auto simp: format_prefix_def is_whitespace_def)

lemma format_prefix_nonempty: "format_prefix p \<noteq> []" "show_ipv4 a \<noteq> []"
  by (simp_all add: format_prefix_def show_ipv4_def)

lemma split_where_free: "\<forall>c\<in>set w. \<not> P c \<Longrightarrow> split_where P w = [w]"
  by (induction w) auto

lemma split_where_append: "\<forall>c\<in>set w. \<not> P c \<Longrightarrow> P d \<Longrightarrow> split_where P (w @ d # s) = w # split_where P s"
  by (induction w) auto

lemma format_prefix_inj: "format_prefix p = format_prefix q \<Longrightarrow> p = q"
proof -
  assume "format_prefix p = format_prefix q"
  then have "split_once CHR ''/'' (show_ipv4 (p_addr p) @ CHR ''/'' # show_nat (p_bits p)) =
      split_once CHR ''/'' (show_ipv4 (p_addr q) @ CHR ''/'' # show_nat (p_bits q))"
    by (simp add: format_prefix_def)
  then have "show_ipv4 (p_addr p) = show_ipv4 (p_addr q)" "show_nat (p_bits p) = show_nat (p_bits q)"
    by (simp_all add: split_once_append show_ipv4_no_slash)
  then have "p_addr p = p_addr q" "p_bits p = p_bits q"
    by (simp add: show_ipv4_inj, metis digits_from_show_nat option.inject)
  then show "p = q" by simp
qed

text \<open>A line of \<open>ip route show\<close> for a route with a next hop.\<close>

definition route_line :: "route \<Rightarrow> string" where
  "route_line r = format_prefix (rt_destination r) @ '' via '' @ show_ipv4 (rt_next_hop r)"

lemma split_route_line:
  "split_whitespace (route_line r) = [format_prefix (rt_destination r), ''via'', show_ipv4 (rt_next_hop r)]"
proof -
  have "route_line r = format_prefix (rt_destination r) @ CHR '' '' # ''via'' @ CHR '' '' # show_ipv4 (rt_next_hop r)"
    by (simp add: route_line_def)
  moreover have "is_whitespace CHR '' ''" "\<forall>c\<in>set ''via''. \<not> is_whitespace c" by (simp_all add: is_whitespace_def)
  ultimately show ?thesis
    using format_prefix_no_whitespace show_ipv4_no_whitespace
    by (simp add: split_whitespace_def split_where_append split_where_free format_prefix_nonempty del: append_Cons append_Nil)
qed

lemma parse_uint_show_nat_None:
  assumes "m < n"
  shows "parse_uint m (show_nat n) = None"
proof (cases "show_nat n")
  case (Cons c cs)
  then have "c \<noteq> CHR ''+''" using show_nat_free(1) [of n] by auto
  then show ?thesis using Cons assms digits_from_show_nat [of n] by (simp add: parse_uint_def)
qed (simp add: parse_uint_def)

lemma parse_prefix_format_None:
  assumes "32 < p_bits p"
  shows "parse_prefix (format_prefix p) = None"
proof -
  have "parse_uint u8_max (show_nat (p_bits p)) \<in> {None, Some (p_bits p)}"
    using parse_uint_show_nat [of "p_bits p" u8_max] parse_uint_show_nat_None [of u8_max "p_bits p"]
    by (cases "p_bits p \<le> u8_max") auto
  then show ?thesis
    using assms split_once_append [OF show_ipv4_no_slash]
    by (auto simp: parse_prefix_def format_prefix_def parse_show_ipv4)
qed

lemma parse_route_line:
  "parse_route private (route_line r) = (if guest_route private r then Some r else None)"
proof (cases "p_bits (rt_destination r) \<le> 32")
  case True
  then show ?thesis
    by (cases r) (auto simp: parse_route_def split_route_line parse_destination_def parse_prefix_format parse_show_ipv4 guest_route_def)
next
  case False
  then have "parse_destination (format_prefix (rt_destination r)) = None"
    by (simp add: parse_destination_def parse_prefix_format_None)
  then show ?thesis using False by (simp add: parse_route_def split_route_line guest_route_def)
qed

lemma split_route_lines: "split_on (CHR 0x0A) (concat (map (\<lambda>r. route_line r @ [CHR 0x0A]) rs)) = map route_line rs @ [[]]"
proof (induction rs)
  case (Cons r rs)
  have "CHR 0x0A \<notin> set (route_line r)"
    using format_prefix_no_whitespace show_ipv4_no_whitespace by (auto simp: route_line_def)
  then show ?case using Cons by (simp add: split_on_append)
qed simp

lemma parse_routes_lines:
  "parse_routes (concat (map (\<lambda>r. route_line r @ [CHR 0x0A]) rs)) private = filter (guest_route private) rs"
proof -
  have "List.map_filter (parse_route private) (map route_line rs @ [[]]) = filter (guest_route private) rs"
    by (induction rs) (simp_all add: List.map_filter_simps parse_route_line, simp add: parse_route_def split_whitespace_def)
  then show ?thesis by (simp add: parse_routes_def split_route_lines)
qed

lemma machine_routes_cover:
  assumes "machine_check m = Inr ()" "machine_routes m = Inr desired" "r \<in> set desired" "contains (rt_destination r) a"
  shows "\<exists>u\<in>set (mn_users m). \<exists>q\<in>set (mn_remote_slots m).
    slot_of \<lparr>slot_bits = mn_runner_prefix m\<rparr> (mu_subnet u) a = Inr (rem_slot q) \<and> rt_next_hop r = rem_next_hop q"
proof -
  define sl where "sl = \<lparr>slot_bits = mn_runner_prefix m\<rparr>"
  note ok = machine_check_Inr [OF assms(1), folded sl_def]
  have "slot_count sl \<noteq> 1"
    using assms(2,3) by (auto simp: machine_routes_def result_simps slots_new_def sl_def split: if_splits)
  then obtain u q where uq: "u \<in> set (mn_users m)" "q \<in> set (mn_remote_slots m)" "slot_route sl u q = Inr r"
    using assms(3) machine_routes_set [OF assms(2) sl_def] by blast
  then have "slot_prefix sl (mu_subnet u) (rem_slot q) = Inr (rt_destination r)" "rt_next_hop r = rem_next_hop q"
    by (simp_all add: slot_route_Inr)
  then show ?thesis
    using uq(1,2) assms(4) slot_of_iff_prefix [OF ok(1)] unfolding sl_def by blast
qed

definition sample_ip :: "route list ip_program" where
  "sample_ip args k =
    (case args of
      [a, b, c] \<Rightarrow> (Inr (concat (map (\<lambda>r. route_line r @ [CHR 0x0A]) k)), k)
    | [a, verb, d, v, n] \<Rightarrow>
        if verb = ''del'' then
          (Inr [], filter (\<lambda>r. \<not> (format_prefix (rt_destination r) = d \<and> show_ipv4 (rt_next_hop r) = n)) k)
        else (case (parse_prefix d, parse_ipv4 n) of
            (Some p, Some h) \<Rightarrow> (Inr [], \<lparr>rt_destination = p, rt_next_hop = h\<rparr> # filter (\<lambda>r. rt_destination r \<noteq> p) k)
          | _ \<Rightarrow> (Inl (), k))
    | _ \<Rightarrow> (Inl (), k))"

lemma sample_ip_contract: "ip_contract sample_ip private set"
  unfolding ip_contract_def
proof (intro conjI allI ballI impI)
  fix k :: "route list" and r assume "r \<in> set k"
  have "format_prefix (rt_destination q) = format_prefix (rt_destination r) \<and> show_ipv4 (rt_next_hop q) = show_ipv4 (rt_next_hop r) \<longleftrightarrow> q = r" for q
    using format_prefix_inj by (cases q; cases r) (auto simp: show_ipv4_inj)
  then show "\<exists>out k'. sample_ip [''route'', ''del'', format_prefix (rt_destination r), ''via'', show_ipv4 (rt_next_hop r)] k = (Inr out, k') \<and>
      set k' = set k - {r}"
    by (auto simp: sample_ip_def)
next
  fix k :: "route list" and r :: route assume "guest_route private r \<and> masked (rt_destination r) = rt_destination r"
  then have "parse_prefix (format_prefix (rt_destination r)) = Some (rt_destination r)"
    by (simp add: guest_route_def parse_prefix_format)
  then show "\<exists>out k'. sample_ip [''route'', ''replace'', format_prefix (rt_destination r), ''via'', show_ipv4 (rt_next_hop r)] k = (Inr out, k') \<and>
      set k' = insert r (Set.filter (\<lambda>q. rt_destination q \<noteq> rt_destination r) (set k))"
    by (cases r) (auto simp: sample_ip_def parse_show_ipv4)
qed (auto simp: sample_ip_def parse_routes_lines)

section \<open>Properties\<close>


definition sample_machine :: machine_description where
  "sample_machine =
    \<lparr>mn_private_range = \<lparr>p_addr = 0x0a4d0000, p_bits = 16\<rparr>, mn_runner_prefix = 25,
     mn_users = [\<lparr>mu_index = 1, mu_subnet = \<lparr>p_addr = 0x0a4d0100, p_bits = 24\<rparr>, mu_instances = []\<rparr>,
       \<lparr>mu_index = 2, mu_subnet = \<lparr>p_addr = 0x0a4d0200, p_bits = 24\<rparr>, mu_instances = []\<rparr>],
     mn_remote_slots = [\<lparr>rem_slot = 1, rem_next_hop = 0x0a000016\<rparr>],
     mn_frontends = [0x0a000015], mn_management = [0x0a000015, 0x0a000016]\<rparr>"

definition sample_routes :: "route list" where
  "sample_routes =
    [\<lparr>rt_destination = \<lparr>p_addr = 0x0a4d0180, p_bits = 25\<rparr>, rt_next_hop = 0x0a000016\<rparr>,
     \<lparr>rt_destination = \<lparr>p_addr = 0x0a4d0280, p_bits = 25\<rparr>, rt_next_hop = 0x0a000016\<rparr>]"

lemma sample_machine_facts:
  "machine_check sample_machine = Inr ()" "machine_routes sample_machine = Inr sample_routes"
  "distinct (map (\<lambda>u. masked (mu_subnet u)) (mn_users sample_machine))"
  by code_simp+


end
