(* ===== verification/Store_Db.thy ===== *)
theory Store_Db
  imports Bento_Types "HOL-Library.Char_ord" "HOL-Library.List_Lexorder" "HOL-Library.Product_Lexorder"
begin

text \<open>
  The database of the control plane: the schema of \<open>crates/store/src/schema.sql\<close>
  with the numbered migrations applied, and the transaction wrapper of
  \<open>crates/store/src/lib.rs\<close>.

  \<open>db\<close> has one field per table.  A table read in an order or with several keys is
  a list of rows, a table read by its primary key only is a map.  A row holds the
  typed value of each column: \<open>Bento_Types\<close> shows that the text written for an
  enum reads back, and an instant is kept as the instant its RFC 3339 text
  denotes.  Where a statement compares or sorts by that text, the operation takes
  the writer \<open>format_time\<close> of the time crate as an argument and compares what it
  prints, as SQLite does.

  A statement that violates a constraint of the schema is the error \<open>Sqlite\<close>.
  \<open>with_tx\<close> gives a transaction its meaning: an error leaves the database as it was.
\<close>

section \<open>Definitions\<close>

datatype host_health = HUnknown | HOk | HUnreachable | HMismatched

text \<open>Why \<open>weigh_host\<close> refuses a machine.  The code formats these into a sentence, here
  each sentence is a constructor that carries the values it prints.\<close>

datatype refusal =
    NeverAnswered
  | LastSeen host_health
  | OwnsNoActiveSlot
  | IsArch string string
  | ReportedNoMemory
  | HasMemoryLeft nat nat nat
  | HasDiskFree nat nat

datatype store_error =
    NotFound
  | NameTaken
  | SshKeyTaken
  | CapacityExceeded string nat nat nat
  | NameCooldown string duration
  | NoFreeSubnet
  | InvalidPrivateRange
  | LeaseHeld string time
  | LeaseLost
  | RunnerPrefix nat
  | RunnerPrefixStrandsSlot nat nat
  | RunnerPrefixSplitsOwners nat nat
  | NoSuchSlot nat nat
  | SlotInUse nat nat
  | NoPlacement "(string \<times> refusal) list"
  | Sqlite

record observation_row =
  o_health :: host_health
  o_last_contact_at :: "time option"
  o_accepted_epoch :: int
  o_arch :: "string option"
  o_cpu_count :: "nat option"
  o_memory_total_mib :: "nat option"
  o_storage_total_gib :: "nat option"
  o_storage_available_gib :: "nat option"
  o_hypervisor_version :: "string option"
  o_last_error :: "string option"

record lease_row =
  lr_holder_id :: "string option"
  lr_epoch :: int
  lr_expires_at :: "time option"

record host_image =
  hi_host_id :: int
  hi_image_name :: string
  hi_checksum :: string
  hi_verified_at :: time

record db =
  db_users :: "user list"
  db_ssh_keys :: "ssh_key list"
  db_hosts :: "host list"
  db_runner_prefix :: nat
  db_lease :: lease_row
  db_slots :: "slot list"
  db_observations :: "int \<rightharpoonup> observation_row"
  db_host_images :: "host_image list"
  db_images :: "image list"
  db_image_versions :: "image_version list"
  db_image_sources :: "string \<times> string \<rightharpoonup> string"
  db_instances :: "vm_instance list"
  db_shares :: "share list"
  db_released :: "string \<rightharpoonup> int \<times> time"
  db_pairings :: "pairing list"
  db_tokens :: "token list"
  db_generations :: "string \<rightharpoonup> int"

type_synonym 'a tx = "db \<Rightarrow> (store_error, 'a \<times> db) result"

definition with_tx :: "'a tx \<Rightarrow> db \<Rightarrow> (store_error, 'a) result \<times> db" where
  "with_tx f d = (case f d of Inl e \<Rightarrow> (Inl e, d) | Inr (x, d') \<Rightarrow> (Inr x, d'))"

definition with_conn :: "(db \<Rightarrow> (store_error, 'a) result) \<Rightarrow> db \<Rightarrow> (store_error, 'a) result" where
  "with_conn f d = f d"

definition to_sql_int :: "nat \<Rightarrow> (store_error, int) result" where
  "to_sql_int v = (if int v \<le> i64_max then Inr (int v) else Inl Sqlite)"

definition from_sql_int :: "int \<Rightarrow> (store_error, nat) result" where
  "from_sql_int v = (if 0 \<le> v then Inr (nat v) else Inl Sqlite)"

text \<open>A database that was just created: the deployment row and the lease row exist,
  every other table is empty.\<close>

definition empty_db :: db where
  "empty_db = \<lparr>db_users = [], db_ssh_keys = [], db_hosts = [], db_runner_prefix = 24,
    db_lease = \<lparr>lr_holder_id = None, lr_epoch = 0, lr_expires_at = None\<rparr>, db_slots = [],
    db_observations = Map.empty, db_host_images = [], db_images = [], db_image_versions = [],
    db_image_sources = Map.empty, db_instances = [], db_shares = [], db_released = Map.empty,
    db_pairings = [], db_tokens = [], db_generations = Map.empty\<rparr>"

text \<open>A small deployment for the examples: two users, one machine that owns slot 0, and
  one image with one version.\<close>

definition sample_db :: db where
  "sample_db = empty_db\<lparr>
    db_users := [\<lparr>u_id = 1, u_name = ''ann'', u_email = ''ann@example.org'', u_oidc_subject = None,
        u_subnet = ''10.77.0.0/24'', u_created_at = 5\<rparr>,
      \<lparr>u_id = 2, u_name = ''bob'', u_email = ''bob@example.org'', u_oidc_subject = None,
        u_subnet = ''10.77.1.0/24'', u_created_at = 6\<rparr>],
    db_hosts := [\<lparr>h_id = 1, h_machine_id = Some ''m1'', h_name = ''one'', h_libvirt_uri = ''qemu:///system'',
        h_endpoint = None, h_underlay = None, h_enabled = True, h_placement = PActive, h_created_at = 1\<rparr>],
    db_slots := [\<lparr>s_slot = 0, s_state = SActive, s_owner_host_id = 1, s_ownership_epoch = 0,
        s_source_host_id = None, s_destination_host_id = None, s_operation_id = None\<rparr>],
    db_images := [\<lparr>im_name = ''debian'', im_url = ''u'', im_kind = Qcow2, im_pinned_checksum = None,
        im_current_checksum = Some ''sha256-a''\<rparr>],
    db_image_versions := [\<lparr>iv_checksum = ''sha256-a'', iv_image_name = ''debian'', iv_path = ''p'', iv_size = 10,
        iv_kind = Qcow2, iv_source_digest = None, iv_fetched_at = 2\<rparr>]\<rparr>"

definition sample_instance :: vm_instance where
  "sample_instance = \<lparr>i_uuid = ''u1'', i_name = ''web'', i_owner_id = 1, i_host_id = 1, i_image_name = ''debian'',
    i_base_checksum = ''sha256-a'', i_state = Stopped, i_desired_state = DRunning, i_address = ''10.77.0.2'',
    i_mac = ''02:00:00:00:00:01'', i_vcpu = 2, i_memory_mib = 2048, i_disk_gib = 20, i_nested = False,
    i_ksm = True, i_http_port = 80, i_visibility = Off, i_created_at = 7, i_last_seen_at = None,
    i_slot = Some 0\<rparr>"

definition sample_db1 :: db where
  "sample_db1 = sample_db\<lparr>db_instances := [sample_instance]\<rparr>"

text \<open>The rowid SQLite gives a new row of a table keyed by an \<open>INTEGER PRIMARY KEY\<close>:
  one more than the largest in use.\<close>

definition next_rowid :: "int list \<Rightarrow> int" where
  "next_rowid ids = foldr max ids 0 + 1"

text \<open>\<open>SUM\<close> over an integer column raises an error when the total leaves \<open>i64\<close>.\<close>

definition sql_sum :: "nat list \<Rightarrow> (store_error, nat) result" where
  "sql_sum ns = (if int (sum_list ns) \<le> i64_max then Inr (sum_list ns) else Inl Sqlite)"

section \<open>Transactions\<close>

lemma with_tx_Inl_iff: "with_tx f d = (Inl e, d') \<longleftrightarrow> f d = Inl e \<and> d' = d"
  by (auto simp: with_tx_def split: sum.splits)

lemma with_tx_Inr_iff: "with_tx f d = (Inr x, d') \<longleftrightarrow> f d = Inr (x, d')"
  by (auto simp: with_tx_def split: sum.splits)

lemma with_tx_cases:
  assumes "with_tx f d = (r, d')"
  obtains (failed) e where "f d = Inl e" "r = Inl e" "d' = d"
    | (committed) x where "f d = Inr (x, d')" "r = Inr x"
  using assms by (cases r) (auto simp: with_tx_Inl_iff with_tx_Inr_iff)

lemma to_sql_int_Inr_iff [simp]: "to_sql_int v = Inr k \<longleftrightarrow> int v \<le> i64_max \<and> k = int v"
  by (auto simp: to_sql_int_def)

lemma from_sql_int_Inr_iff [simp]: "from_sql_int k = Inr v \<longleftrightarrow> 0 \<le> k \<and> v = nat k"
  by (auto simp: from_sql_int_def)

lemma to_from_sql_int: "to_sql_int v = Inr k \<Longrightarrow> from_sql_int k = Inr v"
  by simp

lemma sql_sum_Inr_iff [simp]: "sql_sum ns = Inr s \<longleftrightarrow> int (sum_list ns) \<le> i64_max \<and> s = sum_list ns"
  by (auto simp: sql_sum_def)

lemma foldr_max_ge: "x \<in> set ids \<Longrightarrow> x \<le> foldr max ids (0::int)"
  by (induction ids) auto

lemma next_rowid_fresh: "next_rowid ids \<notin> set ids"
  using foldr_max_ge by (force simp: next_rowid_def)

lemma next_rowid_pos: "0 < next_rowid ids"
  by (induction ids) (auto simp: next_rowid_def)

section \<open>Tables as lists\<close>

lemma map_cong_update:
  "(\<And>r. key (f r) = key r) \<Longrightarrow> map key (map (\<lambda>r. if P r then f r else r) rows) = map key rows"
  by simp

lemma find_key_iff:
  assumes "distinct (map key rows)"
  shows "find (\<lambda>r. key r = k) rows = Some r \<longleftrightarrow> r \<in> set rows \<and> key r = k"
  using assms by (induction rows) force+

lemma find_key_None: "find (\<lambda>r. key r = k) rows = None \<longleftrightarrow> k \<notin> key ` set rows"
  by (auto simp: find_None_iff)

lemma filter_key_empty: "filter (\<lambda>v. key v = k) vs = [] \<longleftrightarrow> k \<notin> key ` set vs"
  by (auto simp: filter_empty_conv)

lemma distinct_map_filter_key [simp]: "distinct (map key rows) \<Longrightarrow> distinct (map key (filter P rows))"
  by (induction rows) auto

end
