(* ===== verification/Store_Names.thy ===== *)
theory Store_Names
  imports Store_Db
begin

text \<open>
  Names and their cooldown, \<open>crates/store/src/names.rs\<close>.

  \<open>claim_name_tx\<close> is the check every create and rename runs inside its own
  transaction, \<open>release_name_tx\<close> the upsert every delete and rename ends with.
\<close>

section \<open>Definitions\<close>

definition remaining_cooldown :: "time \<Rightarrow> time \<Rightarrow> duration \<Rightarrow> duration option" where
  "remaining_cooldown released_at now cooldown =
    (let remaining_nanos = cooldown - (now - released_at) in
     if remaining_nanos \<le> 0 then None
     else if remaining_nanos div 1000000000 > int u64_max then None
     else Some remaining_nanos)"

definition claim_name_tx :: "string \<Rightarrow> int \<Rightarrow> duration \<Rightarrow> time \<Rightarrow> db \<Rightarrow> (store_error, unit) result" where
  "claim_name_tx name user_id cooldown now d =
    (if list_ex (\<lambda>i. i_name i = name) (db_instances d) then Inl NameTaken
     else case db_released d name of
       None \<Rightarrow> Inr ()
     | Some (previous_owner_id, released_at) \<Rightarrow>
         if previous_owner_id = user_id then Inr ()
         else case remaining_cooldown released_at now cooldown of
           Some remaining \<Rightarrow> Inl (NameCooldown name remaining)
         | None \<Rightarrow> Inr ())"

text \<open>The upsert references \<open>users(id)\<close>, so releasing to an unknown user is refused.\<close>

definition release_name_tx :: "string \<Rightarrow> int \<Rightarrow> time \<Rightarrow> unit tx" where
  "release_name_tx name previous_owner_id now d =
    (if previous_owner_id \<in> u_id ` set (db_users d)
     then Inr ((), d\<lparr>db_released := (db_released d)(name \<mapsto> (previous_owner_id, now))\<rparr>)
     else Inl Sqlite)"

definition claim_name :: "string \<Rightarrow> int \<Rightarrow> duration \<Rightarrow> time \<Rightarrow> db \<Rightarrow> (store_error, unit) result \<times> db" where
  "claim_name name user_id cooldown now =
    with_tx (\<lambda>d. and_then (claim_name_tx name user_id cooldown now d) (\<lambda>u. Inr (u, d)))"

definition released_name_of :: "string \<Rightarrow> db \<Rightarrow> (store_error, released_name) result" where
  "released_name_of name = with_conn (\<lambda>d.
    case db_released d name of
      None \<Rightarrow> Inl NotFound
    | Some (owner, at) \<Rightarrow>
        Inr \<lparr>rn_name = name, rn_previous_owner_id = owner, rn_released_at = at\<rparr>)"

section \<open>Facts\<close>

text \<open>A cooldown a configuration can hold and a clock that does not run backwards by
  more than that keep the remaining time inside \<open>u64\<close> seconds.\<close>

lemma remaining_cooldown_Some_iff:
  assumes "cooldown - (now - released_at) \<le> int u64_max"
  shows "remaining_cooldown released_at now cooldown = Some r \<longleftrightarrow>
    0 < r \<and> r = released_at + cooldown - now"
proof -
  have "(cooldown - (now - released_at)) div 1000000000 \<le> int u64_max"
    if "0 < cooldown - (now - released_at)"
    using assms zdiv_mono2 [of "cooldown - (now - released_at)" 1 1000000000] that by simp
  then show ?thesis by (auto simp: remaining_cooldown_def Let_def)
qed

lemma remaining_cooldown_None:
  "released_at + cooldown \<le> now \<Longrightarrow> remaining_cooldown released_at now cooldown = None"
  by (simp add: remaining_cooldown_def Let_def)

lemma claim_name_tx_free:
  "claim_name_tx name user_id cooldown now d = Inr u \<Longrightarrow> name \<notin> i_name ` set (db_instances d)"
  by (auto simp: claim_name_tx_def list_ex_iff split: if_splits)

lemma release_name_tx_InrD:
  "release_name_tx name owner now d = Inr (u, d') \<Longrightarrow>
    d' = d\<lparr>db_released := (db_released d)(name \<mapsto> (owner, now))\<rparr> \<and> owner \<in> u_id ` set (db_users d)"
  by (auto simp: release_name_tx_def split: if_splits)

section \<open>Properties\<close>

text \<open>C28. A claim decides a name by three rules, for every reading of the clock that
  leaves less than \<open>u64\<close> nanoseconds to wait: a name of a live instance is refused as
  taken; a name released by another user is refused exactly while the cooldown
  counted from the release runs, and the error carries the exact time left; every
  other name is granted, the previous owner's own released name included.  A claim
  changes nothing.\<close>

theorem claim_name_rules:
  assumes "\<And>owner at. db_released d name = Some (owner, at) \<Longrightarrow> cooldown - (now - at) \<le> int u64_max"
  shows "claim_name name user cooldown now d =
    (if name \<in> i_name ` set (db_instances d) then Inl NameTaken
     else case db_released d name of
       None \<Rightarrow> Inr ()
     | Some (owner, at) \<Rightarrow>
        if owner \<noteq> user \<and> now < at + cooldown then Inl (NameCooldown name (at + cooldown - now)) else Inr (),
     d)"
proof -
  have "remaining_cooldown at now cooldown =
      (if now < at + cooldown then Some (at + cooldown - now) else None)"
    if "db_released d name = Some (owner, at)" for owner at
  proof (cases "now < at + cooldown")
    case True
    then have "remaining_cooldown at now cooldown = Some (at + cooldown - now)"
      unfolding remaining_cooldown_Some_iff [OF assms [OF that]] by simp
    then show ?thesis using True by simp
  qed (simp add: remaining_cooldown_None)
  then show ?thesis
    by (auto simp: claim_name_def with_tx_def claim_name_tx_def list_ex_iff image_iff split: option.splits)
qed

theorem claim_name_rules_witness:
  "claim_name ''web'' 2 100 40 (empty_db\<lparr>db_released := [''web'' \<mapsto> (1, 30)]\<rparr>) =
    (Inl (NameCooldown ''web'' 90), empty_db\<lparr>db_released := [''web'' \<mapsto> (1, 30)]\<rparr>)"
  by (subst claim_name_rules) (simp_all add: empty_db_def u64_max_def)

end
