(* ===== verification/Store_Instances.thy ===== *)
theory Store_Instances
  imports Store_Names
begin

text \<open>
  Instances, \<open>crates/store/src/instances.rs\<close>.

  Each public operation is the closure the code hands to \<open>with_tx\<close>, or the single
  statement it runs.  \<open>insert_instance\<close> and \<open>update_instances\<close> give the meaning of the
  INSERT and UPDATE statements: the unique columns, the foreign keys, and the two
  triggers that tie an instance's slot to a slot of its own host.  The clock is
  read twice in a create and in a rename, so both take two instants.
\<close>

section \<open>Definitions\<close>

definition slot_owner_ok :: "db \<Rightarrow> vm_instance \<Rightarrow> bool" where
  "slot_owner_ok d i =
    (case i_slot i of
       None \<Rightarrow> True
     | Some s \<Rightarrow> list_ex (\<lambda>r. s_slot r = s \<and> s_owner_host_id r = i_host_id i) (db_slots d))"

definition instances_unique :: "vm_instance list \<Rightarrow> bool" where
  "instances_unique is \<longleftrightarrow> distinct (map i_uuid is) \<and> distinct (map i_name is) \<and>
    distinct (map i_address is) \<and> distinct (map i_mac is)"

definition instance_refs_ok :: "db \<Rightarrow> vm_instance \<Rightarrow> bool" where
  "instance_refs_ok d i \<longleftrightarrow> i_owner_id i \<in> u_id ` set (db_users d) \<and>
    i_host_id i \<in> h_id ` set (db_hosts d) \<and> i_image_name i \<in> im_name ` set (db_images d) \<and>
    i_base_checksum i \<in> iv_checksum ` set (db_image_versions d)"

definition insert_instance :: "vm_instance \<Rightarrow> unit tx" where
  "insert_instance i d =
    (if instances_unique (db_instances d @ [i]) \<and> instance_refs_ok d i \<and> slot_owner_ok d i
     then Inr ((), d\<lparr>db_instances := db_instances d @ [i]\<rparr>)
     else Inl Sqlite)"

definition update_instances :: "(vm_instance \<Rightarrow> bool) \<Rightarrow> (vm_instance \<Rightarrow> vm_instance) \<Rightarrow> nat tx" where
  "update_instances P f d =
    (let rows = map (\<lambda>i. if P i then f i else i) (db_instances d) in
     if instances_unique rows \<and> list_all (\<lambda>i. P i \<longrightarrow> slot_owner_ok d (f i)) (db_instances d)
     then Inr (length (filter P (db_instances d)), d\<lparr>db_instances := rows\<rparr>)
     else Inl Sqlite)"

definition get_instance_tx :: "string \<Rightarrow> db \<Rightarrow> (store_error, vm_instance) result" where
  "get_instance_tx uuid d = ok_or NotFound (find (\<lambda>i. i_uuid i = uuid) (db_instances d))"

fun check_resource :: "string \<Rightarrow> nat \<Rightarrow> nat \<Rightarrow> ceiling \<Rightarrow> (store_error, unit) result" where
  "check_resource resource used requested Unbounded = Inr ()"
| "check_resource resource used requested (Limit l) =
    (if exceeded_by (Limit l) (saturating_add_u64 used requested)
     then Inl (CapacityExceeded resource used requested l) else Inr ())"

definition check_capacity_tx ::
  "int \<Rightarrow> string \<Rightarrow> nat \<Rightarrow> nat \<Rightarrow> capacity \<Rightarrow> db \<Rightarrow> (store_error, unit) result" where
  "check_capacity_tx host_id exclude_uuid add_memory add_disk cap d =
    (let rows = filter (\<lambda>i. i_host_id i = host_id \<and> i_uuid i \<noteq> exclude_uuid) (db_instances d) in
     and_then (sql_sum (map i_memory_mib rows)) (\<lambda>memory.
     and_then (sql_sum (map i_disk_gib rows)) (\<lambda>disk.
     and_then (check_resource ''memory'' memory add_memory (cap_memory_mib cap)) (\<lambda>_.
     check_resource ''disk'' disk add_disk (cap_disk_gib cap)))))"

definition create_instance ::
  "vm_instance \<Rightarrow> duration \<Rightarrow> capacity \<Rightarrow> time \<Rightarrow> time \<Rightarrow> db \<Rightarrow> (store_error, unit) result \<times> db" where
  "create_instance i name_cooldown cap now now' = with_tx (\<lambda>d.
    and_then (claim_name_tx (i_name i) (i_owner_id i) name_cooldown now d) (\<lambda>_.
    and_then (check_capacity_tx (i_host_id i) [] (i_memory_mib i) (i_disk_gib i) cap d) (\<lambda>_.
      let created_at = (if i_created_at i = 0 then now' else i_created_at i) in
      and_then (to_sql_int (i_memory_mib i)) (\<lambda>_.
      and_then (to_sql_int (i_disk_gib i)) (\<lambda>_.
      and_then (case i_slot i of None \<Rightarrow> Inr 0 | Some s \<Rightarrow> to_sql_int s) (\<lambda>_.
        insert_instance (i\<lparr>i_created_at := created_at, i_last_seen_at := None\<rparr>) d))))))"

definition delete_instance :: "string \<Rightarrow> time \<Rightarrow> db \<Rightarrow> (store_error, vm_instance) result \<times> db" where
  "delete_instance uuid now = with_tx (\<lambda>d.
    and_then (get_instance_tx uuid d) (\<lambda>i.
      let d1 = d\<lparr>db_instances := filter (\<lambda>r. i_uuid r \<noteq> uuid) (db_instances d),
                 db_shares := filter (\<lambda>s. sh_instance_uuid s \<noteq> uuid) (db_shares d)\<rparr> in
      and_then (release_name_tx (i_name i) (i_owner_id i) now d1) (\<lambda>(_, d2). Inr (i, d2))))"

definition rename_instance ::
  "string \<Rightarrow> string \<Rightarrow> duration \<Rightarrow> time \<Rightarrow> time \<Rightarrow> db \<Rightarrow> (store_error, unit) result \<times> db" where
  "rename_instance uuid new_name name_cooldown now now' = with_tx (\<lambda>d.
    and_then (get_instance_tx uuid d) (\<lambda>i.
      if i_name i = new_name then Inr ((), d)
      else
        and_then (claim_name_tx new_name (i_owner_id i) name_cooldown now d) (\<lambda>_.
        and_then (update_instances (\<lambda>r. i_uuid r = uuid) (\<lambda>r. r\<lparr>i_name := new_name\<rparr>) d) (\<lambda>(_, d1).
        release_name_tx (i_name i) (i_owner_id i) now' d1))))"

definition resize ::
  "string \<Rightarrow> nat \<Rightarrow> nat \<Rightarrow> nat \<Rightarrow> bool \<Rightarrow> capacity \<Rightarrow> db \<Rightarrow> (store_error, unit) result \<times> db" where
  "resize uuid vcpu memory_mib disk_gib nested cap = with_tx (\<lambda>d.
    and_then (get_instance_tx uuid d) (\<lambda>existing.
    and_then (check_capacity_tx (i_host_id existing) uuid memory_mib disk_gib cap d) (\<lambda>_.
    and_then (to_sql_int memory_mib) (\<lambda>_.
    and_then (to_sql_int disk_gib) (\<lambda>_.
    and_then (update_instances (\<lambda>r. i_uuid r = uuid)
      (\<lambda>r. r\<lparr>i_vcpu := vcpu, i_memory_mib := memory_mib, i_disk_gib := disk_gib, i_nested := nested\<rparr>) d)
      (\<lambda>(_, d1). Inr ((), d1)))))))"

definition check_resize ::
  "string \<Rightarrow> nat \<Rightarrow> nat \<Rightarrow> capacity \<Rightarrow> db \<Rightarrow> (store_error, unit) result \<times> db" where
  "check_resize uuid memory_mib disk_gib cap = with_tx (\<lambda>d.
    and_then (get_instance_tx uuid d) (\<lambda>existing.
    and_then (check_capacity_tx (i_host_id existing) uuid memory_mib disk_gib cap d) (\<lambda>u. Inr (u, d))))"

definition instance_of :: "string \<Rightarrow> db \<Rightarrow> (store_error, vm_instance) result" where
  "instance_of uuid = with_conn (\<lambda>d. ok_or NotFound (find (\<lambda>i. i_uuid i = uuid) (db_instances d)))"

definition instance_by_name :: "string \<Rightarrow> db \<Rightarrow> (store_error, vm_instance) result" where
  "instance_by_name name = with_conn (\<lambda>d. ok_or NotFound (find (\<lambda>i. i_name i = name) (db_instances d)))"

definition list_instances :: "(time \<Rightarrow> string) \<Rightarrow> (vm_instance \<Rightarrow> bool) \<Rightarrow> db \<Rightarrow> vm_instance list" where
  "list_instances format_time P d =
    sort_key (\<lambda>i. (format_time (i_created_at i), i_uuid i)) (filter P (db_instances d))"

definition instances_by_owner :: "(time \<Rightarrow> string) \<Rightarrow> int \<Rightarrow> db \<Rightarrow> vm_instance list" where
  "instances_by_owner format_time owner_id = list_instances format_time (\<lambda>i. i_owner_id i = owner_id)"

definition instances :: "(time \<Rightarrow> string) \<Rightarrow> db \<Rightarrow> vm_instance list" where
  "instances format_time = list_instances format_time (\<lambda>i. True)"

definition instances_on_host :: "(time \<Rightarrow> string) \<Rightarrow> int \<Rightarrow> db \<Rightarrow> vm_instance list" where
  "instances_on_host format_time host_id = list_instances format_time (\<lambda>i. i_host_id i = host_id)"

definition instances_to_restore :: "(time \<Rightarrow> string) \<Rightarrow> int \<Rightarrow> db \<Rightarrow> vm_instance list" where
  "instances_to_restore format_time host_id = list_instances format_time
    (\<lambda>i. i_host_id i = host_id \<and> i_desired_state i = DRunning \<and> i_state i = Stopped)"

definition update_instance ::
  "string \<Rightarrow> (vm_instance \<Rightarrow> vm_instance) \<Rightarrow> db \<Rightarrow> (store_error, unit) result \<times> db" where
  "update_instance uuid f = with_tx (\<lambda>d.
    and_then (update_instances (\<lambda>r. i_uuid r = uuid) f d) (\<lambda>(n, d1).
      if n = 0 then Inl NotFound else Inr ((), d1)))"

definition set_desired_state :: "string \<Rightarrow> desired_state \<Rightarrow> db \<Rightarrow> (store_error, unit) result \<times> db" where
  "set_desired_state uuid st = update_instance uuid (\<lambda>r. r\<lparr>i_desired_state := st\<rparr>)"

definition set_observed_state :: "string \<Rightarrow> state \<Rightarrow> db \<Rightarrow> (store_error, unit) result \<times> db" where
  "set_observed_state uuid st = update_instance uuid (\<lambda>r. r\<lparr>i_state := st\<rparr>)"

definition update_observed_states ::
  "(string \<times> state) list \<Rightarrow> db \<Rightarrow> (store_error, unit) result \<times> db" where
  "update_observed_states states d0 =
    (if states = [] then (Inr (), d0)
     else with_tx (\<lambda>d.
       and_then (try_fold (\<lambda>(uuid, st) d.
           and_then (update_instances (\<lambda>r. i_uuid r = uuid) (\<lambda>r. r\<lparr>i_state := st\<rparr>) d) (\<lambda>(_, d1). Inr d1))
         states d) (\<lambda>d1. Inr ((), d1))) d0)"

definition set_visibility :: "string \<Rightarrow> visibility \<Rightarrow> db \<Rightarrow> (store_error, unit) result \<times> db" where
  "set_visibility uuid v = update_instance uuid (\<lambda>r. r\<lparr>i_visibility := v\<rparr>)"

definition set_http_port :: "string \<Rightarrow> nat \<Rightarrow> db \<Rightarrow> (store_error, unit) result \<times> db" where
  "set_http_port uuid port = update_instance uuid (\<lambda>r. r\<lparr>i_http_port := port\<rparr>)"

definition touch_last_seen :: "string \<Rightarrow> time \<Rightarrow> db \<Rightarrow> (store_error, unit) result \<times> db" where
  "touch_last_seen uuid now = update_instance uuid (\<lambda>r. r\<lparr>i_last_seen_at := Some now\<rparr>)"

definition host_total :: "(vm_instance \<Rightarrow> nat) \<Rightarrow> int \<Rightarrow> vm_instance list \<Rightarrow> nat" where
  "host_total sel h is = sum_list (map sel (filter (\<lambda>i. i_host_id i = h) is))"

definition within_capacity :: "capacity \<Rightarrow> int \<Rightarrow> vm_instance list \<Rightarrow> bool" where
  "within_capacity cap h is \<longleftrightarrow>
    \<not> exceeded_by (cap_memory_mib cap) (host_total i_memory_mib h is) \<and>
    \<not> exceeded_by (cap_disk_gib cap) (host_total i_disk_gib h is)"

section \<open>Statements\<close>

lemma get_instance_tx_Inr_iff:
  "distinct (map i_uuid (db_instances d)) \<Longrightarrow>
    get_instance_tx uuid d = Inr i \<longleftrightarrow> i \<in> set (db_instances d) \<and> i_uuid i = uuid"
  by (simp add: get_instance_tx_def find_key_iff)

lemma get_instance_tx_InrD:
  "get_instance_tx uuid d = Inr i \<Longrightarrow> i \<in> set (db_instances d) \<and> i_uuid i = uuid"
  by (auto simp: get_instance_tx_def find_Some_iff)

lemma update_instances_Inr_iff:
  "update_instances P f d = Inr (n, d') \<longleftrightarrow>
    instances_unique (db_instances d') \<and> list_all (\<lambda>i. P i \<longrightarrow> slot_owner_ok d (f i)) (db_instances d) \<and>
    n = length (filter P (db_instances d)) \<and>
    d' = d\<lparr>db_instances := map (\<lambda>i. if P i then f i else i) (db_instances d)\<rparr>"
  by (auto simp: update_instances_def Let_def split: if_splits)

lemma insert_instance_Inr_iff:
  "insert_instance i d = Inr (u, d') \<longleftrightarrow>
    instances_unique (db_instances d @ [i]) \<and> instance_refs_ok d i \<and> slot_owner_ok d i \<and>
    d' = d\<lparr>db_instances := db_instances d @ [i]\<rparr>"
  by (auto simp: insert_instance_def split: if_splits)

text \<open>The row a successful create writes.\<close>

definition created_row :: "vm_instance \<Rightarrow> time \<Rightarrow> vm_instance" where
  "created_row i now' =
    i\<lparr>i_created_at := (if i_created_at i = 0 then now' else i_created_at i), i_last_seen_at := None\<rparr>"

lemma created_row_simps [simp]:
  "i_uuid (created_row i t) = i_uuid i" "i_name (created_row i t) = i_name i"
  "i_owner_id (created_row i t) = i_owner_id i" "i_host_id (created_row i t) = i_host_id i"
  "i_address (created_row i t) = i_address i" "i_slot (created_row i t) = i_slot i"
  "i_memory_mib (created_row i t) = i_memory_mib i" "i_disk_gib (created_row i t) = i_disk_gib i"
  "i_mac (created_row i t) = i_mac i" "i_image_name (created_row i t) = i_image_name i"
  "i_base_checksum (created_row i t) = i_base_checksum i"
  by (simp_all add: created_row_def)

lemma created_row_ok [simp]:
  "slot_owner_ok d (created_row i t) = slot_owner_ok d i"
  "instance_refs_ok d (created_row i t) = instance_refs_ok d i"
  by (simp_all add: slot_owner_ok_def instance_refs_ok_def split: option.splits)

lemma create_instance_InrD:
  assumes "create_instance i cd cap now now' d = (Inr u, d')"
  shows "claim_name_tx (i_name i) (i_owner_id i) cd now d = Inr ()"
    "check_capacity_tx (i_host_id i) [] (i_memory_mib i) (i_disk_gib i) cap d = Inr ()"
    "int (i_memory_mib i) \<le> i64_max" "int (i_disk_gib i) \<le> i64_max"
    "instances_unique (db_instances d @ [created_row i now'])" "instance_refs_ok d i" "slot_owner_ok d i"
    "d' = d\<lparr>db_instances := db_instances d @ [created_row i now']\<rparr>"
  using assms
  by (auto simp: create_instance_def with_tx_Inr_iff result_simps Let_def insert_instance_Inr_iff
      simp flip: created_row_def)

lemma delete_instance_InrD:
  assumes "delete_instance uuid now d = (Inr i, d')"
  shows "get_instance_tx uuid d = Inr i" "i_owner_id i \<in> u_id ` set (db_users d)"
    "d' = d\<lparr>db_instances := filter (\<lambda>r. i_uuid r \<noteq> uuid) (db_instances d),
            db_shares := filter (\<lambda>s. sh_instance_uuid s \<noteq> uuid) (db_shares d),
            db_released := (db_released d)(i_name i \<mapsto> (i_owner_id i, now))\<rparr>"
  using assms
  by (auto simp: delete_instance_def with_tx_Inr_iff result_simps Let_def release_name_tx_def split: if_splits)

lemma rename_instance_InrD:
  assumes "rename_instance uuid new cd now now' d = (Inr u, d')"
  obtains (same) i where "get_instance_tx uuid d = Inr i" "i_name i = new" "d' = d"
    | (renamed) i where "get_instance_tx uuid d = Inr i" "i_name i \<noteq> new"
      "claim_name_tx new (i_owner_id i) cd now d = Inr ()"
      "instances_unique (db_instances d')"
      "d' = d\<lparr>db_instances := map (\<lambda>r. if i_uuid r = uuid then r\<lparr>i_name := new\<rparr> else r) (db_instances d),
              db_released := (db_released d)(i_name i \<mapsto> (i_owner_id i, now'))\<rparr>"
proof -
  obtain i where i: "get_instance_tx uuid d = Inr i"
    using assms by (auto simp: rename_instance_def with_tx_Inr_iff result_simps)
  show thesis
  proof (cases "i_name i = new")
    case True
    then have "d' = d" using assms i by (simp add: rename_instance_def with_tx_Inr_iff)
    then show thesis by (rule that(1) [OF i True])
  next
    case False
    then obtain n d1 where c: "claim_name_tx new (i_owner_id i) cd now d = Inr ()"
        and u: "update_instances (\<lambda>r. i_uuid r = uuid) (\<lambda>r. r\<lparr>i_name := new\<rparr>) d = Inr (n, d1)"
        and r: "release_name_tx (i_name i) (i_owner_id i) now' d1 = Inr ((), d')"
      using assms i by (auto simp: rename_instance_def with_tx_Inr_iff result_simps)
    have "instances_unique (db_instances d1)"
        and d1: "d1 = d\<lparr>db_instances := map (\<lambda>r. if i_uuid r = uuid then r\<lparr>i_name := new\<rparr> else r) (db_instances d)\<rparr>"
      using u unfolding update_instances_Inr_iff by blast+
    moreover have d': "d' = d1\<lparr>db_released := (db_released d1)(i_name i \<mapsto> (i_owner_id i, now'))\<rparr>"
      using release_name_tx_InrD [OF r] by (rule conjunct1)
    ultimately have "instances_unique (db_instances d')" by simp
    then show thesis
      by (rule that(2) [OF i False c]) (simp add: d' d1)
  qed
qed

lemma resize_InrD:
  assumes "resize uuid vcpu m k nested cap d = (Inr u, d')"
  obtains i where "get_instance_tx uuid d = Inr i"
    "check_capacity_tx (i_host_id i) uuid m k cap d = Inr ()" "int m \<le> i64_max" "int k \<le> i64_max"
    "instances_unique (db_instances d')"
    "d' = d\<lparr>db_instances := map (\<lambda>r. if i_uuid r = uuid
       then r\<lparr>i_vcpu := vcpu, i_memory_mib := m, i_disk_gib := k, i_nested := nested\<rparr> else r) (db_instances d)\<rparr>"
  using assms
  by (auto simp: resize_def with_tx_Inr_iff result_simps update_instances_Inr_iff)

lemma update_instance_InrD:
  assumes "update_instance uuid f d = (Inr u, d')"
  shows "uuid \<in> i_uuid ` set (db_instances d)" "instances_unique (db_instances d')"
    "d' = d\<lparr>db_instances := map (\<lambda>r. if i_uuid r = uuid then f r else r) (db_instances d)\<rparr>"
  using assms
  by (auto simp: update_instance_def with_tx_Inr_iff result_simps update_instances_Inr_iff filter_empty_conv
      split: if_splits)

section \<open>Capacity\<close>

lemma host_total_append [simp]: "host_total sel h (xs @ ys) = host_total sel h xs + host_total sel h ys"
  by (simp add: host_total_def)

lemma host_total_single [simp]: "host_total sel h [i] = (if i_host_id i = h then sel i else 0)"
  by (simp add: host_total_def)

lemma host_total_filter_le: "host_total sel h (filter P xs) \<le> host_total sel h xs"
  by (induction xs) (auto simp: host_total_def)

lemma host_total_map_same:
  "(\<And>r. r \<in> set xs \<Longrightarrow> i_host_id (f r) = i_host_id r \<and> sel (f r) = sel r) \<Longrightarrow>
    host_total sel h (map f xs) = host_total sel h xs"
  by (induction xs) (auto simp: host_total_def)

text \<open>Replacing the figures of one row leaves the sum of the others and adds the new figure.\<close>

lemma host_total_update:
  assumes "distinct (map i_uuid xs)" "i \<in> set xs" "i_uuid i = uuid"
    and "\<And>r. i_host_id (f r) = i_host_id r"
  shows "host_total sel h (map (\<lambda>r. if i_uuid r = uuid then f r else r) xs) =
    sum_list (map sel (filter (\<lambda>r. i_host_id r = h \<and> i_uuid r \<noteq> uuid) xs)) +
    (if i_host_id i = h then sel (f i) else 0)"
  using assms
proof (induction xs)
  case (Cons r xs)
  show ?case
  proof (cases "i_uuid r = uuid")
    case True
    have "uuid \<notin> i_uuid ` set xs" using Cons.prems(1) True by simp
    then have rest: "i_uuid x \<noteq> uuid" if "x \<in> set xs" for x using that by blast
    then have "r = i" using Cons.prems(2,3) by auto
    moreover have "map (\<lambda>r. if i_uuid r = uuid then f r else r) xs = xs"
      using rest by (auto intro: map_idI)
    moreover have "filter (\<lambda>r. i_host_id r = h \<and> i_uuid r \<noteq> uuid) xs = filter (\<lambda>r. i_host_id r = h) xs"
      using rest by (auto intro: filter_cong)
    ultimately show ?thesis using True Cons.prems(4) by (simp add: host_total_def)
  next
    case False
    then have "i \<in> set xs" using Cons.prems(2,3) by auto
    then show ?thesis using Cons.IH Cons.prems False by (simp add: host_total_def)
  qed
qed simp

lemma check_resource_InrD:
  assumes "check_resource res used req c = Inr u" "int used \<le> i64_max" "int req \<le> i64_max"
  shows "\<not> exceeded_by c (used + req)"
  using assms
  by (cases c) (auto simp: saturating_add_u64_def i64_max_def u64_max_def split: if_splits)

lemma check_capacity_tx_InrD:
  assumes "check_capacity_tx h ex m k cap d = Inr u" "int m \<le> i64_max" "int k \<le> i64_max"
  shows "\<not> exceeded_by (cap_memory_mib cap)
      (sum_list (map i_memory_mib (filter (\<lambda>r. i_host_id r = h \<and> i_uuid r \<noteq> ex) (db_instances d))) + m)"
    "\<not> exceeded_by (cap_disk_gib cap)
      (sum_list (map i_disk_gib (filter (\<lambda>r. i_host_id r = h \<and> i_uuid r \<noteq> ex) (db_instances d))) + k)"
  using assms check_resource_InrD
  by (auto simp: check_capacity_tx_def Let_def result_simps)

lemma create_within_capacity:
  assumes "create_instance i cd cap now now' d = (Inr u, d')" "[] \<notin> i_uuid ` set (db_instances d)"
  shows "within_capacity cap (i_host_id i) (db_instances d')"
proof -
  note c = create_instance_InrD [OF assms(1)]
  have "filter (\<lambda>r. i_host_id r = i_host_id i \<and> i_uuid r \<noteq> []) (db_instances d) =
      filter (\<lambda>r. i_host_id r = i_host_id i) (db_instances d)"
    using assms(2) by (intro filter_cong) (force simp: image_iff)+
  then show ?thesis
    using check_capacity_tx_InrD [OF c(2-4)] by (simp add: within_capacity_def c(8) host_total_def)
qed

lemma resize_within_capacity:
  assumes "resize uuid vcpu m k nested cap d = (Inr u, d')" "distinct (map i_uuid (db_instances d))"
    "get_instance_tx uuid d = Inr i"
  shows "within_capacity cap (i_host_id i) (db_instances d')"
proof (rule resize_InrD [OF assms(1)])
  fix i'
  let ?f = "\<lambda>r. r\<lparr>i_vcpu := vcpu, i_memory_mib := m, i_disk_gib := k, i_nested := nested\<rparr>"
  assume i': "get_instance_tx uuid d = Inr i'"
    and c: "check_capacity_tx (i_host_id i') uuid m k cap d = Inr ()" "int m \<le> i64_max" "int k \<le> i64_max"
    and d': "d' = d\<lparr>db_instances := map (\<lambda>r. if i_uuid r = uuid then ?f r else r) (db_instances d)\<rparr>"
  have eq: "i' = i" using i' assms(3) by simp
  have i: "i \<in> set (db_instances d)" "i_uuid i = uuid" using get_instance_tx_InrD [OF assms(3)] by auto
  show ?thesis
    using check_capacity_tx_InrD [OF c] host_total_update [OF assms(2) i, where f = ?f]
    by (simp add: within_capacity_def d' eq)
qed

lemma within_capacity_antimono:
  assumes "within_capacity cap h is" "host_total i_memory_mib h js \<le> host_total i_memory_mib h is"
    "host_total i_disk_gib h js \<le> host_total i_disk_gib h is"
  shows "within_capacity cap h js"
proof -
  have "\<not> exceeded_by c m" if "\<not> exceeded_by c n" "m \<le> n" for c m n
    using that by (cases c) auto
  then show ?thesis using assms by (auto simp: within_capacity_def)
qed

lemma within_capacity_same:
  assumes "within_capacity cap h is" "\<And>r. i_host_id (f r) = i_host_id r \<and>
    i_memory_mib (f r) = i_memory_mib r \<and> i_disk_gib (f r) = i_disk_gib r"
  shows "within_capacity cap h (map (\<lambda>r. if P r then f r else r) is)"
  using assms by (simp add: within_capacity_def host_total_map_same)

section \<open>Lookups\<close>

lemma instance_of_Inr_iff:
  "distinct (map i_uuid (db_instances d)) \<Longrightarrow>
    instance_of uuid d = Inr i \<longleftrightarrow> i \<in> set (db_instances d) \<and> i_uuid i = uuid"
  by (simp add: instance_of_def with_conn_def find_key_iff)

lemma instance_by_name_Inr_iff:
  "distinct (map i_name (db_instances d)) \<Longrightarrow>
    instance_by_name name d = Inr i \<longleftrightarrow> i \<in> set (db_instances d) \<and> i_name i = name"
  by (simp add: instance_by_name_def with_conn_def find_key_iff)

lemma instance_of_NotFound_iff: "instance_of uuid d = Inl e \<longleftrightarrow> e = NotFound \<and> uuid \<notin> i_uuid ` set (db_instances d)"
  by (auto simp: instance_of_def with_conn_def find_key_None)

lemma instance_by_name_NotFound_iff:
  "instance_by_name name d = Inl e \<longleftrightarrow> e = NotFound \<and> name \<notin> i_name ` set (db_instances d)"
  by (auto simp: instance_by_name_def with_conn_def find_key_None)

lemma set_list_instances [simp]: "set (list_instances ft P d) = {i \<in> set (db_instances d). P i}"
  by (simp add: list_instances_def)

lemmas instance_eval = create_instance_def delete_instance_def rename_instance_def resize_def check_resize_def
  instance_of_def with_tx_def with_conn_def claim_name_tx_def release_name_tx_def get_instance_tx_def
  check_capacity_tx_def insert_instance_def update_instances_def instances_unique_def instance_refs_ok_def
  slot_owner_ok_def sql_sum_def to_sql_int_def limited_def saturating_add_u64_def i64_max_def u64_max_def
  sample_db1_def sample_db_def empty_db_def sample_instance_def

section \<open>Properties\<close>

text \<open>C9. A create that succeeds adds exactly one row: the instance is found under its
  UUID and under its name, every other instance is found as before, and no other
  table changes.  A create that fails, for whatever reason, leaves the database as
  it was.\<close>

theorem create_instance_effect:
  "case create_instance i cd cap now now' d of
     (Inr _, d') \<Rightarrow>
       instance_of (i_uuid i) d' = Inr (created_row i now') \<and>
       instance_by_name (i_name i) d' = Inr (created_row i now') \<and>
       (\<forall>uuid. uuid \<noteq> i_uuid i \<longrightarrow> instance_of uuid d' = instance_of uuid d) \<and>
       d' = d\<lparr>db_instances := db_instances d @ [created_row i now']\<rparr>
   | (Inl _, d') \<Rightarrow> d' = d"
proof (cases "create_instance i cd cap now now' d")
  case (Pair r d')
  show ?thesis
  proof (cases r)
    case (Inl e)
    then have "d' = d" using Pair by (simp add: create_instance_def with_tx_Inl_iff)
    then show ?thesis using Pair Inl by simp
  next
    case (Inr u)
    note c = create_instance_InrD [OF Pair [unfolded Inr]]
    have u: "distinct (map i_uuid (db_instances d'))" "distinct (map i_name (db_instances d'))"
      using c(5) by (simp_all add: c(8) instances_unique_def)
    have "instance_of uuid d' = instance_of uuid d" if "uuid \<noteq> i_uuid i" for uuid
      using that by (simp add: instance_of_def with_conn_def c(8) find_append split: option.splits)
    then show ?thesis
      using Pair Inr u by (simp add: instance_of_Inr_iff instance_by_name_Inr_iff) (simp add: c(8))
  qed
qed

theorem create_instance_effect_witness:
  "fst (create_instance sample_instance 10 (limited 4096 100) 20 21 sample_db) = Inr () \<and>
   instance_by_name ''web'' (snd (create_instance sample_instance 10 (limited 4096 100) 20 21 sample_db)) =
     Inr (created_row sample_instance 21)"
proof -
  have ok: "fst (create_instance sample_instance 10 (limited 4096 100) 20 21 sample_db) = Inr ()"
    by (simp add: instance_eval)
  have name: "i_name sample_instance = ''web''" by (simp add: sample_instance_def)
  show ?thesis
    using create_instance_effect [where i = sample_instance and cd = 10 and cap = "limited 4096 100"
        and now = 20 and now' = 21 and d = sample_db] ok
    by (cases "create_instance sample_instance 10 (limited 4096 100) 20 21 sample_db") (auto simp: name)
qed

text \<open>C30. A delete that succeeds removes the instance and its shares and releases its
  name to its owner: the row is found under neither key, no share of it is left, the
  owner may take the name again at once, and any other user is refused until the
  cooldown counted from the delete has passed, with the exact time left.\<close>

theorem delete_instance_releases_name:
  assumes "instances_unique (db_instances d)" "delete_instance uuid now d = (Inr i, d')"
    and "now \<le> later" "0 \<le> cd" "cd \<le> int u64_max"
  shows "instance_of uuid d = Inr i \<and> instance_of uuid d' = Inl NotFound \<and>
    instance_by_name (i_name i) d' = Inl NotFound \<and>
    (\<forall>s \<in> set (db_shares d'). sh_instance_uuid s \<noteq> uuid) \<and>
    claim_name (i_name i) (i_owner_id i) cd later d' = (Inr (), d') \<and>
    (\<forall>other. other \<noteq> i_owner_id i \<longrightarrow> claim_name (i_name i) other cd later d' =
      (if later < now + cd then Inl (NameCooldown (i_name i) (now + cd - later)) else Inr (), d'))"
proof -
  note del = delete_instance_InrD [OF assms(2)]
  have u: "distinct (map i_uuid (db_instances d))" "distinct (map i_name (db_instances d))"
    using assms(1) by (auto simp: instances_unique_def)
  have i: "i \<in> set (db_instances d)" "i_uuid i = uuid" using get_instance_tx_InrD [OF del(1)] by auto
  have gone: "i_name i \<notin> i_name ` {r \<in> set (db_instances d). i_uuid r \<noteq> uuid}"
  proof
    assume "i_name i \<in> i_name ` {r \<in> set (db_instances d). i_uuid r \<noteq> uuid}"
    then obtain r where "r \<in> set (db_instances d)" "i_uuid r \<noteq> uuid" "i_name r = i_name i" by force
    then show False using i u(2) by (auto dest: inj_onD simp: distinct_map)
  qed
  have "remaining_cooldown now later cd = (if later < now + cd then Some (now + cd - later) else None)"
    using assms(3-5) remaining_cooldown_Some_iff [of cd later now] remaining_cooldown_None [of now cd later]
    by auto
  then show ?thesis
    using i gone u
    by (auto simp: instance_of_Inr_iff instance_of_NotFound_iff instance_by_name_NotFound_iff del(3)
        claim_name_def with_tx_def claim_name_tx_def list_ex_iff image_iff)
qed

theorem delete_instance_releases_name_witness:
  "fst (delete_instance ''u1'' 30 sample_db1) = Inr sample_instance \<and>
   fst (claim_name ''web'' 2 100 40 (snd (delete_instance ''u1'' 30 sample_db1))) = Inl (NameCooldown ''web'' 90)"
proof -
  have ok: "fst (delete_instance ''u1'' 30 sample_db1) = Inr sample_instance" by (simp add: instance_eval)
  have u: "instances_unique (db_instances sample_db1)" by (simp add: instance_eval)
  obtain d' where d': "delete_instance ''u1'' 30 sample_db1 = (Inr sample_instance, d')"
    using ok by (cases "delete_instance ''u1'' 30 sample_db1") auto
  have "\<forall>other. other \<noteq> i_owner_id sample_instance \<longrightarrow> claim_name (i_name sample_instance) other 100 40 d' =
      (if 40 < 30 + (100::int) then Inl (NameCooldown (i_name sample_instance) (30 + 100 - 40)) else Inr (), d')"
    using delete_instance_releases_name [OF u d', of 40 100] by (simp add: u64_max_def)
  then show ?thesis using ok d' by (simp add: sample_instance_def)
qed



text \<open>C29. A rename moves the label and nothing else: on success the instance is found
  under the new name and, unless the names are equal, under the old one no longer;
  its other columns are unchanged and the old name is recorded as released by the
  owner.  On failure nothing changes.\<close>

theorem rename_instance_moves_label:
  assumes "instances_unique (db_instances d)"
  shows "case rename_instance uuid new cd now now' d of
      (Inr _, d') \<Rightarrow> (\<exists>i. instance_of uuid d = Inr i \<and>
        instance_of uuid d' = Inr (i\<lparr>i_name := new\<rparr>) \<and> instance_by_name new d' = Inr (i\<lparr>i_name := new\<rparr>) \<and>
        (i_name i \<noteq> new \<longrightarrow> instance_by_name (i_name i) d' = Inl NotFound \<and>
          db_released d' (i_name i) = Some (i_owner_id i, now')) \<and>
        (i_name i = new \<longrightarrow> d' = d))
    | (Inl _, d') \<Rightarrow> d' = d"
proof (cases "rename_instance uuid new cd now now' d")
  case (Pair r d')
  have u: "distinct (map i_uuid (db_instances d))" "distinct (map i_name (db_instances d))"
    using assms by (auto simp: instances_unique_def)
  show ?thesis
  proof (cases r)
    case (Inl e)
    then have "d' = d" using Pair by (simp add: rename_instance_def with_tx_Inl_iff)
    then show ?thesis using Pair Inl by simp
  next
    case (Inr v)
    show ?thesis
    proof (cases rule: rename_instance_InrD [OF Pair [unfolded Inr]])
      case (1 i)
      then have "i \<in> set (db_instances d)" "i_uuid i = uuid" "i\<lparr>i_name := new\<rparr> = i"
        using get_instance_tx_InrD by auto
      then show ?thesis using Pair Inr 1 u by (auto simp: instance_of_Inr_iff instance_by_name_Inr_iff)
    next
      case (2 i)
      let ?rows = "map (\<lambda>r. if i_uuid r = uuid then r\<lparr>i_name := new\<rparr> else r) (db_instances d)"
      have i: "i \<in> set (db_instances d)" "i_uuid i = uuid" using get_instance_tx_InrD [OF 2(1)] by auto
      have rows: "db_instances d' = ?rows" "db_released d' (i_name i) = Some (i_owner_id i, now')"
        by (simp_all add: 2(5))
      have new: "i\<lparr>i_name := new\<rparr> \<in> set ?rows" using i by (auto simp: image_iff intro!: bexI [of _ i])
      have old: "i_name i \<notin> i_name ` set ?rows"
      proof
        assume "i_name i \<in> i_name ` set ?rows"
        then obtain r where "r \<in> set (db_instances d)" "i_uuid r \<noteq> uuid" "i_name r = i_name i"
          using 2(2) by (auto split: if_splits)
        then show False using i u(2) by (auto dest: inj_onD simp: distinct_map)
      qed
      have "distinct (map i_uuid ?rows)" "distinct (map i_name ?rows)"
        using 2(4) by (simp_all only: rows(1) instances_unique_def)
      then show ?thesis
        using Pair Inr i u new old 2(2)
        by (auto simp: rows instance_of_Inr_iff instance_by_name_Inr_iff instance_by_name_NotFound_iff
            simp del: set_map)
    qed
  qed
qed

theorem rename_instance_moves_label_witness:
  "fst (rename_instance ''u1'' ''api'' 100 40 41 sample_db1) = Inr () \<and>
   instance_by_name ''api'' (snd (rename_instance ''u1'' ''api'' 100 40 41 sample_db1)) =
     Inr (sample_instance\<lparr>i_name := ''api''\<rparr>)"
proof -
  have ok: "fst (rename_instance ''u1'' ''api'' 100 40 41 sample_db1) = Inr ()" by (simp add: instance_eval)
  have u: "instances_unique (db_instances sample_db1)" by (simp add: instance_eval)
  have i: "instance_of ''u1'' sample_db1 = Inr sample_instance" by (simp add: instance_eval)
  show ?thesis
    using rename_instance_moves_label [OF u, where uuid = "''u1''" and new = "''api''" and cd = 100 and now = 40 and now' = 41] ok i
    by (cases "rename_instance ''u1'' ''api'' 100 40 41 sample_db1") auto
qed

end
