(* ===== verification/Store_Runners.thy ===== *)
theory Store_Runners
  imports Store_Instances Net_Prefix
begin

text \<open>
  Runners, slots and the controller lease, the first part of
  \<open>crates/store/src/runners.rs\<close>.

  The deployment row gives the slot width, the slot rows give the owner of each
  subprefix, and the lease row says which controller may dispatch.  \<open>renew_lease\<close>
  compares two timestamps as text, so it takes \<open>format_time\<close>.  A counter that
  leaves \<open>i64\<close> becomes a floating value in SQLite, which the code cannot read back
  as an integer: that is the error \<open>Sqlite\<close> and rolls the transaction back.
\<close>

section \<open>Definitions\<close>

definition deployment_of :: "db \<Rightarrow> (store_error, deployment) result" where
  "deployment_of = with_conn (\<lambda>d. Inr \<lparr>d_runner_prefix = db_runner_prefix d\<rparr>)"

definition slot_of_address :: "string \<Rightarrow> nat \<Rightarrow> nat option" where
  "slot_of_address address shift =
    map_option (\<lambda>octet. octet div 2 ^ shift) (parse_uint u8_max (last (split_on CHR ''.'' address)))"

definition slot_refs_ok :: "db \<Rightarrow> slot \<Rightarrow> bool" where
  "slot_refs_ok d r \<longleftrightarrow>
    s_owner_host_id r \<in> h_id ` set (db_hosts d) \<and>
    (\<forall>h. s_source_host_id r = Some h \<longrightarrow> h \<in> h_id ` set (db_hosts d)) \<and>
    (\<forall>h. s_destination_host_id r = Some h \<longrightarrow> h \<in> h_id ` set (db_hosts d))"

definition children :: "nat \<Rightarrow> nat \<Rightarrow> nat \<Rightarrow> nat list" where
  "children old new slot =
    (if new > old then (let ratio = 2 ^ (new - old) in map (\<lambda>k. slot * ratio + k) [0..<ratio])
     else [slot div 2 ^ (old - new)])"

definition place_child :: "nat \<Rightarrow> slot \<Rightarrow> nat \<Rightarrow> slot list \<Rightarrow> (store_error, slot list) result" where
  "place_child new row slot next =
    (case find (\<lambda>existing. s_slot existing = slot) next of
       None \<Rightarrow> Inr (next @ [row\<lparr>s_slot := slot\<rparr>])
     | Some existing \<Rightarrow>
         if s_owner_host_id existing = s_owner_host_id row \<and> s_state existing = s_state row
         then Inr next else Inl (RunnerPrefixSplitsOwners new slot))"

definition renumbered :: "nat \<Rightarrow> nat \<Rightarrow> slot list \<Rightarrow> (store_error, slot list) result" where
  "renumbered old new rows =
    try_fold (\<lambda>row next. try_fold (place_child new row) (children old new (s_slot row)) next)
      (sort_key s_slot rows) []"

definition insert_slot :: "slot \<Rightarrow> db \<Rightarrow> (store_error, db) result" where
  "insert_slot r d =
    and_then (to_sql_int (s_slot r)) (\<lambda>_.
      if s_slot r \<notin> s_slot ` set (db_slots d) \<and> slot_refs_ok d r
      then Inr (d\<lparr>db_slots := db_slots d @ [r]\<rparr>) else Inl Sqlite)"

definition renumber_slots :: "nat \<Rightarrow> nat \<Rightarrow> db \<Rightarrow> (store_error, db) result" where
  "renumber_slots old new d =
    and_then (renumbered old new (db_slots d)) (\<lambda>next.
    and_then (update_instances (\<lambda>r. True) (\<lambda>r. r\<lparr>i_slot := None\<rparr>) d) (\<lambda>(_, d1).
    and_then (try_fold insert_slot next (d1\<lparr>db_slots := []\<rparr>)) (\<lambda>d2.
      let shift = 8 - (new - 24);
          held = map (\<lambda>i. (i_uuid i, i_address i)) (db_instances d2) in
      try_fold (\<lambda>(uuid, address) d.
        case slot_of_address address shift of
          None \<Rightarrow> Inr d
        | Some slot \<Rightarrow>
            and_then (to_sql_int slot) (\<lambda>_.
            and_then (update_instances (\<lambda>r. i_uuid r = uuid) (\<lambda>r. r\<lparr>i_slot := Some slot\<rparr>) d)
              (\<lambda>(_, d'). Inr d'))) held d2)))"

definition set_runner_prefix :: "nat \<Rightarrow> db \<Rightarrow> (store_error, deployment) result \<times> db" where
  "set_runner_prefix prefix d0 =
    (if \<not> (24 \<le> prefix \<and> prefix \<le> 27) then (Inl (RunnerPrefix prefix), d0)
     else with_tx (\<lambda>d.
       let dep = \<lparr>d_runner_prefix = prefix\<rparr>; old = db_runner_prefix d in
       and_then
         (case db_slots d of
            [] \<Rightarrow> Inr ()
          | r # rs \<Rightarrow> (let highest = foldr max (map s_slot (r # rs)) 0 in
              if highest \<ge> deployment_slot_count dep then Inl (RunnerPrefixStrandsSlot prefix highest)
              else Inr ())) (\<lambda>_.
       and_then (if old \<noteq> prefix then renumber_slots old prefix d else Inr d) (\<lambda>d1.
         Inr (dep, d1\<lparr>db_runner_prefix := prefix\<rparr>)))) d0)"

definition acquire_lease ::
  "string \<Rightarrow> duration \<Rightarrow> time \<Rightarrow> db \<Rightarrow> (store_error, lease) result \<times> db" where
  "acquire_lease holder_id ttl now = with_tx (\<lambda>d.
    let row = db_lease d in
    and_then
      (case (lr_holder_id row, lr_expires_at row) of
         (Some holder, Some expires_at) \<Rightarrow>
           if holder \<noteq> holder_id \<and> expires_at > now then Inl (LeaseHeld holder expires_at) else Inr ()
       | _ \<Rightarrow> Inr ()) (\<lambda>_.
    if lr_epoch row = i64_max then Inl Sqlite
    else
      let expires_at = now + ttl; epoch = lr_epoch row + 1 in
      Inr (\<lparr>l_holder_id = holder_id, l_epoch = epoch, l_expires_at = expires_at\<rparr>,
           d\<lparr>db_lease := \<lparr>lr_holder_id = Some holder_id, lr_epoch = epoch, lr_expires_at = Some expires_at\<rparr>\<rparr>)))"

definition saturating_mul_i64 :: "int \<Rightarrow> int \<Rightarrow> int" where
  "saturating_mul_i64 a b = max (- i64_max - 1) (min i64_max (a * b))"

definition wrapping_i64 :: "int \<Rightarrow> int" where
  "wrapping_i64 v = (v + i64_max + 1) mod (2 * (i64_max + 1)) - i64_max - 1"

definition next_dispatch_generation :: "string \<Rightarrow> int \<Rightarrow> db \<Rightarrow> (store_error, int) result \<times> db" where
  "next_dispatch_generation object_id epoch =
    (let floor = saturating_mul_i64 epoch 1000000; excluded = wrapping_i64 (floor + 1) in
     with_tx (\<lambda>d.
       and_then
         (case db_generations d object_id of
            None \<Rightarrow> Inr excluded
          | Some g \<Rightarrow> if g = i64_max then Inl Sqlite else Inr (max (g + 1) excluded)) (\<lambda>generation.
         Inr (generation, d\<lparr>db_generations := (db_generations d)(object_id \<mapsto> generation)\<rparr>))))"

definition lease_of :: "db \<Rightarrow> (store_error, lease option) result" where
  "lease_of = with_conn (\<lambda>d.
    case (lr_holder_id (db_lease d), lr_expires_at (db_lease d)) of
      (Some holder_id, Some expires_at) \<Rightarrow>
        Inr (Some \<lparr>l_holder_id = holder_id, l_epoch = lr_epoch (db_lease d), l_expires_at = expires_at\<rparr>)
    | _ \<Rightarrow> Inr None)"

definition renew_lease ::
  "(time \<Rightarrow> string) \<Rightarrow> string \<Rightarrow> duration \<Rightarrow> time \<Rightarrow> db \<Rightarrow> (store_error, lease) result \<times> db" where
  "renew_lease format_time holder_id ttl now = with_tx (\<lambda>d.
    let row = db_lease d; expires_at = now + ttl in
    case lr_expires_at row of
      None \<Rightarrow> Inl LeaseLost
    | Some expires \<Rightarrow>
        if lr_holder_id row = Some holder_id \<and> format_time expires > format_time now
        then Inr (\<lparr>l_holder_id = holder_id, l_epoch = lr_epoch row, l_expires_at = expires_at\<rparr>,
                  d\<lparr>db_lease := row\<lparr>lr_expires_at := Some expires_at\<rparr>\<rparr>)
        else Inl LeaseLost)"

definition release_lease :: "string \<Rightarrow> db \<Rightarrow> (store_error, unit) result \<times> db" where
  "release_lease holder_id = with_tx (\<lambda>d.
    if lr_holder_id (db_lease d) = Some holder_id
    then Inr ((), d\<lparr>db_lease := (db_lease d)\<lparr>lr_holder_id := None, lr_expires_at := None\<rparr>\<rparr>)
    else Inr ((), d))"

definition hosts :: "db \<Rightarrow> host list" where
  "hosts d = sort_key h_id (db_hosts d)"

definition register_runner ::
  "string \<Rightarrow> string \<Rightarrow> string \<Rightarrow> time \<Rightarrow> db \<Rightarrow> (store_error, host) result \<times> db" where
  "register_runner name endpoint underlay now = with_tx (\<lambda>d.
    case find (\<lambda>h. h_name h = name) (db_hosts d) of
      None \<Rightarrow>
        (let row = \<lparr>h_id = next_rowid (map h_id (db_hosts d)), h_machine_id = None, h_name = name,
               h_libvirt_uri = [], h_endpoint = Some endpoint, h_underlay = Some underlay,
               h_enabled = True, h_placement = PActive, h_created_at = now\<rparr> in
         Inr (row, d\<lparr>db_hosts := db_hosts d @ [row]\<rparr>))
    | Some h \<Rightarrow>
        (let f = (\<lambda>r. r\<lparr>h_endpoint := Some endpoint, h_underlay := Some underlay\<rparr>) in
         Inr (f h, d\<lparr>db_hosts := map (\<lambda>r. if h_name r = name then f r else r) (db_hosts d)\<rparr>)))"

definition slots_of :: "db \<Rightarrow> slot list" where
  "slots_of d = sort_key s_slot (db_slots d)"

definition occupants :: "nat \<Rightarrow> int \<Rightarrow> nat \<Rightarrow> vm_instance list \<Rightarrow> vm_instance list" where
  "occupants slot host_id shift is =
    filter (\<lambda>i. i_slot i \<noteq> None \<and> i_host_id i \<noteq> host_id \<and> slot_of_address (i_address i) shift = Some slot) is"

definition claim_slot :: "nat \<Rightarrow> int \<Rightarrow> db \<Rightarrow> (store_error, slot) result \<times> db" where
  "claim_slot slot host_id = with_tx (\<lambda>d.
    let prefix = db_runner_prefix d; count = deployment_slot_count \<lparr>d_runner_prefix = prefix\<rparr> in
    if slot \<ge> count then Inl (NoSuchSlot slot count)
    else
      let shift = 8 - (prefix - 24);
          occupied = length (occupants slot host_id shift (db_instances d)) in
      if occupied > 0 then Inl (SlotInUse slot occupied)
      else case find (\<lambda>r. s_slot r = slot) (db_slots d) of
        None \<Rightarrow>
          (let row = \<lparr>s_slot = slot, s_state = SActive, s_owner_host_id = host_id, s_ownership_epoch = 0,
                 s_source_host_id = None, s_destination_host_id = None, s_operation_id = None\<rparr> in
           and_then (insert_slot row d) (\<lambda>d1. Inr (row, d1)))
      | Some r \<Rightarrow>
          if s_owner_host_id r = host_id then Inr (r, d)
          else if host_id \<notin> h_id ` set (db_hosts d) \<or> s_ownership_epoch r = i64_max then Inl Sqlite
          else
            (let row = \<lparr>s_slot = slot, s_state = SActive, s_owner_host_id = host_id,
                   s_ownership_epoch = s_ownership_epoch r + 1,
                   s_source_host_id = None, s_destination_host_id = None, s_operation_id = None\<rparr> in
             Inr (row, d\<lparr>db_slots := map (\<lambda>x. if s_slot x = slot then row else x) (db_slots d)\<rparr>)))"

text \<open>The machine that owns a host octet under a runner prefix.\<close>

definition octet_owner :: "nat \<Rightarrow> slot list \<Rightarrow> nat \<Rightarrow> int option" where
  "octet_owner prefix rows x =
    map_option s_owner_host_id (find (\<lambda>r. s_slot r = x div 2 ^ (8 - (prefix - 24))) rows)"

datatype lease_op = Acquire string duration time | Renew string duration time | Release string

fun lease_step :: "(time \<Rightarrow> string) \<Rightarrow> lease_op \<Rightarrow> db \<Rightarrow> (store_error, lease option) result \<times> db" where
  "lease_step ft (Acquire h ttl now) d = (case acquire_lease h ttl now d of
     (Inl e, d') \<Rightarrow> (Inl e, d') | (Inr l, d') \<Rightarrow> (Inr (Some l), d'))"
| "lease_step ft (Renew h ttl now) d = (case renew_lease ft h ttl now d of
     (Inl e, d') \<Rightarrow> (Inl e, d') | (Inr l, d') \<Rightarrow> (Inr (Some l), d'))"
| "lease_step ft (Release h) d = (case release_lease h d of
     (Inl e, d') \<Rightarrow> (Inl e, d') | (Inr _, d') \<Rightarrow> (Inr None, d'))"

fun is_acquire :: "lease_op \<Rightarrow> bool" where
  "is_acquire (Acquire h ttl now) = True"
| "is_acquire (Renew h ttl now) = False"
| "is_acquire (Release h) = False"

text \<open>The leases a sequence of operations hands out, each with whether it was acquired.\<close>

fun lease_run :: "(time \<Rightarrow> string) \<Rightarrow> lease_op list \<Rightarrow> db \<Rightarrow> (bool \<times> lease) list" where
  "lease_run ft [] d = []"
| "lease_run ft (x # xs) d = (case lease_step ft x d of
     (Inr (Some l), d') \<Rightarrow> (is_acquire x, l) # lease_run ft xs d'
   | (_, d') \<Rightarrow> lease_run ft xs d')"

text \<open>A lease \<open>m\<close> handed out from a database or later: its epoch is no lower, it is higher when
  the lease was acquired, and an unchanged epoch means an unchanged holder.\<close>

definition lease_after :: "db \<Rightarrow> bool \<Rightarrow> lease \<Rightarrow> bool" where
  "lease_after d acquired m \<longleftrightarrow> lr_epoch (db_lease d) \<le> l_epoch m \<and>
    (acquired \<longrightarrow> lr_epoch (db_lease d) < l_epoch m) \<and>
    (lr_epoch (db_lease d) = l_epoch m \<longrightarrow> lr_holder_id (db_lease d) = Some (l_holder_id m))"

definition lease_order :: "bool \<times> lease \<Rightarrow> bool \<times> lease \<Rightarrow> bool" where
  "lease_order x y \<longleftrightarrow> l_epoch (snd x) \<le> l_epoch (snd y) \<and>
    (fst y \<longrightarrow> l_epoch (snd x) < l_epoch (snd y)) \<and>
    (l_epoch (snd x) = l_epoch (snd y) \<longrightarrow> l_holder_id (snd x) = l_holder_id (snd y))"

section \<open>The lease\<close>

lemma acquire_lease_Inr_iff:
  "acquire_lease h ttl now d = (Inr l, d') \<longleftrightarrow>
    (\<forall>h' e. lr_holder_id (db_lease d) = Some h' \<and> lr_expires_at (db_lease d) = Some e \<longrightarrow> h' = h \<or> e \<le> now) \<and>
    lr_epoch (db_lease d) \<noteq> i64_max \<and>
    l = \<lparr>l_holder_id = h, l_epoch = lr_epoch (db_lease d) + 1, l_expires_at = now + ttl\<rparr> \<and>
    d' = d\<lparr>db_lease := \<lparr>lr_holder_id = Some h, lr_epoch = lr_epoch (db_lease d) + 1,
      lr_expires_at = Some (now + ttl)\<rparr>\<rparr>"
  by (auto simp: acquire_lease_def with_tx_Inr_iff Let_def split: option.splits)

lemma renew_lease_Inr_iff:
  "renew_lease ft h ttl now d = (Inr l, d') \<longleftrightarrow>
    (\<exists>e. lr_holder_id (db_lease d) = Some h \<and> lr_expires_at (db_lease d) = Some e \<and> ft now < ft e \<and>
      l = \<lparr>l_holder_id = h, l_epoch = lr_epoch (db_lease d), l_expires_at = now + ttl\<rparr> \<and>
      d' = d\<lparr>db_lease := (db_lease d)\<lparr>lr_expires_at := Some (now + ttl)\<rparr>\<rparr>)"
  by (auto simp: renew_lease_def with_tx_Inr_iff Let_def split: option.splits if_splits)

lemma release_lease_eq:
  "release_lease h d = (Inr (), if lr_holder_id (db_lease d) = Some h
     then d\<lparr>db_lease := (db_lease d)\<lparr>lr_holder_id := None, lr_expires_at := None\<rparr>\<rparr> else d)"
  by (simp add: release_lease_def with_tx_def)

lemma lease_step_cases:
  assumes "lease_step ft x d = (r, d')"
  obtains (failed) e where "r = Inl e" "d' = d"
    | (granted) h l ttl now where "r = Inr (Some l)" "x = Acquire h ttl now" "acquire_lease h ttl now d = (Inr l, d')"
    | (renewed) h l ttl now where "r = Inr (Some l)" "x = Renew h ttl now" "renew_lease ft h ttl now d = (Inr l, d')"
    | (released) h where "r = Inr None" "x = Release h" "release_lease h d = (Inr (), d')"
proof (cases x)
  case (Acquire h ttl now)
  obtain q e where q: "acquire_lease h ttl now d = (q, e)" by (cases "acquire_lease h ttl now d")
  show thesis
  proof (cases q)
    case (Inl err)
    then have "e = d" using q by (simp add: acquire_lease_def with_tx_Inl_iff)
    then show thesis using that(1) [of err] assms q Acquire Inl by auto
  qed (use that(2) assms q Acquire in auto)
next
  case (Renew h ttl now)
  obtain q e where q: "renew_lease ft h ttl now d = (q, e)" by (cases "renew_lease ft h ttl now d")
  show thesis
  proof (cases q)
    case (Inl err)
    then have "e = d" using q by (simp add: renew_lease_def with_tx_Inl_iff)
    then show thesis using that(1) [of err] assms q Renew Inl by auto
  qed (use that(3) assms q Renew in auto)
next
  case (Release h)
  then show thesis using that(4) assms by (simp add: release_lease_eq)
qed

lemma lease_step_after:
  assumes "lease_step ft x d = (r, d')"
  shows "lease_after d' a m \<Longrightarrow> lease_after d a m"
    and "r = Inr (Some l) \<Longrightarrow> lease_after d (is_acquire x) l \<and>
      lr_epoch (db_lease d') = l_epoch l \<and> lr_holder_id (db_lease d') = Some (l_holder_id l)"
proof -
  show "lease_after d a m" if m: "lease_after d' a m"
    using assms
  proof (cases rule: lease_step_cases)
    case granted
    then show ?thesis using m by (auto simp: lease_after_def acquire_lease_Inr_iff)
  next
    case renewed
    then show ?thesis using m by (auto simp: lease_after_def renew_lease_Inr_iff)
  next
    case released
    then show ?thesis using m by (auto simp: lease_after_def release_lease_eq split: if_splits)
  qed (use m in simp)
  show "lease_after d (is_acquire x) l \<and> lr_epoch (db_lease d') = l_epoch l \<and>
      lr_holder_id (db_lease d') = Some (l_holder_id l)" if l: "r = Inr (Some l)"
    using assms
  proof (cases rule: lease_step_cases)
    case granted
    then show ?thesis using l by (simp add: lease_after_def acquire_lease_Inr_iff)
  next
    case renewed
    then show ?thesis using l by (auto simp: lease_after_def renew_lease_Inr_iff)
  qed (use l in simp_all)
qed

lemma lease_run_after: "(a, m) \<in> set (lease_run ft xs d) \<Longrightarrow> lease_after d a m"
proof (induction xs arbitrary: d)
  case (Cons x xs)
  obtain r d' where s: "lease_step ft x d = (r, d')" by (cases "lease_step ft x d")
  then have "(a, m) \<in> set (lease_run ft xs d') \<or> (r = Inr (Some m) \<and> a = is_acquire x)"
    using Cons.prems by (auto split: sum.splits option.splits)
  then show ?case using Cons.IH lease_step_after [OF s] by blast
qed simp

lemma lease_run_ordered: "sorted_wrt lease_order (lease_run ft xs d)"
proof (induction xs arbitrary: d)
  case (Cons x xs)
  obtain r d' where s: "lease_step ft x d = (r, d')" by (cases "lease_step ft x d")
  have "lease_order (is_acquire x, l) y" if "r = Inr (Some l)" "y \<in> set (lease_run ft xs d')" for l y
    using lease_run_after [of "fst y" "snd y" ft xs d'] lease_step_after(2) [OF s that(1)] that(2)
    by (auto simp: lease_after_def lease_order_def)
  then show ?case using s Cons.IH by (auto split: sum.splits option.splits)
qed simp

section \<open>Generations\<close>

lemma dispatch_floor:
  assumes "0 \<le> epoch" "epoch * 1000000 < i64_max"
  shows "wrapping_i64 (saturating_mul_i64 epoch 1000000 + 1) = epoch * 1000000 + 1"
  using assms by (simp add: wrapping_i64_def saturating_mul_i64_def i64_max_def)

lemma next_dispatch_generation_Inr:
  assumes "next_dispatch_generation obj epoch d = (Inr g, d')" "0 \<le> epoch" "epoch * 1000000 < i64_max"
  shows "g = (case db_generations d obj of None \<Rightarrow> epoch * 1000000 + 1 | Some k \<Rightarrow> max (k + 1) (epoch * 1000000 + 1))"
    "d' = d\<lparr>db_generations := (db_generations d)(obj \<mapsto> g)\<rparr>"
  using assms(1)
  by (auto simp: next_dispatch_generation_def Let_def with_tx_Inr_iff result_simps dispatch_floor [OF assms(2,3)]
      split: option.splits if_splits)

section \<open>Slots\<close>

lemma slot_of_address_show:
  "slot_of_address (show_ipv4 a) k = Some (unat a mod 256 div 2 ^ k)"
proof -
  have "last (split_on CHR ''.'' (show_ipv4 a)) = show_nat (octet 0 a)"
    by (simp add: show_ipv4_def text_simps)
  then have "slot_of_address (show_ipv4 a) k = Some (octet 0 a div 2 ^ k)"
    by (simp add: slot_of_address_def parse_uint_show_nat octet_le)
  then show ?thesis by (simp add: unat_octet)
qed

lemma place_child_InrD:
  assumes "place_child new row c next = Inr next'" "distinct (map s_slot next)"
  shows "distinct (map s_slot next')" "set next \<subseteq> set next'" "set next' \<subseteq> insert (row\<lparr>s_slot := c\<rparr>) (set next)"
    "\<exists>n \<in> set next'. s_slot n = c \<and> s_owner_host_id n = s_owner_host_id row \<and> s_state n = s_state row"
  using assms
  by (auto simp: place_child_def find_key_None find_Some_iff image_iff split: option.splits if_splits)

lemma place_children_InrD:
  assumes "try_fold (place_child new row) cs next = Inr next'" "distinct (map s_slot next)"
  shows "distinct (map s_slot next') \<and> set next \<subseteq> set next' \<and>
    set next' \<subseteq> set next \<union> (\<lambda>c. row\<lparr>s_slot := c\<rparr>) ` set cs \<and>
    (\<forall>c \<in> set cs. \<exists>n \<in> set next'. s_slot n = c \<and> s_owner_host_id n = s_owner_host_id row \<and> s_state n = s_state row)"
  using assms
proof (induction cs arbitrary: "next")
  case (Cons c cs)
  then obtain n1 where n1: "place_child new row c next = Inr n1" "try_fold (place_child new row) cs n1 = Inr next'"
    by (auto simp: result_simps)
  note p = place_child_InrD [OF n1(1) Cons.prems(2)]
  note q = Cons.IH [OF n1(2) p(1)]
  have "set next' \<subseteq> set next \<union> (\<lambda>c. row\<lparr>s_slot := c\<rparr>) ` set (c # cs)" using p(3) q by auto
  moreover have "\<exists>n \<in> set next'. s_slot n = c \<and> s_owner_host_id n = s_owner_host_id row \<and> s_state n = s_state row"
    using p(4) q by blast
  moreover have "set next \<subseteq> set next'" using p(2) q by blast
  ultimately show ?case using q by simp
qed simp

lemma renumber_fold_InrD:
  assumes "try_fold (\<lambda>row next. try_fold (place_child new row) (children old new (s_slot row)) next) rows next = Inr next'"
    "distinct (map s_slot next)"
  shows "distinct (map s_slot next') \<and> set next \<subseteq> set next' \<and>
    (\<forall>n \<in> set next'. n \<in> set next \<or> (\<exists>row \<in> set rows. \<exists>c \<in> set (children old new (s_slot row)). n = row\<lparr>s_slot := c\<rparr>)) \<and>
    (\<forall>row \<in> set rows. \<forall>c \<in> set (children old new (s_slot row)).
      \<exists>n \<in> set next'. s_slot n = c \<and> s_owner_host_id n = s_owner_host_id row \<and> s_state n = s_state row)"
  using assms
proof (induction rows arbitrary: "next")
  case (Cons row rows)
  then obtain n1 where n1: "try_fold (place_child new row) (children old new (s_slot row)) next = Inr n1"
      "try_fold (\<lambda>row next. try_fold (place_child new row) (children old new (s_slot row)) next) rows n1 = Inr next'"
    by (auto simp: result_simps)
  note p = place_children_InrD [OF n1(1) Cons.prems(2)]
  note q = Cons.IH [OF n1(2) conjunct1 [OF p]]
  have "n \<in> set next \<or> (\<exists>r \<in> set (row # rows). \<exists>c \<in> set (children old new (s_slot r)). n = r\<lparr>s_slot := c\<rparr>)"
    if n: "n \<in> set next'" for n
  proof (cases "n \<in> set n1")
    case True
    then have "n \<in> set next \<union> (\<lambda>c. row\<lparr>s_slot := c\<rparr>) ` set (children old new (s_slot row))" using p by blast
    then show ?thesis by auto
  next
    case False
    then show ?thesis using n q by auto
  qed
  moreover have "\<forall>c \<in> set (children old new (s_slot row)). \<exists>n \<in> set next'.
      s_slot n = c \<and> s_owner_host_id n = s_owner_host_id row \<and> s_state n = s_state row"
    using p q by blast
  moreover have "set next \<subseteq> set next'" using p q by blast
  ultimately show ?case using q by simp
qed simp

lemma renumbered_InrD:
  assumes "renumbered old new rows = Inr next"
  shows "distinct (map s_slot next)"
    "\<And>n. n \<in> set next \<Longrightarrow> \<exists>row \<in> set rows. \<exists>c \<in> set (children old new (s_slot row)). n = row\<lparr>s_slot := c\<rparr>"
    "\<And>row c. row \<in> set rows \<Longrightarrow> c \<in> set (children old new (s_slot row)) \<Longrightarrow>
      \<exists>n \<in> set next. s_slot n = c \<and> s_owner_host_id n = s_owner_host_id row \<and> s_state n = s_state row"
proof -
  note R = renumber_fold_InrD [OF assms [unfolded renumbered_def], simplified]
  show "distinct (map s_slot next)" using R by blast
  show "\<exists>row \<in> set rows. \<exists>c \<in> set (children old new (s_slot row)). n = row\<lparr>s_slot := c\<rparr>"
    if "n \<in> set next" for n using R that by blast
  show "\<exists>n \<in> set next. s_slot n = c \<and> s_owner_host_id n = s_owner_host_id row \<and> s_state n = s_state row"
    if "row \<in> set rows" "c \<in> set (children old new (s_slot row))" for row c using R that by blast
qed

text \<open>The slot of a host octet under the new prefix is a child of its slot under the old one.\<close>

lemma octet_child:
  assumes "24 \<le> old" "old \<le> 27" "24 \<le> new" "new \<le> 27"
  shows "x div 2 ^ (8 - (new - 24)) \<in> set (children old new (x div 2 ^ (8 - (old - 24))))"
proof (cases "new > old")
  case True
  let ?w = "2 ^ (8 - (new - 24)) :: nat" and ?q = "2 ^ (new - old) :: nat"
  have "8 - (old - 24) = (8 - (new - 24)) + (new - old)" using assms True by simp
  then have w: "2 ^ (8 - (old - 24)) = ?w * ?q" by (simp only: power_add)
  have "x div ?w = x div 2 ^ (8 - (old - 24)) * ?q + x div ?w mod ?q"
    by (simp only: w div_mult2_eq div_mult_mod_eq)
  moreover have "x div ?w mod ?q < ?q" by simp
  ultimately obtain k where "k < ?q" "x div ?w = x div 2 ^ (8 - (old - 24)) * ?q + k" by blast
  then show ?thesis using True by (simp add: children_def Let_def)
next
  case False
  have "8 - (new - 24) = (8 - (old - 24)) + (old - new)" using assms False by simp
  then have "x div 2 ^ (8 - (new - 24)) = x div 2 ^ (8 - (old - 24)) div 2 ^ (old - new)"
    by (simp only: power_add div_mult2_eq)
  then show ?thesis using False by (simp add: children_def)
qed

lemma slot_owner_ok_cong: "db_slots d = db_slots d' \<Longrightarrow> slot_owner_ok d = slot_owner_ok d'"
  by (simp add: slot_owner_ok_def fun_eq_iff cong: option.case_cong)

lemma insert_slot_InrD: "insert_slot r d = Inr d' \<Longrightarrow> d' = d\<lparr>db_slots := db_slots d @ [r]\<rparr>"
  by (auto simp: insert_slot_def result_simps split: if_splits)

lemma insert_slots_InrD:
  "try_fold insert_slot rows d = Inr d' \<Longrightarrow> d' = d\<lparr>db_slots := db_slots d @ rows\<rparr>"
proof (induction rows arbitrary: d)
  case (Cons r rows)
  then obtain d1 where d1: "insert_slot r d = Inr d1" "try_fold insert_slot rows d1 = Inr d'"
    by (auto simp: result_simps)
  show ?case using Cons.IH [OF d1(2)] by (simp add: insert_slot_InrD [OF d1(1)])
qed simp

text \<open>The instance after its slot was recomputed from its address.\<close>

definition reslotted :: "nat \<Rightarrow> vm_instance \<Rightarrow> vm_instance" where
  "reslotted k i = (case slot_of_address (i_address i) k of None \<Rightarrow> i | Some s \<Rightarrow> i\<lparr>i_slot := Some s\<rparr>)"

lemma reslotted_simps [simp]:
  "i_uuid (reslotted k i) = i_uuid i" "i_address (reslotted k i) = i_address i"
  "i_host_id (reslotted k i) = i_host_id i" "i_name (reslotted k i) = i_name i"
  "i_mac (reslotted k i) = i_mac i" "i_memory_mib (reslotted k i) = i_memory_mib i"
  "i_disk_gib (reslotted k i) = i_disk_gib i" "i_owner_id (reslotted k i) = i_owner_id i"
  by (auto simp: reslotted_def split: option.splits)

abbreviation reslot_step :: "nat \<Rightarrow> string \<times> string \<Rightarrow> db \<Rightarrow> (store_error, db) result" where
  "reslot_step k \<equiv> (\<lambda>(uuid, address) d.
     case slot_of_address address k of
       None \<Rightarrow> Inr d
     | Some slot \<Rightarrow>
         and_then (to_sql_int slot) (\<lambda>_.
         and_then (update_instances (\<lambda>r. i_uuid r = uuid) (\<lambda>r. r\<lparr>i_slot := Some slot\<rparr>) d)
           (\<lambda>(_, d'). Inr d')))"

lemma reslot_step_InrD:
  assumes "reslot_step k (uuid, address) d = Inr d'"
    "\<forall>i \<in> set (db_instances d). i_uuid i = uuid \<longrightarrow> i_address i = address"
  shows "d' = d\<lparr>db_instances := map (\<lambda>i. if i_uuid i = uuid then reslotted k i else i) (db_instances d)\<rparr>"
    "\<And>i. i \<in> set (db_instances d) \<Longrightarrow> i_uuid i = uuid \<Longrightarrow> slot_of_address address k \<noteq> None \<Longrightarrow>
      slot_owner_ok d (reslotted k i)"
proof -
  have eq: "map (\<lambda>i. if i_uuid i = uuid then reslotted k i else i) (db_instances d) =
    map (\<lambda>i. if i_uuid i = uuid then (case slot_of_address address k of None \<Rightarrow> i | Some s \<Rightarrow> i\<lparr>i_slot := Some s\<rparr>) else i)
      (db_instances d)"
    using assms(2) by (simp add: reslotted_def)
  show "d' = d\<lparr>db_instances := map (\<lambda>i. if i_uuid i = uuid then reslotted k i else i) (db_instances d)\<rparr>"
  proof (cases "slot_of_address address k")
    case None
    then have "map (\<lambda>i. if i_uuid i = uuid then reslotted k i else i) (db_instances d) = db_instances d"
      using assms(2) by (auto simp: reslotted_def intro!: map_idI)
    then show ?thesis using None assms(1) by simp
  next
    case (Some s)
    then show ?thesis unfolding eq using assms(1) by (auto simp: result_simps update_instances_Inr_iff)
  qed
  show "slot_owner_ok d (reslotted k i)"
    if i: "i \<in> set (db_instances d)" "i_uuid i = uuid" "slot_of_address address k \<noteq> None" for i
    using assms i
    by (auto simp: result_simps update_instances_Inr_iff list_all_iff reslotted_def)
qed

lemma reslot_fold_InrD:
  assumes "try_fold (reslot_step k) held d = Inr d'"
    "\<forall>(uuid, address) \<in> set held. \<forall>i \<in> set (db_instances d). i_uuid i = uuid \<longrightarrow> i_address i = address"
  shows "d' = d\<lparr>db_instances := map (\<lambda>i. if i_uuid i \<in> fst ` set held then reslotted k i else i) (db_instances d)\<rparr> \<and>
    (\<forall>i \<in> set (db_instances d). i_uuid i \<in> fst ` set held \<longrightarrow> slot_of_address (i_address i) k \<noteq> None \<longrightarrow>
      slot_owner_ok d (reslotted k i))"
  using assms
proof (induction held arbitrary: d)
  case (Cons x held)
  obtain uuid address where x: "x = (uuid, address)" by (cases x)
  from Cons.prems(1) obtain d1 where d1: "reslot_step k (uuid, address) d = Inr d1" "try_fold (reslot_step k) held d1 = Inr d'"
    unfolding x by (auto simp: result_simps simp del: split_paired_Ex)
  have addr: "\<forall>i \<in> set (db_instances d). i_uuid i = uuid \<longrightarrow> i_address i = address"
    using Cons.prems(2) by (simp add: x)
  note s = reslot_step_InrD [OF d1(1) addr]
  have twice: "reslotted k (reslotted k i) = reslotted k i" for i
    by (simp add: reslotted_def split: option.splits)
  have rows: "db_instances d1 = map (\<lambda>i. if i_uuid i = uuid then reslotted k i else i) (db_instances d)"
      and sl: "slot_owner_ok d1 = slot_owner_ok d"
    using s(1) by (auto intro: slot_owner_ok_cong)
  have held1: "\<forall>(uuid, address) \<in> set held. \<forall>i \<in> set (db_instances d1). i_uuid i = uuid \<longrightarrow> i_address i = address"
    using Cons.prems(2) by (fastforce simp: rows split: if_splits)
  note q = Cons.IH [OF d1(2) held1]
  have "d' = d\<lparr>db_instances := map (\<lambda>i. if i_uuid i \<in> fst ` set (x # held) then reslotted k i else i) (db_instances d)\<rparr>"
    using conjunct1 [OF q] unfolding rows by (simp add: s(1) x twice)
  moreover have "slot_owner_ok d (reslotted k i)"
    if i: "i \<in> set (db_instances d)" "i_uuid i \<in> fst ` set (x # held)" "slot_of_address (i_address i) k \<noteq> None" for i
  proof (cases "i_uuid i = uuid")
    case True
    then show ?thesis using s(2) [OF i(1)] addr i(1,3) by simp
  next
    case False
    then have "i \<in> set (db_instances d1)" using i(1) by (auto simp: rows)
    then show ?thesis using conjunct2 [OF q] i False by (auto simp: sl x)
  qed
  ultimately show ?case by blast
qed simp

lemma renumber_slots_InrD:
  assumes "renumber_slots old new d = Inr d'" "distinct (map i_uuid (db_instances d))"
  obtains "next" where "renumbered old new (db_slots d) = Inr next"
    "d' = d\<lparr>db_slots := next, db_instances := map (\<lambda>i. reslotted (8 - (new - 24)) (i\<lparr>i_slot := None\<rparr>)) (db_instances d)\<rparr>"
    "\<forall>i \<in> set (db_instances d'). slot_owner_ok d' i"
proof -
  let ?k = "8 - (new - 24)" and ?f = "\<lambda>i. i\<lparr>i_slot := None\<rparr>"
  obtain "next" n d1 d2 where n: "renumbered old new (db_slots d) = Inr next"
      and d1: "update_instances (\<lambda>r. True) ?f d = Inr (n, d1)"
      and d2: "try_fold insert_slot next (d1\<lparr>db_slots := []\<rparr>) = Inr d2"
      and d': "try_fold (reslot_step ?k) (map (\<lambda>i. (i_uuid i, i_address i)) (db_instances d2)) d2 = Inr d'"
    using assms(1) by (auto simp: renumber_slots_def result_simps Let_def)
  have r1: "d1 = d\<lparr>db_instances := map ?f (db_instances d)\<rparr>"
    using d1 unfolding update_instances_Inr_iff by simp
  have r2: "d2 = d\<lparr>db_instances := map ?f (db_instances d), db_slots := next\<rparr>"
    using insert_slots_InrD [OF d2] by (simp add: r1)
  have u: "distinct (map i_uuid (db_instances d2))" using assms(2) by (simp add: r2 o_def)
  have addr: "\<forall>(uuid, address) \<in> set (map (\<lambda>i. (i_uuid i, i_address i)) (db_instances d2)).
      \<forall>i \<in> set (db_instances d2). i_uuid i = uuid \<longrightarrow> i_address i = address"
    using u by (auto simp: distinct_map dest: inj_onD)
  note f = reslot_fold_InrD [OF d' addr]
  have "map (\<lambda>i. if i_uuid i \<in> fst ` set (map (\<lambda>i. (i_uuid i, i_address i)) (db_instances d2)) then reslotted ?k i else i)
      (db_instances d2) = map (reslotted ?k) (db_instances d2)"
    by (rule map_cong) (auto simp: image_iff)
  then have eq: "d' = d\<lparr>db_slots := next, db_instances := map (\<lambda>i. reslotted ?k (?f i)) (db_instances d)\<rparr>"
    using conjunct1 [OF f] by (simp add: r2 o_def)
  have "slot_owner_ok d' i" if mem: "i \<in> set (db_instances d')" for i
  proof -
    obtain r where r: "r \<in> set (db_instances d)" "i = reslotted ?k (?f r)" using mem by (auto simp: eq)
    define j where "j = ?f r"
    have j: "j \<in> set (db_instances d2)" "i = reslotted ?k j" "i_slot j = None"
      using r by (simp_all add: r2 j_def)
    have s: "slot_owner_ok d' = slot_owner_ok d2" by (rule slot_owner_ok_cong) (simp add: eq r2)
    show ?thesis
    proof (cases "slot_of_address (i_address j) ?k")
      case None
      then show ?thesis using j by (simp add: slot_owner_ok_def reslotted_def)
    next
      case (Some k)
      have "i_uuid j \<in> fst ` set (map (\<lambda>i. (i_uuid i, i_address i)) (db_instances d2))" using j(1) by (force simp: image_iff)
      then show ?thesis using conjunct2 [OF f] j(1,2) Some by (simp add: s del: set_map)
    qed
  qed
  then have "\<forall>i \<in> set (db_instances d'). slot_owner_ok d' i" by blast
  then show thesis by (rule that [OF n eq])
qed

lemma set_runner_prefix_InrD:
  assumes "set_runner_prefix prefix d = (Inr dep, d')"
  shows "24 \<le> prefix" "prefix \<le> 27" "dep = \<lparr>d_runner_prefix = prefix\<rparr>"
    "\<exists>d1. (if db_runner_prefix d \<noteq> prefix then renumber_slots (db_runner_prefix d) prefix d = Inr d1 else d1 = d) \<and>
      d' = d1\<lparr>db_runner_prefix := prefix\<rparr>"
  using assms
  by (auto simp: set_runner_prefix_def with_tx_Inr_iff Let_def result_simps split: if_splits)

text \<open>Every instance's slot number is the slot of its address and a slot of its own machine.\<close>

definition slots_consistent :: "db \<Rightarrow> bool" where
  "slots_consistent d \<longleftrightarrow> (\<forall>i \<in> set (db_instances d). slot_owner_ok d i \<and>
    (\<forall>s. i_slot i = Some s \<longrightarrow> slot_of_address (i_address i) (8 - (db_runner_prefix d - 24)) = Some s))"

fun generation_run :: "(string \<times> int) list \<Rightarrow> db \<Rightarrow> (string \<times> int \<times> int) list" where
  "generation_run [] d = []"
| "generation_run ((obj, epoch) # calls) d = (case next_dispatch_generation obj epoch d of
     (Inl e, d') \<Rightarrow> generation_run calls d'
   | (Inr g, d') \<Rightarrow> (obj, epoch, g) # generation_run calls d')"

lemma generation_run_above:
  assumes "\<forall>(obj, epoch) \<in> set calls. 0 \<le> epoch \<and> epoch * 1000000 < i64_max"
    "(obj, epoch, g) \<in> set (generation_run calls d)" "db_generations d obj = Some k"
  shows "k < g"
  using assms
proof (induction calls arbitrary: d k)
  case (Cons c calls)
  obtain o1 e1 where c: "c = (o1, e1)" by (cases c)
  have e1: "0 \<le> e1" "e1 * 1000000 < i64_max" using Cons.prems(1) by (simp_all add: c)
  obtain r d' where n: "next_dispatch_generation o1 e1 d = (r, d')" by (cases "next_dispatch_generation o1 e1 d")
  show ?case
  proof (cases r)
    case (Inl err)
    then have "d' = d" using n by (simp add: next_dispatch_generation_def Let_def with_tx_Inl_iff)
    then show ?thesis using Cons n Inl by (simp add: c)
  next
    case (Inr g1)
    note s = next_dispatch_generation_Inr [OF n [unfolded Inr] e1]
    show ?thesis
    proof (cases "(obj, epoch, g) = (o1, e1, g1)")
      case True
      then show ?thesis using s(1) Cons.prems(3) by auto
    next
      case False
      then have "(obj, epoch, g) \<in> set (generation_run calls d')" using Cons.prems(2) n Inr by (auto simp: c)
      moreover have "\<exists>k'. db_generations d' obj = Some k' \<and> k \<le> k'"
        using Cons.prems(3) s by auto
      ultimately show ?thesis using Cons.IH [of d'] Cons.prems(1) by force
    qed
  qed
qed simp

lemma generation_run_sorted:
  assumes "\<forall>(obj, epoch) \<in> set calls. 0 \<le> epoch \<and> epoch * 1000000 < i64_max"
  shows "sorted_wrt (\<lambda>(obj, epoch, g) (obj', epoch', g'). obj = obj' \<longrightarrow> g < g') (generation_run calls d)"
  using assms
proof (induction calls arbitrary: d)
  case (Cons c calls)
  obtain o1 e1 where c: "c = (o1, e1)" by (cases c)
  have e1: "0 \<le> e1" "e1 * 1000000 < i64_max" and rest: "\<forall>(obj, epoch) \<in> set calls. 0 \<le> epoch \<and> epoch * 1000000 < i64_max"
    using Cons.prems by (auto simp: c)
  obtain r d' where n: "next_dispatch_generation o1 e1 d = (r, d')" by (cases "next_dispatch_generation o1 e1 d")
  show ?case
  proof (cases r)
    case (Inr g1)
    have "db_generations d' o1 = Some g1" using next_dispatch_generation_Inr(2) [OF n [unfolded Inr] e1] by simp
    then have "\<forall>(obj, epoch, g) \<in> set (generation_run calls d'). o1 = obj \<longrightarrow> g1 < g"
      using generation_run_above [OF rest] by blast
    then show ?thesis using Cons.IH [OF rest] n Inr by (simp add: c)
  qed (use Cons.IH [OF rest] n c in simp)
qed simp

lemma generation_run_floor:
  assumes "\<forall>(obj, epoch) \<in> set calls. 0 \<le> epoch \<and> epoch * 1000000 < i64_max"
  shows "\<forall>(obj, epoch, g) \<in> set (generation_run calls d). epoch * 1000000 < g"
  using assms
proof (induction calls arbitrary: d)
  case (Cons c calls)
  obtain o1 e1 where c: "c = (o1, e1)" by (cases c)
  have e1: "0 \<le> e1" "e1 * 1000000 < i64_max" using Cons.prems by (auto simp: c)
  obtain r d' where n: "next_dispatch_generation o1 e1 d = (r, d')" by (cases "next_dispatch_generation o1 e1 d")
  show ?case
  proof (cases r)
    case (Inr g1)
    then show ?thesis
      using Cons next_dispatch_generation_Inr(1) [OF n [unfolded Inr] e1] n by (auto simp: c split: option.splits)
  qed (use Cons n c in simp)
qed simp

lemma claim_slot_cases:
  assumes "claim_slot slot host_id d = (Inr r, d')"
  obtains (new) "find (\<lambda>r. s_slot r = slot) (db_slots d) = None" "s_slot r = slot" "s_owner_host_id r = host_id"
      "d' = d\<lparr>db_slots := db_slots d @ [r]\<rparr>"
    | (kept) "find (\<lambda>r. s_slot r = slot) (db_slots d) = Some r" "s_owner_host_id r = host_id" "d' = d"
    | (moved) old where "find (\<lambda>r. s_slot r = slot) (db_slots d) = Some old" "s_owner_host_id old \<noteq> host_id"
      "s_slot r = slot" "s_owner_host_id r = host_id" "s_ownership_epoch r = s_ownership_epoch old + 1"
      "d' = d\<lparr>db_slots := map (\<lambda>x. if s_slot x = slot then r else x) (db_slots d)\<rparr>"
proof (cases "find (\<lambda>r. s_slot r = slot) (db_slots d)")
  case None
  then have "s_slot r = slot \<and> s_owner_host_id r = host_id \<and> insert_slot r d = Inr d'"
    using assms by (auto simp: claim_slot_def with_tx_Inr_iff Let_def result_simps split: if_splits)
  then show thesis using new [OF None] insert_slot_InrD by blast
next
  case (Some old)
  show thesis
  proof (cases "s_owner_host_id old = host_id")
    case True
    then have "r = old \<and> d' = d"
      using assms Some by (auto simp: claim_slot_def with_tx_Inr_iff Let_def split: if_splits)
    then show thesis using kept Some True by blast
  next
    case False
    then have "s_slot r = slot \<and> s_owner_host_id r = host_id \<and> s_ownership_epoch r = s_ownership_epoch old + 1 \<and>
        d' = d\<lparr>db_slots := map (\<lambda>x. if s_slot x = slot then r else x) (db_slots d)\<rparr>"
      using assms Some by (auto simp: claim_slot_def with_tx_Inr_iff Let_def split: if_splits)
    then show thesis using moved [OF Some False] by blast
  qed
qed

lemma claim_slot_InrD:
  assumes "claim_slot slot host_id d = (Inr r, d')" "distinct (map s_slot (db_slots d))"
  shows "r \<in> set (db_slots d') \<and> s_slot r = slot \<and> s_owner_host_id r = host_id \<and>
    (\<forall>x. s_slot x \<noteq> slot \<longrightarrow> (x \<in> set (db_slots d') \<longleftrightarrow> x \<in> set (db_slots d))) \<and>
    (\<forall>old \<in> set (db_slots d). s_slot old = slot \<longrightarrow>
      s_ownership_epoch r = s_ownership_epoch old + (if s_owner_host_id old = host_id then 0 else 1))"
  using assms(1)
proof (cases rule: claim_slot_cases)
  case new
  have "slot \<notin> s_slot ` set (db_slots d)" using new(1) unfolding find_key_None .
  then have "s_slot x \<noteq> slot" if "x \<in> set (db_slots d)" for x using that by blast
  then show ?thesis using new(2-4) by auto
next
  case kept
  then show ?thesis using find_key_iff [OF assms(2)] assms(2) by (auto simp: distinct_map dest: inj_onD)
next
  case (moved old)
  then have old: "old \<in> set (db_slots d)" "s_slot old = slot" using find_key_iff [OF assms(2)] by auto
  then have u: "x = old" if "x \<in> set (db_slots d)" "s_slot x = slot" for x
    using assms(2) that by (auto simp: distinct_map dest: inj_onD)
  have "r \<in> set (db_slots d')" using old by (auto simp: moved image_iff)
  moreover have "x \<in> set (db_slots d') \<longleftrightarrow> x \<in> set (db_slots d)" if "s_slot x \<noteq> slot" for x
    using that moved by (auto simp: image_iff split: if_splits)
  ultimately show ?thesis using moved u by auto
qed

lemma claim_slot_frame:
  assumes "claim_slot slot host_id d = (Inr r, d')"
  shows "d' = d\<lparr>db_slots := db_slots d'\<rparr>" "occupants slot host_id (8 - (db_runner_prefix d - 24)) (db_instances d) = []"
proof -
  show "d' = d\<lparr>db_slots := db_slots d'\<rparr>" using assms by (cases rule: claim_slot_cases) simp_all
  show "occupants slot host_id (8 - (db_runner_prefix d - 24)) (db_instances d) = []"
    using assms by (auto simp: claim_slot_def with_tx_Inr_iff Let_def split: if_splits)
qed

lemma claim_slot_consistent:
  assumes "claim_slot slot host_id d = (Inr r, d')" "slots_consistent d" "distinct (map s_slot (db_slots d))"
  shows "slots_consistent d'"
proof -
  note c = claim_slot_InrD [OF assms(1,3)] and f = claim_slot_frame [OF assms(1)]
  have same: "db_instances d' = db_instances d" "db_runner_prefix d' = db_runner_prefix d"
    by (subst f(1), simp)+
  have "slot_owner_ok d' i" if i: "i \<in> set (db_instances d)" for i
  proof (cases "i_slot i = Some slot")
    case True
    have "slot_of_address (i_address i) (8 - (db_runner_prefix d - 24)) = Some slot"
      using assms(2) i True by (simp add: slots_consistent_def)
    then have "i_host_id i = host_id" using f(2) i True by (auto simp: occupants_def filter_empty_conv)
    then show ?thesis using c True by (auto simp: slot_owner_ok_def list_ex_iff)
  next
    case False
    have "slot_owner_ok d i" using assms(2) i by (simp add: slots_consistent_def)
    then show ?thesis using c False by (auto simp: slot_owner_ok_def list_ex_iff split: option.splits)
  qed
  then show ?thesis using assms(2) by (simp add: slots_consistent_def same)
qed

lemmas runner_eval = set_runner_prefix_def renumber_slots_def renumbered_def place_child_def children_def
  insert_slot_def slot_refs_ok_def slot_of_address_def deployment_slot_count_def claim_slot_def occupants_def
  parse_uint_def digit_value_def u8_max_def upt_conv_Cons Let_def instance_eval

section \<open>Properties\<close>

text \<open>C18. Changing the runner prefix never changes which machine owns an address: every
  host octet that had an owner keeps that owner under the new numbering, no instance
  changes its address or its machine, and afterwards every instance's slot number is
  the one its address lies in and is a slot of its own machine.  A refused change
  leaves the database as it was.\<close>

theorem set_runner_prefix_keeps_owners:
  assumes "24 \<le> db_runner_prefix d" "db_runner_prefix d \<le> 27"
    "distinct (map s_slot (db_slots d))" "distinct (map i_uuid (db_instances d))"
    "prefix \<noteq> db_runner_prefix d"
  shows "case set_runner_prefix prefix d of
      (Inr dep, d') \<Rightarrow> db_runner_prefix d' = prefix \<and>
        (\<forall>x h. octet_owner (db_runner_prefix d) (db_slots d) x = Some h \<longrightarrow>
          octet_owner prefix (db_slots d') x = Some h) \<and>
        map (\<lambda>i. i\<lparr>i_slot := None\<rparr>) (db_instances d') = map (\<lambda>i. i\<lparr>i_slot := None\<rparr>) (db_instances d) \<and>
        (\<forall>i \<in> set (db_instances d'). i_slot i = slot_of_address (i_address i) (8 - (prefix - 24)) \<and> slot_owner_ok d' i)
    | (Inl _, d') \<Rightarrow> d' = d"
proof (cases "set_runner_prefix prefix d")
  case (Pair r d')
  show ?thesis
  proof (cases r)
    case (Inl e)
    then have "d' = d" using Pair by (auto simp: set_runner_prefix_def with_tx_Inl_iff split: if_splits)
    then show ?thesis using Pair Inl by simp
  next
    case (Inr dep)
    let ?old = "db_runner_prefix d"
    note s = set_runner_prefix_InrD [OF Pair [unfolded Inr]]
    obtain d1 where ren: "renumber_slots ?old prefix d = Inr d1" and d': "d' = d1\<lparr>db_runner_prefix := prefix\<rparr>"
      using s(4) assms(5) by auto
    obtain "next" where n: "renumbered ?old prefix (db_slots d) = Inr next"
      and d1: "d1 = d\<lparr>db_slots := next,
        db_instances := map (\<lambda>i. reslotted (8 - (prefix - 24)) (i\<lparr>i_slot := None\<rparr>)) (db_instances d)\<rparr>"
      and ok: "\<forall>i \<in> set (db_instances d1). slot_owner_ok d1 i"
      using renumber_slots_InrD [OF ren assms(4)] by blast
    have "octet_owner prefix next x = Some h" if own: "octet_owner ?old (db_slots d) x = Some h" for x h
    proof -
      obtain row where row: "row \<in> set (db_slots d)" "s_slot row = x div 2 ^ (8 - (?old - 24))" "s_owner_host_id row = h"
        using own by (auto simp: octet_owner_def find_key_iff [OF assms(3)])
      then obtain m where "m \<in> set next" "s_slot m = x div 2 ^ (8 - (prefix - 24))" "s_owner_host_id m = h"
        using renumbered_InrD(3) [OF n row(1)] octet_child [OF assms(1,2) s(1,2), of x] by auto
      then show ?thesis by (auto simp: octet_owner_def find_key_iff [OF renumbered_InrD(1) [OF n]])
    qed
    moreover have "slot_owner_ok d' = slot_owner_ok d1" by (rule slot_owner_ok_cong) (simp add: d')
    ultimately show ?thesis
      using Pair Inr ok by (auto simp: d' d1 reslotted_def split: option.splits)
  qed
qed

theorem set_runner_prefix_keeps_owners_witness:
  "fst (set_runner_prefix 25 sample_db1) = Inr \<lparr>d_runner_prefix = 25\<rparr> \<and>
   octet_owner 25 (db_slots (snd (set_runner_prefix 25 sample_db1))) 200 = Some 1"
proof -
  have ok: "fst (set_runner_prefix 25 sample_db1) = Inr \<lparr>d_runner_prefix = 25\<rparr>"
    by (simp add: runner_eval)
  have own: "octet_owner 24 (db_slots sample_db1) 200 = Some 1" by (simp add: runner_eval octet_owner_def)
  have p: "db_runner_prefix sample_db1 = 24" by (simp add: runner_eval)
  show ?thesis
    using set_runner_prefix_keeps_owners [of sample_db1 25] ok own p
    by (cases "set_runner_prefix 25 sample_db1") (auto simp: sample_db1_def sample_db_def empty_db_def)
qed

text \<open>C8. The epoch is a fencing token: over any sequence of acquisitions, renewals and
  releases by any controllers at any times, the leases handed out have epochs that
  never decrease, an acquired lease has a higher epoch than every lease before it,
  and two leases with the same epoch belong to the same controller.  And while one
  controller holds an unexpired lease, no other can acquire it.\<close>

theorem lease_epoch_fences:
  "sorted_wrt lease_order (lease_run format_time ops d) \<and>
   (lr_holder_id (db_lease d) = Some h \<and> lr_expires_at (db_lease d) = Some e \<and> now < e \<and> h' \<noteq> h \<longrightarrow>
     acquire_lease h' ttl now d = (Inl (LeaseHeld h e), d))"
  using lease_run_ordered by (simp add: acquire_lease_def with_tx_def)

theorem lease_epoch_fences_witness:
  "acquire_lease ''b'' 30 10 (snd (acquire_lease ''a'' 30 5 empty_db)) =
     (Inl (LeaseHeld ''a'' 35), snd (acquire_lease ''a'' 30 5 empty_db))"
proof -
  have r: "db_lease (snd (acquire_lease ''a'' 30 5 empty_db)) =
      \<lparr>lr_holder_id = Some ''a'', lr_epoch = 1, lr_expires_at = Some 35\<rparr>"
    by (simp add: acquire_lease_def with_tx_def empty_db_def i64_max_def)
  show ?thesis
    using lease_epoch_fences [where h = "''a''" and h' = "''b''" and e = 35 and now = 10 and ttl = 30
        and d = "snd (acquire_lease ''a'' 30 5 empty_db)"] by (simp add: r)
qed



text \<open>C20. The generations dispatched for one object increase strictly, whatever epochs the
  calls name and whatever is dispatched for other objects in between, and each lies
  above the floor of its epoch.\<close>

theorem dispatch_generations_increase:
  assumes "\<forall>(obj, epoch) \<in> set calls. 0 \<le> epoch \<and> epoch * 1000000 < i64_max"
  shows "sorted_wrt (\<lambda>(obj, epoch, g) (obj', epoch', g'). obj = obj' \<longrightarrow> g < g') (generation_run calls d) \<and>
    (\<forall>(obj, epoch, g) \<in> set (generation_run calls d). epoch * 1000000 < g)"
  using generation_run_sorted [OF assms] generation_run_floor [OF assms] by blast

theorem dispatch_generations_increase_witness:
  "generation_run [(''vm'', 2), (''vm'', 1)] empty_db = [(''vm'', 2, 2000001), (''vm'', 1, 2000002)] \<and>
   sorted_wrt (\<lambda>(obj, epoch, g) (obj', epoch', g'). obj = obj' \<longrightarrow> g < g')
     (generation_run [(''vm'', 2), (''vm'', 1)] empty_db)"
proof -
  have "generation_run [(''vm'', 2), (''vm'', 1)] empty_db = [(''vm'', 2, 2000001), (''vm'', 1, 2000002)]"
    by (simp add: next_dispatch_generation_def Let_def with_tx_def wrapping_i64_def saturating_mul_i64_def
        i64_max_def empty_db_def)
  then show ?thesis
    using dispatch_generations_increase [of "[(''vm'', 2), (''vm'', 1)]" empty_db] by (simp add: i64_max_def)
qed



end
