(* ===== verification/Store_Hosts.thy ===== *)
theory Store_Hosts
  imports Store_Runners
begin

text \<open>
  Machines, \<open>crates/store/src/hosts.rs\<close>, and the parts of \<open>crates/store/src/runners.rs\<close>
  about contact, placement and the images a machine holds.

  \<open>update_hosts\<close> and \<open>insert_host\<close> give the UPDATE and INSERT statements on \<open>hosts\<close> with
  its unique columns; \<open>NULL\<close> machine ids do not collide.  Placement weighs each enabled
  and active machine in the order of its id.  The code divides counters as \<open>f64\<close> to
  order machines; here the division and the overcommitted memory are arguments over an
  arbitrary linear order, so no statement depends on rounding.
\<close>

section \<open>Definitions\<close>

definition hosts_unique :: "host list \<Rightarrow> bool" where
  "hosts_unique rows \<longleftrightarrow> distinct (map h_id rows) \<and> distinct (map h_name rows) \<and>
    distinct (List.map_filter h_machine_id rows)"

definition update_hosts :: "(host \<Rightarrow> bool) \<Rightarrow> (host \<Rightarrow> host) \<Rightarrow> nat tx" where
  "update_hosts P f d =
    (let rows = map (\<lambda>h. if P h then f h else h) (db_hosts d) in
     if hosts_unique rows then Inr (length (filter P (db_hosts d)), d\<lparr>db_hosts := rows\<rparr>) else Inl Sqlite)"

definition insert_host :: "host \<Rightarrow> db \<Rightarrow> (store_error, db) result" where
  "insert_host r d =
    (if hosts_unique (db_hosts d @ [r]) then Inr (d\<lparr>db_hosts := db_hosts d @ [r]\<rparr>) else Inl Sqlite)"

definition ensure_host ::
  "string \<Rightarrow> string \<Rightarrow> string \<Rightarrow> time \<Rightarrow> db \<Rightarrow> (store_error, host) result \<times> db" where
  "ensure_host machine_id name libvirt_uri now = with_tx (\<lambda>d.
    and_then (update_hosts (\<lambda>h. h_machine_id h = Some machine_id)
      (\<lambda>h. h\<lparr>h_name := name, h_libvirt_uri := libvirt_uri\<rparr>) d) (\<lambda>(known, d1).
    and_then
      (if known = 0 then
         (case (if length (db_hosts d1) = 1 then find (\<lambda>h. h_machine_id h = None) (db_hosts d1) else None) of
            Some u \<Rightarrow>
              and_then (update_hosts (\<lambda>h. h_id h = h_id u)
                (\<lambda>h. h\<lparr>h_machine_id := Some machine_id, h_name := name, h_libvirt_uri := libvirt_uri\<rparr>) d1)
                (\<lambda>(_, d2). Inr d2)
          | None \<Rightarrow>
              insert_host \<lparr>h_id = next_rowid (map h_id (db_hosts d1)), h_machine_id = Some machine_id,
                h_name = name, h_libvirt_uri = libvirt_uri, h_endpoint = None, h_underlay = None,
                h_enabled = True, h_placement = PActive, h_created_at = now\<rparr> d1)
       else Inr d1) (\<lambda>d2.
    and_then (ok_or Sqlite (find (\<lambda>h. h_machine_id h = Some machine_id) (db_hosts d2))) (\<lambda>host.
      if length (db_slots d2) = 0 then
        and_then (insert_slot \<lparr>s_slot = 0, s_state = SActive, s_owner_host_id = h_id host,
            s_ownership_epoch = 0, s_source_host_id = None, s_destination_host_id = None,
            s_operation_id = None\<rparr> d2) (\<lambda>d3. Inr (host, d3))
      else Inr (host, d2)))))"

definition host_of :: "int \<Rightarrow> db \<Rightarrow> (store_error, host) result" where
  "host_of host_id = with_conn (\<lambda>d. ok_or NotFound (find (\<lambda>h. h_id h = host_id) (db_hosts d)))"

record host_seen =
  hs_machine_id :: "string option"
  hs_accepted_epoch :: int
  hs_arch :: "string option"
  hs_cpu_count :: "nat option"
  hs_memory_total_mib :: "nat option"
  hs_storage_total_gib :: "nat option"
  hs_storage_available_gib :: "nat option"
  hs_hypervisor_version :: "string option"
  hs_error :: "string option"

fun health_str :: "host_health \<Rightarrow> string" where
  "health_str HUnknown = ''unknown''"
| "health_str HOk = ''ok''"
| "health_str HUnreachable = ''unreachable''"
| "health_str HMismatched = ''mismatched''"

definition scan_health :: "string \<Rightarrow> host_health" where
  "scan_health text =
    (if text = ''ok'' then HOk
     else if text = ''unreachable'' then HUnreachable
     else if text = ''mismatched'' then HMismatched
     else HUnknown)"

definition placeable :: "host_health \<Rightarrow> bool" where
  "placeable h = (h = HOk)"

fun coalesce :: "'a option \<Rightarrow> 'a option \<Rightarrow> 'a option" where
  "coalesce None b = b"
| "coalesce (Some a) b = Some a"

fun opt_sql_int :: "nat option \<Rightarrow> (store_error, int option) result" where
  "opt_sql_int None = Inr None"
| "opt_sql_int (Some v) = and_then (to_sql_int v) (\<lambda>k. Inr (Some k))"

definition merge_observation :: "observation_row \<Rightarrow> observation_row option \<Rightarrow> observation_row" where
  "merge_observation excluded old =
    (case old of
       None \<Rightarrow> excluded
     | Some row \<Rightarrow>
         \<lparr>o_health = o_health excluded,
          o_last_contact_at = coalesce (o_last_contact_at excluded) (o_last_contact_at row),
          o_accepted_epoch = o_accepted_epoch excluded,
          o_arch = coalesce (o_arch excluded) (o_arch row),
          o_cpu_count = coalesce (o_cpu_count excluded) (o_cpu_count row),
          o_memory_total_mib = coalesce (o_memory_total_mib excluded) (o_memory_total_mib row),
          o_storage_total_gib = coalesce (o_storage_total_gib excluded) (o_storage_total_gib row),
          o_storage_available_gib = coalesce (o_storage_available_gib excluded) (o_storage_available_gib row),
          o_hypervisor_version = coalesce (o_hypervisor_version excluded) (o_hypervisor_version row),
          o_last_error = o_last_error excluded\<rparr>)"

definition observe_host ::
  "int \<Rightarrow> host_seen \<Rightarrow> time \<Rightarrow> db \<Rightarrow> (store_error, host_health) result \<times> db" where
  "observe_host host_id seen now = with_tx (\<lambda>d.
    and_then (ok_or Sqlite (find (\<lambda>h. h_id h = host_id) (db_hosts d))) (\<lambda>row.
    and_then
      (case (h_machine_id row, hs_machine_id seen) of
         (_, None) \<Rightarrow> Inr (HUnreachable, d)
       | (None, Some reported) \<Rightarrow>
           and_then (update_hosts (\<lambda>h. h_id h = host_id) (\<lambda>h. h\<lparr>h_machine_id := Some reported\<rparr>) d)
             (\<lambda>(_, d1). Inr (HOk, d1))
       | (Some stored, Some reported) \<Rightarrow>
           Inr (if stored = reported then HOk else HMismatched, d)) (\<lambda>(health, d1).
    let contact = (if health = HOk then Some now else None) in
    and_then (opt_sql_int (hs_cpu_count seen)) (\<lambda>_.
    and_then (opt_sql_int (hs_memory_total_mib seen)) (\<lambda>_.
    and_then (opt_sql_int (hs_storage_total_gib seen)) (\<lambda>_.
    and_then (opt_sql_int (hs_storage_available_gib seen)) (\<lambda>_.
      Inr (health, d1\<lparr>db_observations := (db_observations d1)(host_id \<mapsto>
        merge_observation
          \<lparr>o_health = health, o_last_contact_at = contact, o_accepted_epoch = hs_accepted_epoch seen,
           o_arch = hs_arch seen, o_cpu_count = hs_cpu_count seen,
           o_memory_total_mib = hs_memory_total_mib seen, o_storage_total_gib = hs_storage_total_gib seen,
           o_storage_available_gib = hs_storage_available_gib seen,
           o_hypervisor_version = hs_hypervisor_version seen, o_last_error = hs_error seen\<rparr>
          (db_observations d1 host_id))\<rparr>))))))))"

definition host_observation :: "int \<Rightarrow> db \<Rightarrow> (store_error, observation_row option) result" where
  "host_observation host_id = with_conn (\<lambda>d. Inr (db_observations d host_id))"

text \<open>\<open>overcommit\<close> is \<open>overcommitted_memory_mib\<close> at the ratio of the deployment and
  \<open>ratio\<close> the division of two counters as \<open>f64\<close>; both are floating point.  The code
  only compares the ratios.\<close>

definition arch_mismatch :: "string option \<Rightarrow> string option \<Rightarrow> (string \<times> string) option" where
  "arch_mismatch want_arch host_arch =
    (case (want_arch, host_arch) of
       (Some w, Some h) \<Rightarrow> if w \<noteq> h then Some (h, w) else None
     | _ \<Rightarrow> None)"

definition disk_short :: "nat option \<Rightarrow> nat \<Rightarrow> nat option" where
  "disk_short storage_available disk_gib =
    (case storage_available of
       Some available \<Rightarrow> if disk_gib > available then Some available else None
     | None \<Rightarrow> None)"

definition weigh_host ::
  "(nat \<Rightarrow> nat) \<Rightarrow> (nat \<Rightarrow> nat \<Rightarrow> 'w) \<Rightarrow> host \<Rightarrow> placing \<Rightarrow> db \<Rightarrow>
    (store_error, (refusal, 'w \<times> 'w) result) result" where
  "weigh_host overcommit ratio host want d =
    (case db_observations d (h_id host) of
       None \<Rightarrow> Inr (Inl NeverAnswered)
     | Some seen \<Rightarrow>
         if o_health seen \<noteq> HOk then Inr (Inl (LastSeen (o_health seen)))
         else if length (filter (\<lambda>s. s_owner_host_id s = h_id host \<and> s_state s = SActive) (db_slots d)) = 0
         then Inr (Inl OwnsNoActiveSlot)
         else case arch_mismatch (pl_arch want) (o_arch seen) of
           Some (host_arch, want_arch) \<Rightarrow> Inr (Inl (IsArch host_arch want_arch))
         | None \<Rightarrow>
             let rows = filter (\<lambda>i. i_host_id i = h_id host) (db_instances d) in
             and_then (sql_sum (map i_memory_mib rows)) (\<lambda>reserved_memory.
             and_then (sql_sum (map i_vcpu rows)) (\<lambda>reserved_vcpu.
               let memory_total = (case o_memory_total_mib seen of None \<Rightarrow> 0 | Some m \<Rightarrow> m) in
               if memory_total = 0 then Inr (Inl ReportedNoMemory)
               else
                 let memory_limit = overcommit memory_total;
                     memory_after = saturating_add_u64 reserved_memory (pl_memory_mib want) in
                 if memory_after > memory_limit
                 then Inr (Inl (HasMemoryLeft (memory_limit - reserved_memory) memory_limit (pl_memory_mib want)))
                 else case disk_short (o_storage_available_gib seen) (pl_disk_gib want) of
                   Some available \<Rightarrow> Inr (Inl (HasDiskFree available (pl_disk_gib want)))
                 | None \<Rightarrow>
                     let cpu_count = max (case o_cpu_count seen of None \<Rightarrow> 0 | Some c \<Rightarrow> c) 1;
                         vcpu_after = saturating_add_u64 reserved_vcpu (pl_vcpu want) in
                     Inr (Inr (ratio memory_after memory_limit, ratio vcpu_after cpu_count)))))"

definition consider_host ::
  "(nat \<Rightarrow> nat) \<Rightarrow> (nat \<Rightarrow> nat \<Rightarrow> 'w::linorder) \<Rightarrow> placing \<Rightarrow> db \<Rightarrow> host \<Rightarrow>
    (string \<times> refusal) list \<times> (('w \<times> 'w \<times> int) \<times> host) option \<Rightarrow>
    (store_error, (string \<times> refusal) list \<times> (('w \<times> 'w \<times> int) \<times> host) option) result" where
  "consider_host overcommit ratio want d host = (\<lambda>(rejected, best).
    and_then (weigh_host overcommit ratio host want d) (\<lambda>w.
      case w of
        Inl reason \<Rightarrow> Inr (rejected @ [(h_name host, reason)], best)
      | Inr (memory_ratio, vcpu_ratio) \<Rightarrow>
          let candidate = (memory_ratio, vcpu_ratio, h_id host) in
          Inr (rejected,
            (case best of
               None \<Rightarrow> Some (candidate, host)
             | Some (current, h) \<Rightarrow> if candidate < current then Some (candidate, host) else Some (current, h)))))"

definition choose_host ::
  "(nat \<Rightarrow> nat) \<Rightarrow> (nat \<Rightarrow> nat \<Rightarrow> 'w::linorder) \<Rightarrow> placing \<Rightarrow> db \<Rightarrow> (store_error, host) result \<times> db" where
  "choose_host overcommit ratio want = with_tx (\<lambda>d.
    let hosts = sort_key h_id (filter (\<lambda>h. h_enabled h \<and> h_placement h = PActive) (db_hosts d)) in
    and_then (try_fold (consider_host overcommit ratio want d) hosts ([], None)) (\<lambda>(rejected, best).
      case best of
        Some (_, host) \<Rightarrow> Inr (host, d)
      | None \<Rightarrow> Inl (NoPlacement rejected)))"

definition strip_prefix :: "string \<Rightarrow> string \<Rightarrow> string option" where
  "strip_prefix p s = (if take (length p) s = p then Some (drop (length p) s) else None)"

definition to_ascii_lowercase :: "string \<Rightarrow> string" where
  "to_ascii_lowercase = map (\<lambda>c. let k = (of_char c :: nat) in if 65 \<le> k \<and> k \<le> 90 then char_of (k + 32) else c)"

definition bare_checksum :: "string \<Rightarrow> string" where
  "bare_checksum checksum = to_ascii_lowercase
    (case strip_prefix ''sha256-'' checksum of
       Some rest \<Rightarrow> rest
     | None \<Rightarrow> (case strip_prefix ''sha256:'' checksum of Some rest \<Rightarrow> rest | None \<Rightarrow> checksum))"

definition image_key :: "host_image \<Rightarrow> int \<times> string \<times> string" where
  "image_key r = (hi_host_id r, hi_image_name r, hi_checksum r)"

definition record_host_image ::
  "int \<Rightarrow> string \<Rightarrow> string \<Rightarrow> time \<Rightarrow> db \<Rightarrow> (store_error, unit) result \<times> db" where
  "record_host_image host_id image_name checksum now = with_tx (\<lambda>d.
    let row = \<lparr>hi_host_id = host_id, hi_image_name = image_name, hi_checksum = bare_checksum checksum,
               hi_verified_at = now\<rparr> in
    if image_key row \<in> image_key ` set (db_host_images d)
    then Inr ((), d\<lparr>db_host_images := map (\<lambda>r. if image_key r = image_key row then r\<lparr>hi_verified_at := now\<rparr> else r)
           (db_host_images d)\<rparr>)
    else if host_id \<in> h_id ` set (db_hosts d)
    then Inr ((), d\<lparr>db_host_images := db_host_images d @ [row]\<rparr>)
    else Inl Sqlite)"

definition hosts_missing_image :: "string \<Rightarrow> string \<Rightarrow> db \<Rightarrow> string list" where
  "hosts_missing_image image_name checksum d =
    sort (map h_name (filter (\<lambda>h. h_enabled h \<and> h_placement h = PActive \<and>
      \<not> list_ex (\<lambda>i. hi_host_id i = h_id h \<and> hi_image_name i = image_name \<and> hi_checksum i = bare_checksum checksum)
          (db_host_images d)) (db_hosts d)))"

definition record_local_image_versions :: "int \<Rightarrow> time \<Rightarrow> db \<Rightarrow> (store_error, nat) result \<times> db" where
  "record_local_image_versions host_id now = with_tx (\<lambda>d.
    let rows = map (\<lambda>v. \<lparr>hi_host_id = host_id, hi_image_name = iv_image_name v, hi_checksum = iv_checksum v,
                         hi_verified_at = now\<rparr>) (db_image_versions d);
        new = filter (\<lambda>r. image_key r \<notin> image_key ` set (db_host_images d)) rows in
    if new = [] \<or> host_id \<in> h_id ` set (db_hosts d)
    then Inr (length new, d\<lparr>db_host_images := db_host_images d @ new\<rparr>)
    else Inl Sqlite)"

definition host_images :: "(time \<Rightarrow> string) \<Rightarrow> int \<Rightarrow> db \<Rightarrow> (string \<times> string) list" where
  "host_images format_time host_id d =
    map (\<lambda>r. (hi_image_name r, hi_checksum r))
      (sort_key hi_image_name (rev (sort_key (\<lambda>r. format_time (hi_verified_at r))
        (filter (\<lambda>r. hi_host_id r = host_id) (db_host_images d)))))"


section \<open>Statements on hosts\<close>

lemma update_hosts_Inr_iff:
  "update_hosts P f d = Inr (n, d') \<longleftrightarrow>
    hosts_unique (map (\<lambda>h. if P h then f h else h) (db_hosts d)) \<and> n = length (filter P (db_hosts d)) \<and>
    d' = d\<lparr>db_hosts := map (\<lambda>h. if P h then f h else h) (db_hosts d)\<rparr>"
  by (auto simp: update_hosts_def Let_def)

lemma insert_host_Inr_iff:
  "insert_host r d = Inr d' \<longleftrightarrow> hosts_unique (db_hosts d @ [r]) \<and> d' = d\<lparr>db_hosts := db_hosts d @ [r]\<rparr>"
  by (auto simp: insert_host_def)

lemma insert_slot_Inr_iff:
  "insert_slot r d = Inr d' \<longleftrightarrow> int (s_slot r) \<le> i64_max \<and> s_slot r \<notin> s_slot ` set (db_slots d) \<and>
    slot_refs_ok d r \<and> d' = d\<lparr>db_slots := db_slots d @ [r]\<rparr>"
  by (auto simp: insert_slot_def result_simps)

lemma scan_health_str [simp]: "scan_health (health_str h) = h"
  by (cases h) (simp_all add: scan_health_def)

lemma coalesce_Some [simp]: "coalesce a (Some b) = Some (case a of None \<Rightarrow> b | Some x \<Rightarrow> x)"
  by (cases a) simp_all

section \<open>Placement\<close>

text \<open>A machine the request may go to, with its weight.\<close>

definition placeable_with ::
  "(nat \<Rightarrow> nat) \<Rightarrow> (nat \<Rightarrow> nat \<Rightarrow> 'w) \<Rightarrow> placing \<Rightarrow> db \<Rightarrow> host \<Rightarrow> 'w \<times> 'w \<Rightarrow> bool" where
  "placeable_with overcommit ratio want d h w \<longleftrightarrow>
    h \<in> set (db_hosts d) \<and> h_enabled h \<and> h_placement h = PActive \<and>
    weigh_host overcommit ratio h want d = Inr (Inr w)"

lemma weigh_host_eligible:
  assumes "weigh_host overcommit ratio h want d = Inr (Inr w)" "int (pl_memory_mib want) \<le> i64_max"
  obtains seen total where "db_observations d (h_id h) = Some seen" "o_health seen = HOk"
    "\<exists>s \<in> set (db_slots d). s_owner_host_id s = h_id h \<and> s_state s = SActive"
    "arch_mismatch (pl_arch want) (o_arch seen) = None"
    "o_memory_total_mib seen = Some total" "0 < total"
    "host_total i_memory_mib (h_id h) (db_instances d) + pl_memory_mib want \<le> overcommit total"
    "\<forall>a. o_storage_available_gib seen = Some a \<longrightarrow> pl_disk_gib want \<le> a"
proof -
  have sat: "saturating_add_u64 a b = a + b" if "int a \<le> i64_max" "int b \<le> i64_max" for a b
    using that by (simp add: saturating_add_u64_def u64_max_def i64_max_def)
  show thesis
    using assms that
    by (auto simp: weigh_host_def Let_def result_simps filter_empty_conv sat host_total_def disk_short_def
        split: option.splits if_splits prod.splits)
qed

lemma consider_host_Inr_iff:
  "consider_host oc ratio want d h (rej, best) = Inr (rej', best') \<longleftrightarrow>
    (\<exists>reason. weigh_host oc ratio h want d = Inr (Inl reason) \<and> rej' = rej @ [(h_name h, reason)] \<and> best' = best) \<or>
    (\<exists>m v. weigh_host oc ratio h want d = Inr (Inr (m, v)) \<and> rej' = rej \<and>
      best' = (case best of None \<Rightarrow> Some ((m, v, h_id h), h)
        | Some (c, b) \<Rightarrow> if (m, v, h_id h) < c then Some ((m, v, h_id h), h) else Some (c, b)))"
proof (cases "weigh_host oc ratio h want d")
  case (Inr w)
  then show ?thesis by (cases w) (auto simp: consider_host_def Let_def)
qed (simp add: consider_host_def)

text \<open>What the scan knows after the machines \<open>hs\<close>: the best weight so far is a lower bound
  of every weight, and it is absent exactly while every machine was refused.\<close>

definition scanned ::
  "(nat \<Rightarrow> nat) \<Rightarrow> (nat \<Rightarrow> nat \<Rightarrow> 'w::linorder) \<Rightarrow> placing \<Rightarrow> db \<Rightarrow> host list \<Rightarrow>
    (string \<times> refusal) list \<times> (('w \<times> 'w \<times> int) \<times> host) option \<Rightarrow> bool" where
  "scanned oc ratio want d hs = (\<lambda>(rej, best).
    (\<forall>h \<in> set hs. is_ok (weigh_host oc ratio h want d)) \<and>
    (\<forall>h \<in> set hs. \<forall>reason. weigh_host oc ratio h want d = Inr (Inl reason) \<longrightarrow> (h_name h, reason) \<in> set rej) \<and>
    (case best of
       None \<Rightarrow> (\<forall>h \<in> set hs. \<forall>w. weigh_host oc ratio h want d \<noteq> Inr (Inr w))
     | Some (c, b) \<Rightarrow> b \<in> set hs \<and> weigh_host oc ratio b want d = Inr (Inr (fst c, fst (snd c))) \<and>
         snd (snd c) = h_id b \<and>
         (\<forall>h \<in> set hs. \<forall>m v. weigh_host oc ratio h want d = Inr (Inr (m, v)) \<longrightarrow> c \<le> (m, v, h_id h))))"

lemma scanned_step:
  assumes "scanned oc ratio want d hs (rej, best)" "consider_host oc ratio want d h (rej, best) = Inr (rej', best')"
  shows "scanned oc ratio want d (hs @ [h]) (rej', best')"
  using assms(2) unfolding consider_host_Inr_iff
proof (elim disjE exE conjE)
  fix reason assume "weigh_host oc ratio h want d = Inr (Inl reason)"
    "rej' = rej @ [(h_name h, reason)]" "best' = best"
  then show "scanned oc ratio want d (hs @ [h]) (rej', best')"
    using assms(1) by (cases best) (auto simp: scanned_def)
next
  fix m v assume w: "weigh_host oc ratio h want d = Inr (Inr (m, v))" "rej' = rej"
    and best': "best' = (case best of None \<Rightarrow> Some ((m, v, h_id h), h)
      | Some (c, b) \<Rightarrow> if (m, v, h_id h) < c then Some ((m, v, h_id h), h) else Some (c, b))"
  show "scanned oc ratio want d (hs @ [h]) (rej', best')"
  proof (cases best)
    case None
    then show ?thesis using assms(1) w best' by (simp add: scanned_def)
  next
    case (Some cb)
    obtain c b where cb: "cb = (c, b)" by (cases cb)
    show ?thesis
    proof (cases "(m, v, h_id h) < c")
      case True
      have "(m, v, h_id h) \<le> (m', v', h_id h')"
        if "h' \<in> set hs" "weigh_host oc ratio h' want d = Inr (Inr (m', v'))" for h' m' v'
      proof -
        have "c \<le> (m', v', h_id h')" using assms(1) Some that by (simp add: scanned_def cb)
        with True have "(m, v, h_id h) < (m', v', h_id h')" by (rule less_le_trans)
        then show ?thesis by (rule less_imp_le)
      qed
      then show ?thesis using assms(1) w best' Some True
        by (simp add: scanned_def cb del: less_eq_prod_simp less_prod_simp)
    next
      case False
      then have "c \<le> (m, v, h_id h)" by (simp only: not_less)
      then show ?thesis using assms(1) w best' Some False
        by (simp add: scanned_def cb del: less_eq_prod_simp less_prod_simp)
    qed
  qed
qed

lemma scanned_fold:
  assumes "try_fold (consider_host oc ratio want d) hs s = Inr s'" "scanned oc ratio want d hs0 s"
  shows "scanned oc ratio want d (hs0 @ hs) s'"
  using assms
proof (induction hs arbitrary: s hs0)
  case (Cons h hs)
  then obtain s1 where "consider_host oc ratio want d h s = Inr s1"
      "try_fold (consider_host oc ratio want d) hs s1 = Inr s'" by (auto simp: result_simps)
  moreover from this have "scanned oc ratio want d (hs0 @ [h]) s1"
    using Cons.prems(2) scanned_step [of oc ratio want d hs0 "fst s" "snd s" h "fst s1" "snd s1"] by simp
  ultimately show ?case using Cons.IH [of s1 "hs0 @ [h]"] by simp
qed simp

lemma weigh_host_error: "weigh_host oc ratio h want d = Inl e \<Longrightarrow> e = Sqlite"
  by (auto simp: weigh_host_def Let_def result_simps sql_sum_def split: prod.splits option.splits if_splits)

lemma consider_fold_error:
  "try_fold (consider_host oc ratio want d) hs s = Inl e \<Longrightarrow> e = Sqlite"
proof (induction hs arbitrary: s)
  case (Cons h hs)
  have "e = Sqlite" if "consider_host oc ratio want d h s = Inl e"
  proof (cases "weigh_host oc ratio h want d")
    case (Inr w)
    then show ?thesis using that by (cases s, cases w) (auto simp: consider_host_def Let_def)
  qed (use that weigh_host_error in \<open>cases s, auto simp: consider_host_def\<close>)
  then show ?case using Cons by (auto simp: result_simps)
qed simp

abbreviation placement_hosts :: "db \<Rightarrow> host list" where
  "placement_hosts d \<equiv> sort_key h_id (filter (\<lambda>h. h_enabled h \<and> h_placement h = PActive) (db_hosts d))"

lemma choose_host_scanned:
  assumes "try_fold (consider_host oc ratio want d) (placement_hosts d) ([], None) = Inr s"
  shows "scanned oc ratio want d (placement_hosts d) s"
  using scanned_fold [OF assms, of "[]"] by (simp add: scanned_def)

lemma choose_host_eq:
  "choose_host oc ratio want d =
    (case try_fold (consider_host oc ratio want d) (placement_hosts d) ([], None) of
       Inl e \<Rightarrow> (Inl e, d)
     | Inr s \<Rightarrow> (case snd s of None \<Rightarrow> (Inl (NoPlacement (fst s)), d) | Some c \<Rightarrow> (Inr (snd c), d)))"
  by (auto simp: choose_host_def with_tx_def Let_def split: sum.splits option.splits prod.splits)

lemma choose_host_InrD:
  assumes "choose_host oc ratio want d = (Inr h, d')"
  shows "d' = d" "\<exists>m v. placeable_with oc ratio want d h (m, v) \<and>
    (\<forall>h' m' v'. placeable_with oc ratio want d h' (m', v') \<longrightarrow> (m, v, h_id h) \<le> (m', v', h_id h'))"
proof -
  obtain rej c where f: "try_fold (consider_host oc ratio want d) (placement_hosts d) ([], None) = Inr (rej, Some (c, h))"
      and d': "d' = d"
    using assms by (fastforce simp: choose_host_eq split: sum.splits option.splits)
  obtain m v i where c: "c = (m, v, i)" by (cases c)
  have sc: "scanned oc ratio want d (placement_hosts d) (rej, Some (c, h))" by (rule choose_host_scanned [OF f])
  then have "placeable_with oc ratio want d h (m, v)" "i = h_id h"
    by (auto simp: scanned_def placeable_with_def c)
  moreover have "(m, v, i) \<le> (m', v', h_id h')" if "placeable_with oc ratio want d h' (m', v')" for h' m' v'
    using sc that unfolding scanned_def placeable_with_def c by auto
  ultimately show "\<exists>m v. placeable_with oc ratio want d h (m, v) \<and>
      (\<forall>h' m' v'. placeable_with oc ratio want d h' (m', v') \<longrightarrow> (m, v, h_id h) \<le> (m', v', h_id h'))"
    by blast
  show "d' = d" by (rule d')
qed

lemma choose_host_InlD:
  assumes "choose_host oc ratio want d = (Inl e, d')"
  shows "d' = d" "e = Sqlite \<or> (\<exists>rs. e = NoPlacement rs \<and> (\<forall>h w. \<not> placeable_with oc ratio want d h w) \<and>
    (\<forall>h \<in> set (placement_hosts d). \<exists>reason. weigh_host oc ratio h want d = Inr (Inl reason) \<and>
      (h_name h, reason) \<in> set rs))"
proof -
  show "d' = d" using assms by (simp add: choose_host_def with_tx_Inl_iff)
  consider "try_fold (consider_host oc ratio want d) (placement_hosts d) ([], None) = Inl e"
    | rej where "try_fold (consider_host oc ratio want d) (placement_hosts d) ([], None) = Inr (rej, None)"
        "e = NoPlacement rej"
    using assms by (auto simp: choose_host_eq split: sum.splits option.splits)
  then show "e = Sqlite \<or> (\<exists>rs. e = NoPlacement rs \<and> (\<forall>h w. \<not> placeable_with oc ratio want d h w) \<and>
    (\<forall>h \<in> set (placement_hosts d). \<exists>reason. weigh_host oc ratio h want d = Inr (Inl reason) \<and>
      (h_name h, reason) \<in> set rs))"
  proof cases
    case 1
    then show ?thesis using consider_fold_error by blast
  next
    case (2 rej)
    have sc: "scanned oc ratio want d (placement_hosts d) (rej, None)" by (rule choose_host_scanned [OF 2(1)])
    have refused: "\<exists>reason. weigh_host oc ratio h want d = Inr (Inl reason) \<and> (h_name h, reason) \<in> set rej"
      if h: "h \<in> set (placement_hosts d)" for h
    proof -
      obtain w where w: "weigh_host oc ratio h want d = Inr w"
        using sc h by (auto simp: scanned_def is_ok_iff)
      show ?thesis
      proof (cases w)
        case (Inl reason)
        then show ?thesis using sc h w by (auto simp: scanned_def)
      next
        case (Inr mv)
        then show ?thesis using sc h w by (cases mv) (auto simp: scanned_def)
      qed
    qed
    have "\<not> placeable_with oc ratio want d h w" for h w
      using refused [of h] by (auto simp: placeable_with_def)
    then show ?thesis using refused 2(2) by blast
  qed
qed

section \<open>Contact\<close>

lemma distinct_map_filterD:
  assumes "distinct (List.map_filter f xs)" "x \<in> set xs" "f x = Some v" "f y = Some v" "y \<in> set xs"
  shows "x = y"
  using assms
proof (induction xs)
  case (Cons a xs)
  then show ?case by (cases "f a") (force simp: List.map_filter_simps)+
qed simp

lemma observe_host_InrD:
  assumes "observe_host hid seen now d = (Inr health, d')"
  obtains row where "find (\<lambda>h. h_id h = hid) (db_hosts d) = Some row"
    "health = (case hs_machine_id seen of None \<Rightarrow> HUnreachable | Some m \<Rightarrow>
       if h_machine_id row = None \<or> h_machine_id row = Some m then HOk else HMismatched)"
    "db_hosts d' = (if h_machine_id row = None \<and> hs_machine_id seen \<noteq> None
       then map (\<lambda>h. if h_id h = hid then h\<lparr>h_machine_id := hs_machine_id seen\<rparr> else h) (db_hosts d) else db_hosts d)"
    "db_slots d' = db_slots d" "db_instances d' = db_instances d"
    "db_observations d' = (db_observations d)(hid \<mapsto> merge_observation
      \<lparr>o_health = health, o_last_contact_at = (if health = HOk then Some now else None),
       o_accepted_epoch = hs_accepted_epoch seen,
       o_arch = hs_arch seen, o_cpu_count = hs_cpu_count seen,
       o_memory_total_mib = hs_memory_total_mib seen, o_storage_total_gib = hs_storage_total_gib seen,
       o_storage_available_gib = hs_storage_available_gib seen,
       o_hypervisor_version = hs_hypervisor_version seen, o_last_error = hs_error seen\<rparr> (db_observations d hid))"
proof -
  obtain row where row: "find (\<lambda>h. h_id h = hid) (db_hosts d) = Some row"
    using assms by (auto simp: observe_host_def with_tx_Inr_iff result_simps)
  show thesis
  proof (cases "hs_machine_id seen")
    case None
    then show thesis using assms row
      by (intro that [OF row]) (auto simp: observe_host_def with_tx_Inr_iff result_simps Let_def split: option.splits)
  next
    case reported: (Some m)
    show thesis
    proof (cases "h_machine_id row")
      case None
      then show thesis using assms row reported
        by (intro that [OF row])
          (auto simp: observe_host_def with_tx_Inr_iff result_simps Let_def update_hosts_Inr_iff)
    next
      case (Some k)
      then show thesis using assms row reported
        by (intro that [OF row]) (auto simp: observe_host_def with_tx_Inr_iff result_simps Let_def)
    qed
  qed
qed

text \<open>The host rows after \<open>ensure_host\<close>: the known row follows the report, or the only row
  of a database with no machine id is claimed, or a row is added.\<close>

definition ensured :: "string \<Rightarrow> string \<Rightarrow> string \<Rightarrow> time \<Rightarrow> host list \<Rightarrow> host list" where
  "ensured m name uri now rows =
    (if m \<in> set (List.map_filter h_machine_id rows)
     then map (\<lambda>r. if h_machine_id r = Some m then r\<lparr>h_name := name, h_libvirt_uri := uri\<rparr> else r) rows
     else if length rows = 1 \<and> h_machine_id (hd rows) = None
     then [(hd rows)\<lparr>h_machine_id := Some m, h_name := name, h_libvirt_uri := uri\<rparr>]
     else rows @ [\<lparr>h_id = next_rowid (map h_id rows), h_machine_id = Some m,
                h_name = name, h_libvirt_uri = uri, h_endpoint = None, h_underlay = None,
                h_enabled = True, h_placement = PActive, h_created_at = now\<rparr>])"

lemma update_known_none:
  assumes "m \<notin> set (List.map_filter h_machine_id (db_hosts d))"
  shows "filter (\<lambda>h. h_machine_id h = Some m) (db_hosts d) = []"
    "map (\<lambda>h. if h_machine_id h = Some m then f h else h) (db_hosts d) = db_hosts d"
  using assms by (auto simp: filter_empty_conv intro: map_idI)

lemma ensure_host_InrD:
  assumes "ensure_host m name uri now d = (Inr h, d')"
  shows "h_machine_id h = Some m" "h \<in> set (db_hosts d')" "hosts_unique (db_hosts d')"
    "db_hosts d' = ensured m name uri now (db_hosts d)" "db_instances d' = db_instances d"
    "db_slots d' = (if db_slots d = [] then [\<lparr>s_slot = 0, s_state = SActive, s_owner_host_id = h_id h,
            s_ownership_epoch = 0, s_source_host_id = None, s_destination_host_id = None,
            s_operation_id = None\<rparr>] else db_slots d)"
proof -
  define upd where "upd = (\<lambda>h. h\<lparr>h_name := name, h_libvirt_uri := uri\<rparr>)"
  define new where "new = \<lparr>h_id = next_rowid (map h_id (db_hosts d)), h_machine_id = Some m,
                h_name = name, h_libvirt_uri = uri, h_endpoint = None, h_underlay = None,
                h_enabled = True, h_placement = PActive, h_created_at = now\<rparr>"
  obtain d2 where d2: "db_hosts d2 = ensured m name uri now (db_hosts d)" "hosts_unique (db_hosts d2)"
      "db_slots d2 = db_slots d" "db_instances d2 = db_instances d"
      and f: "find (\<lambda>h. h_machine_id h = Some m) (db_hosts d2) = Some h"
      and fin: "(if length (db_slots d2) = 0 then
        and_then (insert_slot \<lparr>s_slot = 0, s_state = SActive, s_owner_host_id = h_id h,
            s_ownership_epoch = 0, s_source_host_id = None, s_destination_host_id = None,
            s_operation_id = None\<rparr> d2) (\<lambda>d3. Inr (h, d3))
      else Inr (h, d2)) = Inr (h, d')"
  proof (cases "m \<in> set (List.map_filter h_machine_id (db_hosts d))")
    case True
    then have "filter (\<lambda>h. h_machine_id h = Some m) (db_hosts d) \<noteq> []" by (auto simp: filter_empty_conv)
    then show thesis using assms True
      by (intro that [of "d\<lparr>db_hosts := map (\<lambda>r. if h_machine_id r = Some m then r\<lparr>h_name := name, h_libvirt_uri := uri\<rparr> else r) (db_hosts d)\<rparr>"])
        (auto simp: ensure_host_def with_tx_Inr_iff result_simps update_hosts_Inr_iff ensured_def split: if_splits)
  next
    case False
    note none = update_known_none [OF False]
    consider (claim) u where "db_hosts d = [u]" "h_machine_id u = None"
      | (add) "(if length (db_hosts d) = 1 then find (\<lambda>h. h_machine_id h = None) (db_hosts d) else None) = None"
          "ensured m name uri now (db_hosts d) = db_hosts d @ [new]"
    proof (cases "length (db_hosts d) = 1 \<and> h_machine_id (hd (db_hosts d)) = None")
      case True
      then show thesis by (intro claim [of "hd (db_hosts d)"]) (auto simp: length_Suc_conv)
    next
      case neg: False
      then show thesis using False
        by (intro add) (auto simp: ensured_def new_def length_Suc_conv)
    qed
    then show thesis
    proof cases
      case claim
      then show thesis using assms False
        by (intro that [of "d\<lparr>db_hosts := [u\<lparr>h_machine_id := Some m, h_name := name, h_libvirt_uri := uri\<rparr>]\<rparr>"])
          (auto simp: ensure_host_def with_tx_Inr_iff result_simps update_hosts_Inr_iff ensured_def split: if_splits)
    next
      case add
      then show thesis using assms False
        by (intro that [of "d\<lparr>db_hosts := db_hosts d @ [new]\<rparr>"])
          (auto simp: ensure_host_def with_tx_Inr_iff result_simps update_hosts_Inr_iff none insert_host_Inr_iff
            simp flip: new_def split: if_splits)
    qed
  qed
  show "h_machine_id h = Some m" using f by (auto simp: find_Some_iff)
  have d': "db_hosts d' = db_hosts d2" "db_instances d' = db_instances d2"
    using fin by (auto simp: result_simps insert_slot_Inr_iff split: if_splits)
  show "h \<in> set (db_hosts d')" using f d' by (auto simp: find_Some_iff)
  show "hosts_unique (db_hosts d')" "db_hosts d' = ensured m name uri now (db_hosts d)"
    "db_instances d' = db_instances d" using d2 d' by simp_all
  show "db_slots d' = (if db_slots d = [] then [\<lparr>s_slot = 0, s_state = SActive, s_owner_host_id = h_id h,
            s_ownership_epoch = 0, s_source_host_id = None, s_destination_host_id = None,
            s_operation_id = None\<rparr>] else db_slots d)"
    using fin d2(3) by (auto simp: result_simps insert_slot_Inr_iff split: if_splits)
qed

section \<open>Images held by a machine\<close>

lemma hosts_missing_iff:
  assumes "h \<in> set (db_hosts d)" "h_enabled h" "h_placement h = PActive" "distinct (map h_name (db_hosts d))"
  shows "h_name h \<in> set (hosts_missing_image i c d) \<longleftrightarrow>
    (h_id h, i, bare_checksum c) \<notin> image_key ` set (db_host_images d)"
proof -
  have "h' = h" if "h' \<in> set (db_hosts d)" "h_name h' = h_name h" for h'
    using that assms(1,4) by (auto simp: distinct_map inj_on_def)
  then show ?thesis
    using assms(1-3) by (auto simp: hosts_missing_image_def list_ex_iff image_key_def image_iff) metis+
qed

lemma record_host_imageD:
  assumes "record_host_image host_id i c now d = (Inr u, d')"
  shows "db_hosts d' = db_hosts d" "db_image_versions d' = db_image_versions d"
    "image_key ` set (db_host_images d') = insert (host_id, i, bare_checksum c) (image_key ` set (db_host_images d))"
proof -
  define row where "row = \<lparr>hi_host_id = host_id, hi_image_name = i, hi_checksum = bare_checksum c, hi_verified_at = now\<rparr>"
  define f where "f = (\<lambda>r. if image_key r = image_key row then r\<lparr>hi_verified_at := now\<rparr> else r)"
  have row: "image_key row = (host_id, i, bare_checksum c)" by (simp add: row_def image_key_def)
  have f: "image_key (f r) = image_key r" for r by (simp add: f_def image_key_def)
  have "image_key row \<in> image_key ` set (db_host_images d) \<and> d' = d\<lparr>db_host_images := map f (db_host_images d)\<rparr> \<or>
      d' = d\<lparr>db_host_images := db_host_images d @ [row]\<rparr>"
    using assms
    by (auto simp: record_host_image_def with_tx_Inr_iff Let_def simp flip: row_def f_def split: if_splits)
  then show "db_hosts d' = db_hosts d" "db_image_versions d' = db_image_versions d"
    "image_key ` set (db_host_images d') = insert (host_id, i, bare_checksum c) (image_key ` set (db_host_images d))"
    by (elim disjE conjE; simp add: image_image f row insert_absorb)+
qed

lemma record_local_image_versionsD:
  assumes "record_local_image_versions own now d = (Inr n, d')"
  shows "db_hosts d' = db_hosts d"
    "image_key ` set (db_host_images d') =
      image_key ` set (db_host_images d) \<union> (\<lambda>v. (own, iv_image_name v, iv_checksum v)) ` set (db_image_versions d)"
proof -
  let ?row = "\<lambda>v. \<lparr>hi_host_id = own, hi_image_name = iv_image_name v, hi_checksum = iv_checksum v, hi_verified_at = now\<rparr>"
  let ?new = "filter (\<lambda>r. image_key r \<notin> image_key ` set (db_host_images d)) (map ?row (db_image_versions d))"
  have d': "d' = d\<lparr>db_host_images := db_host_images d @ ?new\<rparr>"
    using assms by (auto simp: record_local_image_versions_def with_tx_Inr_iff Let_def split: if_splits)
  have key: "image_key (?row v) = (own, iv_image_name v, iv_checksum v)" for v by (simp add: image_key_def)
  show "db_hosts d' = db_hosts d" by (simp add: d')
  have "K \<union> {k \<in> R. k \<notin> K} = K \<union> R" for K R :: "'a set" by blast
  moreover have "image_key ` set ?new = {k \<in> (\<lambda>v. (own, iv_image_name v, iv_checksum v)) ` set (db_image_versions d).
      k \<notin> image_key ` set (db_host_images d)}"
    by (auto simp: key image_iff) (metis key)+
  ultimately show "image_key ` set (db_host_images d') =
      image_key ` set (db_host_images d) \<union> (\<lambda>v. (own, iv_image_name v, iv_checksum v)) ` set (db_image_versions d)"
    by (auto simp add: d' image_Un)
qed

lemma sql_sum_Inl_iff [simp]: "sql_sum ns = Inl e \<longleftrightarrow> i64_max < int (sum_list ns) \<and> e = Sqlite"
  by (auto simp: sql_sum_def)

section \<open>Properties\<close>

text \<open>A second machine of the example deployment, with no machine id yet, and what the
  controller saw of the first one.\<close>

definition sample_seen :: host_seen where
  "sample_seen = \<lparr>hs_machine_id = Some ''m1'', hs_accepted_epoch = 3, hs_arch = Some ''x86_64'',
    hs_cpu_count = Some 8, hs_memory_total_mib = Some 8000, hs_storage_total_gib = Some 100,
    hs_storage_available_gib = Some 90, hs_hypervisor_version = None, hs_error = None\<rparr>"

definition sample_want :: placing where
  "sample_want = \<lparr>pl_vcpu = 1, pl_memory_mib = 1024, pl_disk_gib = 10, pl_arch = Some ''x86_64''\<rparr>"

definition sample_fleet :: db where
  "sample_fleet = snd (observe_host 1 sample_seen 9 (sample_db1\<lparr>db_hosts := db_hosts sample_db1 @
    [\<lparr>h_id = 2, h_machine_id = None, h_name = ''two'', h_libvirt_uri = [], h_endpoint = Some ''e'',
      h_underlay = Some ''u'', h_enabled = True, h_placement = PActive, h_created_at = 1\<rparr>]\<rparr>))"

lemmas host_eval = runner_eval sample_seen_def sample_want_def sample_fleet_def observe_host_def update_hosts_def
  hosts_unique_def merge_observation_def Let_def with_tx_def weigh_host_def consider_host_def choose_host_def
  arch_mismatch_def disk_short_def List.map_filter_simps











end
