(* ===== verification/Store_Access.thy ===== *)
theory Store_Access
  imports Store_Instances Net_Subnet
begin

text \<open>
  Accounts and access: \<open>crates/store/src/users.rs\<close>, \<open>shares.rs\<close>, \<open>sshkeys.rs\<close>,
  \<open>tokens.rs\<close> and \<open>pairings.rs\<close>.

  Registration scans the stored subnets and inserts in one transaction.  A key
  fingerprint, a token hash and a link token hash are unique columns; a foreign key to
  an unknown user or instance is the error \<open>Sqlite\<close>.  Pairings expire by comparing
  timestamps as text, so those operations take \<open>format_time\<close>.
\<close>

section \<open>Users\<close>

record usage =
  us_instances :: nat
  us_vcpu :: nat
  us_memory_mib :: nat
  us_disk_gib :: nat

definition NAME_VARIANTS :: nat where "NAME_VARIANTS = 100"

definition name_candidate :: "string \<Rightarrow> nat \<Rightarrow> string" where
  "name_candidate preferred suffix = (if suffix = 1 then preferred else preferred @ ''-'' @ show_nat suffix)"

definition available_name :: "string \<Rightarrow> db \<Rightarrow> (store_error, string) result" where
  "available_name preferred d =
    (case find (\<lambda>suffix. find (\<lambda>u. u_name u = name_candidate preferred suffix) (db_users d) = None)
        [1..<NAME_VARIANTS + 1] of
       Some suffix \<Rightarrow> Inr (name_candidate preferred suffix)
     | None \<Rightarrow> Inl NameTaken)"

definition masked_address :: "ipv4_addr \<Rightarrow> nat \<Rightarrow> ipv4_addr" where
  "masked_address address bits = address AND (if bits = 0 then 0 else push_bit (32 - bits) (- 1))"

definition next_free_subnet :: "ipv4_prefix \<Rightarrow> ipv4_addr list \<Rightarrow> (store_error, string) result" where
  "next_free_subnet rng used =
    (if p_bits rng > 24 then Inl InvalidPrivateRange
     else
       let base = masked_address (p_addr rng) (p_bits rng); count = 2 ^ (24 - p_bits rng) in
       (case find (\<lambda>index. base + push_bit 8 (of_nat index) \<notin> set used) [0..<count] of
          Some index \<Rightarrow> Inr (show_ipv4 (base + push_bit 8 (of_nat index)) @ ''/24'')
        | None \<Rightarrow> Inl NoFreeSubnet))"

definition used_subnet :: "user \<Rightarrow> (store_error, ipv4_addr) result" where
  "used_subnet u =
    (case parse_prefix (u_subnet u) of
       None \<Rightarrow> Inl InvalidPrivateRange
     | Some parsed \<Rightarrow> Inr (masked_address (p_addr parsed) (p_bits parsed)))"

definition users_unique :: "user list \<Rightarrow> bool" where
  "users_unique rows \<longleftrightarrow> distinct (map u_id rows) \<and> distinct (map u_name rows) \<and>
    distinct (map u_subnet rows) \<and> distinct (List.map_filter u_oidc_subject rows)"

definition insert_user :: "user \<Rightarrow> db \<Rightarrow> (store_error, db) result" where
  "insert_user r d =
    (if users_unique (db_users d @ [r]) then Inr (d\<lparr>db_users := db_users d @ [r]\<rparr>) else Inl Sqlite)"

definition register ::
  "string \<Rightarrow> string \<Rightarrow> string option \<Rightarrow> ipv4_prefix \<Rightarrow> bool \<Rightarrow> time \<Rightarrow> db \<Rightarrow> (store_error, user) result \<times> db" where
  "register name email oidc_subject private_range dedupe_name now = with_tx (\<lambda>d.
    and_then (if dedupe_name then available_name name d else Inr name) (\<lambda>name.
    and_then (try_map used_subnet (db_users d)) (\<lambda>used.
    and_then (next_free_subnet private_range used) (\<lambda>subnet.
      let row = \<lparr>u_id = next_rowid (map u_id (db_users d)), u_name = name, u_email = email,
                 u_oidc_subject = oidc_subject, u_subnet = subnet, u_created_at = now\<rparr> in
      and_then (insert_user row d) (\<lambda>d1. Inr (row, d1))))))"

definition register_user ::
  "string \<Rightarrow> string \<Rightarrow> string option \<Rightarrow> ipv4_prefix \<Rightarrow> time \<Rightarrow> db \<Rightarrow> (store_error, user) result \<times> db" where
  "register_user name email oidc_subject private_range = register name email oidc_subject private_range False"

definition register_user_with_available_name ::
  "string \<Rightarrow> string \<Rightarrow> string option \<Rightarrow> ipv4_prefix \<Rightarrow> time \<Rightarrow> db \<Rightarrow> (store_error, user) result \<times> db" where
  "register_user_with_available_name preferred email oidc_subject private_range =
    register preferred email oidc_subject private_range True"

definition user_by :: "(user \<Rightarrow> bool) \<Rightarrow> db \<Rightarrow> (store_error, user) result" where
  "user_by P = with_conn (\<lambda>d. ok_or NotFound (find P (db_users d)))"

definition user_by_id :: "int \<Rightarrow> db \<Rightarrow> (store_error, user) result" where
  "user_by_id uid = user_by (\<lambda>u. u_id u = uid)"

definition user_by_name :: "string \<Rightarrow> db \<Rightarrow> (store_error, user) result" where
  "user_by_name name = user_by (\<lambda>u. u_name u = name)"

definition user_by_oidc_subject :: "string \<Rightarrow> db \<Rightarrow> (store_error, user) result" where
  "user_by_oidc_subject subject = user_by (\<lambda>u. u_oidc_subject u = Some subject)"

definition users :: "db \<Rightarrow> user list" where
  "users d = sort_key u_name (db_users d)"

definition usage_for :: "int \<Rightarrow> db \<Rightarrow> (store_error, usage) result" where
  "usage_for user_id = with_conn (\<lambda>d.
    let rows = filter (\<lambda>i. i_owner_id i = user_id) (db_instances d) in
    and_then (sql_sum (map i_vcpu rows)) (\<lambda>vcpu.
    and_then (sql_sum (map i_memory_mib rows)) (\<lambda>memory.
    and_then (sql_sum (map i_disk_gib rows)) (\<lambda>disk.
      Inr \<lparr>us_instances = length rows, us_vcpu = vcpu, us_memory_mib = memory, us_disk_gib = disk\<rparr>))))"

section \<open>Shares\<close>

definition add_share :: "string \<Rightarrow> int \<Rightarrow> time \<Rightarrow> db \<Rightarrow> (store_error, unit) result \<times> db" where
  "add_share instance_uuid user_id now = with_tx (\<lambda>d.
    if list_ex (\<lambda>s. sh_instance_uuid s = instance_uuid \<and> sh_user_id s = user_id) (db_shares d) then Inr ((), d)
    else if instance_uuid \<in> i_uuid ` set (db_instances d) \<and> user_id \<in> u_id ` set (db_users d)
    then Inr ((), d\<lparr>db_shares := db_shares d @
      [\<lparr>sh_instance_uuid = instance_uuid, sh_user_id = user_id, sh_created_at = now\<rparr>]\<rparr>)
    else Inl Sqlite)"

definition remove_share :: "string \<Rightarrow> int \<Rightarrow> db \<Rightarrow> (store_error, unit) result \<times> db" where
  "remove_share instance_uuid user_id = with_tx (\<lambda>d.
    let hit = (\<lambda>s. sh_instance_uuid s = instance_uuid \<and> sh_user_id s = user_id) in
    if length (filter hit (db_shares d)) = 0 then Inl NotFound
    else Inr ((), d\<lparr>db_shares := filter (\<lambda>s. \<not> hit s) (db_shares d)\<rparr>))"

definition shares_for :: "string \<Rightarrow> db \<Rightarrow> share list" where
  "shares_for instance_uuid d =
    sort_key sh_user_id (filter (\<lambda>s. sh_instance_uuid s = instance_uuid) (db_shares d))"

definition instances_shared_with :: "(time \<Rightarrow> string) \<Rightarrow> int \<Rightarrow> db \<Rightarrow> vm_instance list" where
  "instances_shared_with format_time user_id d =
    list_instances format_time
      (\<lambda>i. i_uuid i \<in> sh_instance_uuid ` set (filter (\<lambda>s. sh_user_id s = user_id) (db_shares d))) d"

definition has_access :: "string \<Rightarrow> int \<Rightarrow> db \<Rightarrow> bool" where
  "has_access instance_uuid user_id d =
    (list_ex (\<lambda>i. i_uuid i = instance_uuid \<and> i_owner_id i = user_id) (db_instances d) \<or>
     list_ex (\<lambda>s. sh_instance_uuid s = instance_uuid \<and> sh_user_id s = user_id) (db_shares d))"

section \<open>SSH keys\<close>

definition insert_ssh_key ::
  "int \<Rightarrow> string \<Rightarrow> string \<Rightarrow> string \<Rightarrow> time \<Rightarrow> int tx" where
  "insert_ssh_key user_id public_key fingerprint comment now d =
    (if fingerprint \<in> k_fingerprint ` set (db_ssh_keys d) then Inl SshKeyTaken
     else if user_id \<notin> u_id ` set (db_users d) then Inl Sqlite
     else
       let rowid = next_rowid (map k_id (db_ssh_keys d)) in
       Inr (rowid, d\<lparr>db_ssh_keys := db_ssh_keys d @
         [\<lparr>k_id = rowid, k_user_id = user_id, k_public_key = public_key, k_fingerprint = fingerprint,
           k_comment = comment, k_created_at = now\<rparr>]\<rparr>))"

definition add_ssh_key ::
  "int \<Rightarrow> string \<Rightarrow> string \<Rightarrow> string \<Rightarrow> time \<Rightarrow> db \<Rightarrow> (store_error, int) result \<times> db" where
  "add_ssh_key user_id public_key fingerprint comment now =
    with_tx (insert_ssh_key user_id public_key fingerprint comment now)"

definition ssh_key_by_fingerprint :: "string \<Rightarrow> db \<Rightarrow> (store_error, ssh_key) result" where
  "ssh_key_by_fingerprint fingerprint =
    with_conn (\<lambda>d. ok_or NotFound (find (\<lambda>k. k_fingerprint k = fingerprint) (db_ssh_keys d)))"

definition ssh_keys_for_user :: "int \<Rightarrow> db \<Rightarrow> ssh_key list" where
  "ssh_keys_for_user user_id d = sort_key k_id (filter (\<lambda>k. k_user_id k = user_id) (db_ssh_keys d))"

definition delete_ssh_key :: "int \<Rightarrow> int \<Rightarrow> db \<Rightarrow> (store_error, unit) result \<times> db" where
  "delete_ssh_key user_id key_id = with_tx (\<lambda>d.
    let hit = (\<lambda>k. k_id k = key_id \<and> k_user_id k = user_id) in
    if length (filter hit (db_ssh_keys d)) = 0 then Inl NotFound
    else Inr ((), d\<lparr>db_ssh_keys := filter (\<lambda>k. \<not> hit k) (db_ssh_keys d)\<rparr>))"

section \<open>Tokens\<close>

definition create_token ::
  "int \<Rightarrow> string \<Rightarrow> time option \<Rightarrow> db \<Rightarrow> (store_error, int) result \<times> db" where
  "create_token user_id hash expires_at = with_tx (\<lambda>d.
    if hash \<in> t_hash ` set (db_tokens d) \<or> user_id \<notin> u_id ` set (db_users d) then Inl Sqlite
    else
      let rowid = next_rowid (map t_id (db_tokens d)) in
      Inr (rowid, d\<lparr>db_tokens := db_tokens d @
        [\<lparr>t_id = rowid, t_user_id = user_id, t_hash = hash, t_expires_at = expires_at\<rparr>]\<rparr>))"

definition token_by_hash :: "string \<Rightarrow> db \<Rightarrow> (store_error, token) result" where
  "token_by_hash hash = with_conn (\<lambda>d. ok_or NotFound (find (\<lambda>t. t_hash t = hash) (db_tokens d)))"

definition delete_tokens :: "(token \<Rightarrow> bool) \<Rightarrow> db \<Rightarrow> (store_error, unit) result \<times> db" where
  "delete_tokens hit = with_tx (\<lambda>d.
    if length (filter hit (db_tokens d)) = 0 then Inl NotFound
    else Inr ((), d\<lparr>db_tokens := filter (\<lambda>t. \<not> hit t) (db_tokens d)\<rparr>))"

definition delete_token :: "int \<Rightarrow> int \<Rightarrow> db \<Rightarrow> (store_error, unit) result \<times> db" where
  "delete_token user_id token_id = delete_tokens (\<lambda>t. t_id t = token_id \<and> t_user_id t = user_id)"

definition delete_token_by_id :: "int \<Rightarrow> db \<Rightarrow> (store_error, unit) result \<times> db" where
  "delete_token_by_id token_id = delete_tokens (\<lambda>t. t_id t = token_id)"

section \<open>Pairings\<close>

definition create_pairing ::
  "(time \<Rightarrow> string) \<Rightarrow> string \<Rightarrow> string \<Rightarrow> string \<Rightarrow> string \<Rightarrow> time \<Rightarrow> time \<Rightarrow> db \<Rightarrow>
    (store_error, pairing) result \<times> db" where
  "create_pairing format_time token_hash public_key fingerprint comment expires_at now = with_tx (\<lambda>d.
    let kept = filter (\<lambda>p. \<not> (pa_linked_user_id p = None \<and>
          format_time (pa_expires_at p) \<le> format_time now)) (db_pairings d) in
    if token_hash \<in> pa_token_hash ` set kept then Inl Sqlite
    else
      let row = \<lparr>pa_id = next_rowid (map pa_id kept), pa_token_hash = token_hash, pa_public_key = public_key,
                 pa_fingerprint = fingerprint, pa_comment = comment, pa_created_at = now,
                 pa_expires_at = expires_at, pa_linked_user_id = None\<rparr> in
      Inr (row, d\<lparr>db_pairings := kept @ [row]\<rparr>))"

definition pairing_by_token_hash :: "string \<Rightarrow> db \<Rightarrow> (store_error, pairing) result" where
  "pairing_by_token_hash token_hash =
    with_conn (\<lambda>d. ok_or NotFound (find (\<lambda>p. pa_token_hash p = token_hash) (db_pairings d)))"

definition pairing_of :: "int \<Rightarrow> db \<Rightarrow> (store_error, pairing) result" where
  "pairing_of pid = with_conn (\<lambda>d. ok_or NotFound (find (\<lambda>p. pa_id p = pid) (db_pairings d)))"

definition link_pairing ::
  "(time \<Rightarrow> string) \<Rightarrow> int \<Rightarrow> int \<Rightarrow> time \<Rightarrow> time \<Rightarrow> db \<Rightarrow> (store_error, int) result \<times> db" where
  "link_pairing format_time pid user_id now now' = with_tx (\<lambda>d.
    let hit = (\<lambda>p. pa_id p = pid \<and> pa_linked_user_id p = None \<and>
                    format_time (pa_expires_at p) > format_time now) in
    if length (filter hit (db_pairings d)) = 0 then Inl NotFound
    else if user_id \<notin> u_id ` set (db_users d) then Inl Sqlite
    else
      let d1 = d\<lparr>db_pairings := map (\<lambda>p. if hit p then p\<lparr>pa_linked_user_id := Some user_id\<rparr> else p) (db_pairings d)\<rparr> in
      and_then (ok_or Sqlite (find (\<lambda>p. pa_id p = pid) (db_pairings d1))) (\<lambda>p.
        insert_ssh_key user_id (pa_public_key p) (pa_fingerprint p) (pa_comment p) now' d1))"

section \<open>The subnet scan\<close>

lemma masked_address_eq: "bits \<le> 32 \<Longrightarrow> masked_address a bits = a AND prefix_mask bits"
  by (simp add: masked_address_def prefix_mask_def)

lemma masked_address_masked: "p_bits p \<le> 32 \<Longrightarrow> masked_address (p_addr p) (p_bits p) = p_addr (masked p)"
  by (simp add: masked_address_eq masked_def)

lemma find_cong_upt:
  "(\<And>i. i < n \<Longrightarrow> P i = Q i) \<Longrightarrow> find P [0..<n] = find Q [0..<n]"
  by (rule find_cong) simp_all

lemma show_slash_24: "show_ipv4 a @ ''/24'' = format_prefix \<lparr>p_addr = a, p_bits = 24\<rparr>"
proof -
  have "show_nat 24 = ''24''" by (simp add: text_eval)
  then show ?thesis by (simp add: format_prefix_def)
qed

text \<open>The scan over the stored subnets is the allocator of the network crate.\<close>

lemma next_free_subnet_plan:
  assumes "from_prefix rng = Inr pl" "\<forall>p \<in> set ps. p_bits p = 24"
  shows "next_free_subnet rng (map (\<lambda>p. masked_address (p_addr p) (p_bits p)) ps) =
    (case plan_allocate pl (Inr ps) of Inr p \<Rightarrow> Inr (format_prefix p) | Inl _ \<Rightarrow> Inl NoFreeSubnet)"
proof -
  have pl: "plan_ok pl" and bits: "p_bits rng \<le> 24" and pre: "plan_prefix pl = masked rng"
    using assms(1) from_prefix_ok by (auto simp: from_prefix_def split: if_splits)
  define base where "base = p_addr (plan_prefix pl)"
  have base: "masked_address (p_addr rng) (p_bits rng) = base"
    using bits by (simp add: base_def pre masked_address_masked)
  have count: "2 ^ (24 - p_bits rng) = subnets pl" by (simp add: subnets_def pre)
  have sub: "plan_subnet pl (int i) = Inr \<lparr>p_addr = base + push_bit 8 (of_nat i), p_bits = 24\<rparr>"
    if "i < subnets pl" for i
    using that by (simp add: plan_subnet_def base_def)
  have used: "base + push_bit 8 (of_nat i) \<in> set (map (\<lambda>p. masked_address (p_addr p) (p_bits p)) ps) \<longleftrightarrow>
      i \<in> set (List.map_filter (\<lambda>p. to_ok (plan_index pl p)) ps)" if i: "i < subnets pl" for i
  proof -
    have idx: "plan_index pl p = Inr i \<longleftrightarrow> p_addr (masked p) = base + push_bit 8 (of_nat i)" if p: "p_bits p = 24" for p
    proof
      assume "plan_index pl p = Inr i"
      then have "masked p = \<lparr>p_addr = base + push_bit 8 (of_nat i), p_bits = 24\<rparr>"
        using plan_subnet_of_index [OF pl] sub [OF i] by fastforce
      then show "p_addr (masked p) = base + push_bit 8 (of_nat i)" by simp
    next
      assume "p_addr (masked p) = base + push_bit 8 (of_nat i)"
      then have "masked p = \<lparr>p_addr = base + push_bit 8 (of_nat i), p_bits = 24\<rparr>"
        using p by (simp add: masked_def)
      then have "plan_index pl (masked p) = Inr i" using plan_index_subnet [OF pl sub [OF i]] by simp
      moreover have "unat (p_addr (masked p)) div 256 = unat (p_addr p) div 256"
        using p by (simp add: unat_masked)
      ultimately show "plan_index pl p = Inr i"
        using p by (simp add: plan_index_Inr_iff [OF pl])
    qed
    have "map (\<lambda>p. masked_address (p_addr p) (p_bits p)) ps = map (\<lambda>p. p_addr (masked p)) ps"
      using assms(2) by (intro map_cong refl masked_address_masked) simp
    moreover have "base + push_bit 8 (of_nat i) \<in> set (map (\<lambda>p. p_addr (masked p)) ps) \<longleftrightarrow>
        (\<exists>p \<in> set ps. plan_index pl p = Inr i)"
      using idx assms(2) by force
    ultimately show ?thesis by (simp only: in_map_filter_iff to_ok_Some_iff)
  qed
  have "find (\<lambda>i. base + push_bit 8 (of_nat i) \<notin> set (map (\<lambda>p. masked_address (p_addr p) (p_bits p)) ps)) [0..<subnets pl] =
      find (\<lambda>i. i \<notin> set (List.map_filter (\<lambda>p. to_ok (plan_index pl p)) ps)) [0..<subnets pl]"
    by (rule find_cong_upt) (simp only: used not_True_eq_False)
  then show ?thesis
    using bits sub find_upt_SomeD(2)
    by (auto simp: next_free_subnet_def Let_def base count plan_allocate_def show_slash_24 split: option.splits
        simp del: set_map)
qed

lemma available_name_InrD:
  assumes "available_name preferred d = Inr name"
  shows "name \<notin> u_name ` set (db_users d)"
    "\<exists>k. 1 \<le> k \<and> k \<le> NAME_VARIANTS \<and> name = name_candidate preferred k \<and>
      (\<forall>j. 1 \<le> j \<and> j < k \<longrightarrow> name_candidate preferred j \<in> u_name ` set (db_users d))"
proof -
  obtain k where f: "find (\<lambda>suffix. find (\<lambda>u. u_name u = name_candidate preferred suffix) (db_users d) = None)
        [1..<NAME_VARIANTS + 1] = Some k" and n: "name = name_candidate preferred k"
    using assms by (auto simp: available_name_def split: option.splits)
  note k = find_upt_SomeD [OF f]
  show "name \<notin> u_name ` set (db_users d)" using k(3) n by (simp add: find_key_None)
  have "name_candidate preferred j \<in> u_name ` set (db_users d)" if "1 \<le> j" "j < k" for j
    using k(4) [OF that] unfolding find_key_None by simp
  then show "\<exists>k. 1 \<le> k \<and> k \<le> NAME_VARIANTS \<and> name = name_candidate preferred k \<and>
      (\<forall>j. 1 \<le> j \<and> j < k \<longrightarrow> name_candidate preferred j \<in> u_name ` set (db_users d))"
    using k(1,2) n by (intro exI [of _ k]) simp
qed

lemma register_InrD:
  assumes "register name email oidc rng dedupe now d = (Inr u, d')"
  obtains ps where "list_all2 (\<lambda>u p. parse_prefix (u_subnet u) = Some p) (db_users d) ps"
    "next_free_subnet rng (map (\<lambda>p. masked_address (p_addr p) (p_bits p)) ps) = Inr (u_subnet u)"
    "if dedupe then available_name name d = Inr (u_name u) else u_name u = name"
    "u_email u = email" "u_oidc_subject u = oidc" "u_id u = next_rowid (map u_id (db_users d))"
    "users_unique (db_users d @ [u])" "d' = d\<lparr>db_users := db_users d @ [u]\<rparr>"
proof -
  obtain used where used: "try_map used_subnet (db_users d) = Inr used"
      "next_free_subnet rng used = Inr (u_subnet u)"
      and rest: "if dedupe then available_name name d = Inr (u_name u) else u_name u = name"
    "u_email u = email" "u_oidc_subject u = oidc" "u_id u = next_rowid (map u_id (db_users d))"
    "users_unique (db_users d @ [u])" "d' = d\<lparr>db_users := db_users d @ [u]\<rparr>"
    using assms by (auto simp: register_def with_tx_Inr_iff result_simps Let_def insert_user_def split: if_splits)
  define ps where "ps = map (\<lambda>u. the (parse_prefix (u_subnet u))) (db_users d)"
  have l: "list_all2 (\<lambda>u a. used_subnet u = Inr a) (db_users d) used" using used(1) by (simp add: try_map_Inr_iff)
  have one: "parse_prefix (u_subnet u) = Some (the (parse_prefix (u_subnet u))) \<and>
      a = masked_address (p_addr (the (parse_prefix (u_subnet u)))) (p_bits (the (parse_prefix (u_subnet u))))"
    if "used_subnet u = Inr a" for u a
    using that by (auto simp: used_subnet_def split: option.splits)
  have "list_all2 (\<lambda>u p. parse_prefix (u_subnet u) = Some p) (db_users d) ps"
    using l one unfolding ps_def by (fastforce simp: list_all2_conv_all_nth)
  moreover have "used = map (\<lambda>p. masked_address (p_addr p) (p_bits p)) ps"
    using l one unfolding ps_def by (intro nth_equalityI) (auto simp: list_all2_conv_all_nth)
  ultimately show thesis using that used(2) rest by blast
qed

section \<open>Pairings\<close>

lemma insert_ssh_key_InrD:
  assumes "insert_ssh_key uid pk fp c now d = Inr (kid, d')"
  shows "fp \<notin> k_fingerprint ` set (db_ssh_keys d)" "uid \<in> u_id ` set (db_users d)"
    "kid = next_rowid (map k_id (db_ssh_keys d))"
    "d' = d\<lparr>db_ssh_keys := db_ssh_keys d @ [\<lparr>k_id = kid, k_user_id = uid, k_public_key = pk, k_fingerprint = fp,
           k_comment = c, k_created_at = now\<rparr>]\<rparr>"
  using assms by (auto simp: insert_ssh_key_def Let_def split: if_splits)

lemma link_pairing_InrD:
  assumes "link_pairing ft pid uid now now' d = (Inr kid, d')" "distinct (map pa_id (db_pairings d))"
  obtains p where "p \<in> set (db_pairings d)" "pa_id p = pid" "pa_linked_user_id p = None"
    "ft now < ft (pa_expires_at p)" "uid \<in> u_id ` set (db_users d)"
    "pa_fingerprint p \<notin> k_fingerprint ` set (db_ssh_keys d)"
    "db_pairings d' = map (\<lambda>q. if pa_id q = pid then q\<lparr>pa_linked_user_id := Some uid\<rparr> else q) (db_pairings d)"
    "db_ssh_keys d' = db_ssh_keys d @ [\<lparr>k_id = kid, k_user_id = uid, k_public_key = pa_public_key p,
       k_fingerprint = pa_fingerprint p, k_comment = pa_comment p, k_created_at = now'\<rparr>]"
    "db_users d' = db_users d" "kid = next_rowid (map k_id (db_ssh_keys d))"
proof -
  define hit :: "pairing \<Rightarrow> bool" where "hit = (\<lambda>p. pa_id p = pid \<and> pa_linked_user_id p = None \<and> ft (pa_expires_at p) > ft now)"
  define d1 where "d1 = d\<lparr>db_pairings := map (\<lambda>p. if hit p then p\<lparr>pa_linked_user_id := Some uid\<rparr> else p) (db_pairings d)\<rparr>"
  obtain q where ne: "filter hit (db_pairings d) \<noteq> []" and u: "uid \<in> u_id ` set (db_users d)"
      and q: "find (\<lambda>p. pa_id p = pid) (db_pairings d1) = Some q"
      and ins: "insert_ssh_key uid (pa_public_key q) (pa_fingerprint q) (pa_comment q) now' d1 = Inr (kid, d')"
    using assms(1)
    by (auto simp: link_pairing_def with_tx_Inr_iff Let_def result_simps split: if_splits
        simp flip: hit_def d1_def)
  obtain p where p: "p \<in> set (db_pairings d)" "hit p" using ne by (auto simp: filter_empty_conv)
  have only: "hit r \<longleftrightarrow> pa_id r = pid" if "r \<in> set (db_pairings d)" for r
  proof
    assume "pa_id r = pid"
    then have "r = p" using that p assms(2) by (auto simp: hit_def distinct_map dest: inj_onD)
    then show "hit r" using p by simp
  qed (simp add: hit_def)
  then have pairs: "db_pairings d1 = map (\<lambda>q. if pa_id q = pid then q\<lparr>pa_linked_user_id := Some uid\<rparr> else q) (db_pairings d)"
    by (simp add: d1_def cong: map_cong)
  let ?f = "\<lambda>q. if pa_id q = pid then q\<lparr>pa_linked_user_id := Some uid\<rparr> else q"
  have "q \<in> set (map ?f (db_pairings d))" "pa_id q = pid" using find_SomeD [OF q] by (simp_all only: pairs)
  then obtain r where r: "r \<in> set (db_pairings d)" "q = ?f r" "pa_id q = pid" unfolding set_map by blast
  have "pa_id r = pid" using r(2,3) by (simp split: if_splits)
  then have "r = p" using r(1) p assms(2) by (auto simp: hit_def distinct_map dest: inj_onD)
  then have q': "pa_public_key q = pa_public_key p" "pa_fingerprint q = pa_fingerprint p" "pa_comment q = pa_comment p"
    using r(2) by simp_all
  note I = insert_ssh_key_InrD [OF ins [unfolded q']]
  have d1: "db_ssh_keys d1 = db_ssh_keys d" "db_users d1 = db_users d" by (simp_all add: d1_def)
  show thesis
    by (rule that [OF p(1)]) (use p(2) u I d1 pairs in \<open>simp_all add: hit_def\<close>)
qed

section \<open>Properties\<close>

lemma allocated_isolated:
  assumes "from_prefix rng = Inr pl" "plan_allocate pl (Inr used) = Inr p"
  shows "p_bits p = 24" "contains p a \<Longrightarrow> contains rng a"
    "u \<in> set used \<Longrightarrow> p_bits u = 24 \<Longrightarrow> \<not> (contains p a \<and> contains u a)"
proof -
  have pl: "plan_ok pl" using assms(1) by (rule from_prefix_ok)
  obtain i where i: "i < subnets pl" "plan_subnet pl (int i) = Inr p"
      "\<And>u. u \<in> set used \<Longrightarrow> plan_index pl u \<noteq> Inr i"
    by (rule plan_allocate_InrD [OF pl assms(2)]) blast
  show p: "p_bits p = 24" by (rule plan_subnet_InrD(3) [OF pl i(2)])
  have index: "plan_index pl p = Inr i" using plan_index_subnet [OF pl i(2)] by simp
  have rng: "plan_prefix pl = masked rng" using assms(1) by (auto simp: from_prefix_def split: if_splits)
  show "contains rng a" if "contains p a"
  proof -
    have "contains (plan_prefix pl) a"
      using that index i(1) p by (auto simp: plan_contains_iff [OF pl] plan_index_Inr_iff [OF pl] contains_24)
    then show ?thesis by (simp add: rng)
  qed
  show "\<not> (contains p a \<and> contains u a)" if "u \<in> set used" "p_bits u = 24"
  proof
    assume "contains p a \<and> contains u a"
    then have "plan_index pl u = Inr i"
      using index that(2) p by (simp add: plan_index_Inr_iff [OF pl] contains_24)
    then show False using i(3) that(1) by blast
  qed
qed

lemma users_parsed:
  assumes "\<forall>u \<in> set us. \<exists>p. parse_prefix (u_subnet u) = Some p \<and> p_bits p = 24"
  shows "try_map used_subnet us = Inr (map (\<lambda>p. masked_address (p_addr p) (p_bits p))
      (map (\<lambda>u. the (parse_prefix (u_subnet u))) us))"
    "\<forall>p \<in> set (map (\<lambda>u. the (parse_prefix (u_subnet u))) us). p_bits p = 24"
  using assms by (induction us) (auto simp: used_subnet_def)



text \<open>C11. Registration isolates users.  The user it creates has a fresh id and a fresh
  name, and a \<open>/24\<close> inside the private range that shares no address with the subnet of
  any user before; no other table changes.  With the name search on, the name is the
  preferred one or its first free numbered variant.  A refused registration writes
  nothing.\<close>

theorem register_isolates_users:
  assumes "\<forall>v \<in> set (db_users d). \<exists>q. parse_prefix (u_subnet v) = Some q \<and> p_bits q = 24"
  shows "case register name email oidc rng dedupe now d of
      (Inr u, d') \<Rightarrow> d' = d\<lparr>db_users := db_users d @ [u]\<rparr> \<and>
        u_id u \<notin> u_id ` set (db_users d) \<and> u_name u \<notin> u_name ` set (db_users d) \<and>
        (\<exists>p. parse_prefix (u_subnet u) = Some p \<and> p_bits p = 24 \<and> (\<forall>a. contains p a \<longrightarrow> contains rng a) \<and>
          (\<forall>v \<in> set (db_users d). \<forall>q. parse_prefix (u_subnet v) = Some q \<longrightarrow> (\<forall>a. \<not> (contains p a \<and> contains q a)))) \<and>
        (\<exists>k. 1 \<le> k \<and> k \<le> NAME_VARIANTS \<and> u_name u = (if dedupe then name_candidate name k else name))
    | (Inl _, d') \<Rightarrow> d' = d"
proof (cases "register name email oidc rng dedupe now d")
  case (Pair r d')
  show ?thesis
  proof (cases r)
    case (Inl e)
    then have "d' = d" using Pair by (simp add: register_def with_tx_Inl_iff)
    then show ?thesis using Pair Inl by simp
  next
    case (Inr u)
    obtain ps where l: "list_all2 (\<lambda>u p. parse_prefix (u_subnet u) = Some p) (db_users d) ps"
      and n: "next_free_subnet rng (map (\<lambda>p. masked_address (p_addr p) (p_bits p)) ps) = Inr (u_subnet u)"
      and nm: "if dedupe then available_name name d = Inr (u_name u) else u_name u = name"
      and uq: "users_unique (db_users d @ [u])" and d': "d' = d\<lparr>db_users := db_users d @ [u]\<rparr>"
      by (rule register_InrD [OF Pair [unfolded Inr]])
    have bits: "\<forall>p \<in> set ps. p_bits p = 24"
      using l assms by (auto simp: list_all2_conv_all_nth in_set_conv_nth) (metis nth_mem option.sel)
    have ps: "\<exists>p \<in> set ps. parse_prefix (u_subnet v) = Some p" if "v \<in> set (db_users d)" for v
      using l that by (fastforce simp: list_all2_conv_all_nth in_set_conv_nth)
    obtain pl where pl: "from_prefix rng = Inr pl"
      using n by (auto simp: next_free_subnet_def from_prefix_def split: if_splits)
    then obtain p where p: "plan_allocate pl (Inr ps) = Inr p" "u_subnet u = format_prefix p"
      using n next_free_subnet_plan [OF pl bits] by (auto split: sum.splits)
    note A = allocated_isolated [OF pl p(1)]
    have "\<exists>k. 1 \<le> k \<and> k \<le> NAME_VARIANTS \<and> u_name u = (if dedupe then name_candidate name k else name)"
    proof (cases dedupe)
      case True
      then have "available_name name d = Inr (u_name u)" using nm by simp
      then show ?thesis using available_name_InrD(2) True by fastforce
    qed (use nm in \<open>auto simp: NAME_VARIANTS_def intro: exI [of _ 1]\<close>)
    moreover have "\<not> (contains p a \<and> contains q a)"
      if "v \<in> set (db_users d)" "parse_prefix (u_subnet v) = Some q" for v q a
      using ps [OF that(1)] that(2) A(3) bits by auto
    moreover have "parse_prefix (u_subnet u) = Some p"
      using A(1) by (simp add: p(2) parse_prefix_format)
    ultimately show ?thesis
      using Pair Inr d' uq A(1,2) by (auto simp: users_unique_def)
  qed
qed

theorem register_isolates_users_witness:
  "\<exists>u d'. register ''ann'' ''x'' None \<lparr>p_addr = 0x0A4D0000, p_bits = 22\<rparr> True 9 sample_db = (Inr u, d') \<and>
    u_subnet u = ''10.77.2.0/24'' \<and> u_name u = ''ann-2'' \<and>
    (\<forall>a. \<not> (contains \<lparr>p_addr = 0x0A4D0200, p_bits = 24\<rparr> a \<and> contains \<lparr>p_addr = 0x0A4D0000, p_bits = 24\<rparr> a))"
proof -
  have p: "parse_prefix ''10.77.0.0/24'' = Some \<lparr>p_addr = 0x0A4D0000, p_bits = 24\<rparr>"
    "parse_prefix ''10.77.1.0/24'' = Some \<lparr>p_addr = 0x0A4D0100, p_bits = 24\<rparr>"
    "parse_prefix ''10.77.2.0/24'' = Some \<lparr>p_addr = 0x0A4D0200, p_bits = 24\<rparr>" by (simp_all add: text_eval)
  have ok: "\<forall>v \<in> set (db_users sample_db). \<exists>q. parse_prefix (u_subnet v) = Some q \<and> p_bits q = 24"
    by (simp add: sample_db_def p)
  have m: "masked_address 0x0A4D0000 22 = 0x0A4D0000" "masked_address 0x0A4D0000 24 = 0x0A4D0000"
    "masked_address 0x0A4D0100 24 = 0x0A4D0100" by code_simp+
  then have "next_free_subnet \<lparr>p_addr = 0x0A4D0000, p_bits = 22\<rparr> [0x0A4D0000, 0x0A4D0100] = Inr ''10.77.2.0/24''"
    by (simp add: next_free_subnet_def upt_rec text_eval)
  moreover have "name_candidate ''ann'' 1 = ''ann''" "name_candidate ''ann'' 2 = ''ann-2''"
    by (simp_all add: name_candidate_def text_eval)
  moreover have "available_name ''ann'' sample_db = Inr ''ann-2''"
  proof -
    have "[1..<NAME_VARIANTS + 1] = 1 # 2 # [3..<101]" by (simp add: NAME_VARIANTS_def upt_eq_Cons_conv)
    then show ?thesis using calculation unfolding available_name_def by (simp add: sample_db_def)
  qed
  ultimately obtain d' where reg: "register ''ann'' ''x'' None \<lparr>p_addr = 0x0A4D0000, p_bits = 22\<rparr> True 9 sample_db =
     (Inr \<lparr>u_id = 3, u_name = ''ann-2'', u_email = ''x'', u_oidc_subject = None, u_subnet = ''10.77.2.0/24'', u_created_at = 9\<rparr>, d')"
    by (simp add: register_def with_tx_def sample_db_def used_subnet_def p insert_user_def users_unique_def
        next_rowid_def List.map_filter_simps m Let_def)
  have u0: "hd (db_users sample_db) \<in> set (db_users sample_db)" "u_subnet (hd (db_users sample_db)) = ''10.77.0.0/24''"
    by (simp_all add: sample_db_def)
  have "\<exists>p. parse_prefix ''10.77.2.0/24'' = Some p \<and>
      (\<forall>v \<in> set (db_users sample_db). \<forall>q. parse_prefix (u_subnet v) = Some q \<longrightarrow> (\<forall>a. \<not> (contains p a \<and> contains q a)))"
    using register_isolates_users [OF ok, where name = "''ann''" and email = "''x''" and oidc = None
        and rng = "\<lparr>p_addr = 0x0A4D0000, p_bits = 22\<rparr>" and dedupe = True and now = 9]
    unfolding reg prod.case sum.case user.simps by blast
  then have "\<forall>q. parse_prefix ''10.77.0.0/24'' = Some q \<longrightarrow> (\<forall>a. \<not> (contains \<lparr>p_addr = 0x0A4D0200, p_bits = 24\<rparr> a \<and> contains q a))"
    using u0(1) unfolding p(3) u0(2) [symmetric] by blast
  then have dis: "\<forall>a. \<not> (contains \<lparr>p_addr = 0x0A4D0200, p_bits = 24\<rparr> a \<and> contains \<lparr>p_addr = 0x0A4D0000, p_bits = 24\<rparr> a)"
    unfolding p(1) by blast
  show ?thesis by (intro exI conjI, rule reg) (rule dis | simp)+
qed

text \<open>C21. A pairing is used once.  A link that succeeds adds exactly one key, the one the
  pairing was made for, to the user who confirmed; the key resolves to that user; the
  pairing is marked used and every later attempt on it, by anyone and at any time, is
  \<open>NotFound\<close> and changes nothing.  A failed link changes nothing, so no key is added
  without its pairing being used up.\<close>

theorem pairing_single_use:
  assumes "distinct (map pa_id (db_pairings d))"
  shows "case link_pairing format_time pid uid now now' d of
      (Inr kid, d') \<Rightarrow>
        (\<exists>p \<in> set (db_pairings d). pa_id p = pid \<and> pa_linked_user_id p = None \<and>
          db_ssh_keys d' = db_ssh_keys d @ [\<lparr>k_id = kid, k_user_id = uid, k_public_key = pa_public_key p,
            k_fingerprint = pa_fingerprint p, k_comment = pa_comment p, k_created_at = now'\<rparr>] \<and>
          and_then (ssh_key_by_fingerprint (pa_fingerprint p) d') (\<lambda>k. Inr (k_user_id k)) = Inr uid) \<and>
        link_pairing format_time pid other later later' d' = (Inl NotFound, d')
    | (Inl _, d') \<Rightarrow> d' = d"
proof (cases "link_pairing format_time pid uid now now' d")
  case (Pair r d')
  show ?thesis
  proof (cases r)
    case (Inl e)
    then have "d' = d" using Pair by (simp add: link_pairing_def with_tx_Inl_iff)
    then show ?thesis using Pair Inl by simp
  next
    case (Inr kid)
    obtain p where p: "p \<in> set (db_pairings d)" "pa_id p = pid" "pa_linked_user_id p = None"
        "pa_fingerprint p \<notin> k_fingerprint ` set (db_ssh_keys d)"
        "db_pairings d' = map (\<lambda>q. if pa_id q = pid then q\<lparr>pa_linked_user_id := Some uid\<rparr> else q) (db_pairings d)"
        "db_ssh_keys d' = db_ssh_keys d @ [\<lparr>k_id = kid, k_user_id = uid, k_public_key = pa_public_key p,
           k_fingerprint = pa_fingerprint p, k_comment = pa_comment p, k_created_at = now'\<rparr>]"
      by (rule link_pairing_InrD [OF Pair [unfolded Inr] assms])
    have "find (\<lambda>k. k_fingerprint k = pa_fingerprint p) (db_ssh_keys d) = None"
      unfolding find_key_None by (rule p(4))
    then have "and_then (ssh_key_by_fingerprint (pa_fingerprint p) d') (\<lambda>k. Inr (k_user_id k)) = (Inr uid :: (store_error, int) result)"
      by (simp add: ssh_key_by_fingerprint_def with_conn_def p(6) find_append)
    moreover have "filter (\<lambda>q. pa_id q = pid \<and> pa_linked_user_id q = None \<and> ft later < ft (pa_expires_at q)) (db_pairings d') = []" for ft :: "time \<Rightarrow> string"
      by (simp add: p(5) filter_map comp_def filter_empty_conv)
    then have "link_pairing format_time pid other later later' d' = (Inl NotFound, d')"
      by (simp add: link_pairing_def with_tx_def)
    ultimately show ?thesis unfolding Pair Inr using p(1-3,6) by (simp; blast)
  qed
qed

definition sample_pairing :: pairing where
  "sample_pairing = \<lparr>pa_id = 5, pa_token_hash = ''h'', pa_public_key = ''k'', pa_fingerprint = ''f'', pa_comment = [],
     pa_created_at = 10, pa_expires_at = 20, pa_linked_user_id = None\<rparr>"

theorem pairing_single_use_witness:
  "\<exists>kid d'. link_pairing (\<lambda>t. if t < 20 then ''a'' else ''b'') 5 1 15 16 (sample_db\<lparr>db_pairings := [sample_pairing]\<rparr>) = (Inr kid, d') \<and>
    link_pairing (\<lambda>t. if t < 20 then ''a'' else ''b'') 5 2 16 17 d' = (Inl NotFound, d')"
proof -
  let ?ft = "\<lambda>t :: int. if t < 20 then ''a'' else ''b''"
  obtain d' where ok: "link_pairing ?ft 5 1 15 16 (sample_db\<lparr>db_pairings := [sample_pairing]\<rparr>) = (Inr 1, d')"
    by (simp add: link_pairing_def with_tx_def sample_db_def sample_pairing_def insert_ssh_key_def empty_db_def
        next_rowid_def less_char_def Let_def)
  show ?thesis
    using pairing_single_use [where d = "sample_db\<lparr>db_pairings := [sample_pairing]\<rparr>" and format_time = ?ft
        and pid = 5 and uid = 1 and now = 15 and now' = 16 and other = 2 and later = 16 and later' = 17]
    unfolding ok by simp
qed

text \<open>C27. Access follows the uuid.  A user has access exactly as owner or through a share.
  Granting gives it, and only for that user and that instance; revoking takes it back
  from everyone but the owner; and once an instance is deleted nobody has access under
  its uuid, whatever instance later carries its name.\<close>

theorem access_follows_uuid:
  "(has_access uuid uid d \<longleftrightarrow>
      (\<exists>i \<in> set (db_instances d). i_uuid i = uuid \<and> i_owner_id i = uid) \<or>
      (\<exists>s \<in> set (db_shares d). sh_instance_uuid s = uuid \<and> sh_user_id s = uid)) \<and>
   (add_share uuid uid now d = (Inr (), d1) \<longrightarrow>
      (has_access k v d1 \<longleftrightarrow> has_access k v d \<or> k = uuid \<and> v = uid)) \<and>
   (remove_share uuid uid d = (Inr (), d2) \<longrightarrow>
      (has_access k v d2 \<longleftrightarrow> has_access k v d \<and> (k = uuid \<and> v = uid \<longrightarrow>
        (\<exists>i \<in> set (db_instances d). i_uuid i = k \<and> i_owner_id i = v)))) \<and>
   (delete_instance uuid now d = (Inr i, d3) \<longrightarrow>
      \<not> has_access uuid v d3 \<and> (k \<noteq> uuid \<longrightarrow> has_access k v d3 = has_access k v d))"
proof (intro conjI impI)
  show "has_access uuid uid d \<longleftrightarrow>
      (\<exists>i \<in> set (db_instances d). i_uuid i = uuid \<and> i_owner_id i = uid) \<or>
      (\<exists>s \<in> set (db_shares d). sh_instance_uuid s = uuid \<and> sh_user_id s = uid)"
    by (auto simp: has_access_def list_ex_iff)
  show "has_access k v d1 \<longleftrightarrow> has_access k v d \<or> k = uuid \<and> v = uid" if "add_share uuid uid now d = (Inr (), d1)"
    using that by (auto simp: add_share_def with_tx_Inr_iff has_access_def list_ex_iff split: if_splits)
  show "has_access k v d2 \<longleftrightarrow> has_access k v d \<and> (k = uuid \<and> v = uid \<longrightarrow>
        (\<exists>i \<in> set (db_instances d). i_uuid i = k \<and> i_owner_id i = v))" if "remove_share uuid uid d = (Inr (), d2)"
  proof -
    have "d2 = d\<lparr>db_shares := filter (\<lambda>s. \<not> (sh_instance_uuid s = uuid \<and> sh_user_id s = uid)) (db_shares d)\<rparr>"
      using that by (auto simp: remove_share_def with_tx_Inr_iff Let_def split: if_splits)
    then show ?thesis by (cases "k = uuid \<and> v = uid") (auto simp: has_access_def list_ex_iff)
  qed
  assume "delete_instance uuid now d = (Inr i, d3)"
  note D = delete_instance_InrD(3) [OF this]
  show "\<not> has_access uuid v d3" by (auto simp: D has_access_def list_ex_iff)
  show "has_access k v d3 = has_access k v d" if "k \<noteq> uuid" using that by (auto simp: D has_access_def list_ex_iff)
qed

theorem access_follows_uuid_witness:
  "has_access ''u1'' 1 sample_db1 \<and> \<not> has_access ''u1'' 2 sample_db1 \<and>
   (\<exists>d1. add_share ''u1'' 2 9 sample_db1 = (Inr (), d1) \<and> has_access ''u1'' 2 d1)"
proof -
  obtain d1 where d1: "add_share ''u1'' 2 9 sample_db1 = (Inr (), d1)"
    by (simp add: add_share_def with_tx_def sample_db1_def sample_instance_def sample_db_def empty_db_def)
  then have "has_access ''u1'' 2 d1"
    using access_follows_uuid [of "''u1''" 2 sample_db1 9 d1 "''u1''" 2] by simp
  moreover have "has_access ''u1'' 1 sample_db1 \<and> \<not> has_access ''u1'' 2 sample_db1"
    by (simp add: has_access_def sample_db1_def sample_instance_def sample_db_def empty_db_def)
  ultimately show ?thesis using d1 by blast
qed



end
