(* ===== verification/Bentod_Netstate.thy ===== *)
theory Bentod_Netstate
  imports Net_Machine Store_Hosts Store_Access
begin

text \<open>
  What each machine's network should be, \<open>bentod/src/netstate.rs\<close>.

  \<open>machine_network\<close> reads the database and describes one machine; the controller applies its own
  description and sends every runner its own.  The properties follow a packet through the composition: database,
  description, rendered firewall, routes and a second machine.
\<close>

section \<open>Definitions\<close>

text \<open>\<open>bento_config::endpoint_host\<close>: the host part of an endpoint URL.\<close>

fun after_scheme :: "string \<Rightarrow> string option" where
  "after_scheme [] = None"
| "after_scheme (c # cs) =
    (case strip_prefix ''://'' (c # cs) of Some rest \<Rightarrow> Some rest | None \<Rightarrow> after_scheme cs)"

definition rsplit_once :: "char \<Rightarrow> string \<Rightarrow> (string \<times> string) option" where
  "rsplit_once d s = map_option (\<lambda>(a, b). (rev b, rev a)) (split_once d (rev s))"

definition endpoint_host :: "string \<Rightarrow> string option" where
  "endpoint_host endpoint =
    (let rest = (case after_scheme endpoint of Some rest \<Rightarrow> rest | None \<Rightarrow> endpoint);
         rest = hd (split_on CHR ''/'' rest);
         host = (case rsplit_once CHR '':'' rest of
             Some (host, port) \<Rightarrow> if list_all (\<lambda>c. digit_value c \<noteq> None) port then host else rest
           | None \<Rightarrow> rest);
         host = rev (dropWhile (\<lambda>c. c = CHR '']'') (rev (dropWhile (\<lambda>c. c = CHR ''['') host)))
     in if host = [] then None else Some host)"

definition underlay_of :: "host \<Rightarrow> ipv4_addr option" where
  "underlay_of h = Option.bind (h_underlay h) parse_ipv4"

definition by_id :: "db \<Rightarrow> int \<Rightarrow> host option" where
  "by_id d k = map_of (map (\<lambda>h. (h_id h, h)) (rev (hosts d))) k"

definition remote_slot_of :: "db \<Rightarrow> int \<Rightarrow> slot \<Rightarrow> remote_slot option" where
  "remote_slot_of d host_id s =
    (if s_owner_host_id s = host_id then None
     else Option.bind (by_id d (s_owner_host_id s)) (\<lambda>owner.
       Option.bind (underlay_of owner) (\<lambda>next_hop.
         if s_state s = SMoving then None
         else if s_slot s > u32_max then None
         else Some \<lparr>rem_slot = s_slot s, rem_next_hop = next_hop\<rparr>)))"

definition published_of :: "port_range \<Rightarrow> int \<Rightarrow> vm_instance \<Rightarrow> (int \<times> published_instance) option" where
  "published_of high_ports host_id i =
    (if i_host_id i \<noteq> host_id then None
     else Option.bind (parse_ipv4 (i_address i)) (\<lambda>address.
       let shown = i_visibility i \<in> {Private, Public} in
       Some (i_owner_id i,
         \<lparr>pi_address = address,
          pi_http_ports = (if shown then [effective_http_port i] else []),
          pi_port_ranges = (if shown then [high_ports] else [])\<rparr>)))"

text \<open>A user takes the instances filed under their id.  The code removes the entry it
  takes; ids are unique, so no other user looks for it.\<close>

definition machine_user_of :: "plan \<Rightarrow> (int \<times> published_instance) list \<Rightarrow> user \<Rightarrow> machine_user option" where
  "machine_user_of plan by_owner u =
    Option.bind (parse_prefix (u_subnet u)) (\<lambda>subnet.
      Option.bind (to_ok (plan_index plan subnet)) (\<lambda>index.
        Some \<lparr>mu_index = int index, mu_subnet = subnet,
          mu_instances = map snd (filter (\<lambda>(owner, _). owner = u_id u) by_owner)\<rparr>))"

definition management_of :: "host \<Rightarrow> ipv4_addr list" where
  "management_of h =
    List.map_filter parse_ipv4
      (List.map_filter (\<lambda>x. x) [Option.bind (h_endpoint h) endpoint_host, h_underlay h])"

definition machine_network ::
  "(time \<Rightarrow> string) \<Rightarrow> plan \<Rightarrow> port_range \<Rightarrow> int \<Rightarrow> int \<Rightarrow> db \<Rightarrow> (store_error, machine_description) result" where
  "machine_network format_time plan high_ports host_id controller_host_id d =
    and_then (deployment_of d) (\<lambda>deployment.
      let remote_slots = List.map_filter (remote_slot_of d host_id) (slots_of d);
          by_owner = List.map_filter (published_of high_ports host_id) (instances format_time d);
          us = List.map_filter (machine_user_of plan by_owner) (users d);
          frontends = (if host_id \<noteq> controller_host_id then
              (case Option.bind (by_id d controller_host_id) underlay_of of Some a \<Rightarrow> [a] | None \<Rightarrow> [])
            else []);
          management = remdups_adj (sort (concat (map management_of (hosts d))))
      in Inr \<lparr>mn_private_range = plan_range plan, mn_runner_prefix = d_runner_prefix deployment,
           mn_users = sort_key mu_index us, mn_remote_slots = sort_key rem_slot remote_slots,
           mn_frontends = frontends, mn_management = management\<rparr>)"

section \<open>The database as the network reads it\<close>

abbreviation db_numbering :: "db \<Rightarrow> slots" where
  "db_numbering d \<equiv> \<lparr>slot_bits = db_runner_prefix d\<rparr>"

definition network_db :: "plan \<Rightarrow> db \<Rightarrow> bool" where
  "network_db plan d \<longleftrightarrow>
    plan_ok plan \<and> slots_ok (db_numbering d) \<and>
    distinct (map h_id (db_hosts d)) \<and> distinct (map u_id (db_users d)) \<and> distinct (map s_slot (db_slots d)) \<and>
    (\<forall>s\<in>set (db_slots d). s_slot s < slot_count (db_numbering d)) \<and>
    (\<forall>u\<in>set (db_users d). \<forall>v\<in>set (db_users d).
      map_option masked (parse_prefix (u_subnet u)) = map_option masked (parse_prefix (u_subnet v)) \<longrightarrow>
      parse_prefix (u_subnet u) \<noteq> None \<longrightarrow> u = v) \<and>
    (\<forall>h\<in>set (db_hosts d). case underlay_of h of None \<Rightarrow> True | Some a \<Rightarrow> \<not> contains (plan_range plan) a) \<and>
    (\<forall>i\<in>set (db_instances d). \<forall>u\<in>set (db_users d). u_id u = i_owner_id i \<longrightarrow>
      (case (parse_ipv4 (i_address i), parse_prefix (u_subnet u)) of
        (Some a, Some p) \<Rightarrow> contains p a
      | _ \<Rightarrow> True))"

lemma network_dbD:
  assumes "network_db plan d"
  shows "plan_ok plan" "slots_ok (db_numbering d)" "distinct (map h_id (db_hosts d))"
    "distinct (map u_id (db_users d))" "distinct (map s_slot (db_slots d))"
    "s \<in> set (db_slots d) \<Longrightarrow> s_slot s < slot_count (db_numbering d)"
    "h \<in> set (db_hosts d) \<Longrightarrow> underlay_of h = Some a \<Longrightarrow> \<not> contains (plan_range plan) a"
  using assms by (auto simp: network_db_def split: option.splits)

lemma network_db_users:
  assumes "network_db plan d" "u \<in> set (db_users d)" "v \<in> set (db_users d)"
    "parse_prefix (u_subnet u) = Some p" "parse_prefix (u_subnet v) = Some q" "masked p = masked q"
  shows "u = v"
  using assms unfolding network_db_def by (metis option.distinct(1) option.map(2))

lemma network_db_instances:
  assumes "network_db plan d" "i \<in> set (db_instances d)" "u \<in> set (db_users d)" "u_id u = i_owner_id i"
    "parse_ipv4 (i_address i) = Some a" "parse_prefix (u_subnet u) = Some p"
  shows "contains p a"
  using assms unfolding network_db_def by (metis (mono_tags, lifting) option.simps(5) prod.simps(2))

lemma map_filter_distinct:
  assumes "distinct xs" "\<And>x y a b. x \<in> set xs \<Longrightarrow> y \<in> set xs \<Longrightarrow> f x = Some a \<Longrightarrow> f y = Some b \<Longrightarrow> g a = g b \<Longrightarrow> x = y"
  shows "distinct (map g (List.map_filter f xs))"
  using assms
proof (induction xs)
  case (Cons x xs)
  have IH: "distinct (map g (List.map_filter f xs))" using Cons.prems by (intro Cons.IH) auto
  show ?case
  proof (cases "f x")
    case (Some a)
    have "g a \<notin> g ` set (List.map_filter f xs)"
    proof
      assume "g a \<in> g ` set (List.map_filter f xs)"
      then obtain y b where "y \<in> set xs" "f y = Some b" "g a = g b" by auto
      then have "x = y" using Cons.prems(2) [of x y a b] Some by simp
      then show False using Cons.prems(1) \<open>y \<in> set xs\<close> by simp
    qed
    then show ?thesis using IH Some by (simp add: List.map_filter_simps)
  qed (use IH in \<open>simp add: List.map_filter_simps\<close>)
qed (simp add: List.map_filter_simps)

lemma slots_of_set [simp]: "set (slots_of d) = set (db_slots d)" "distinct (slots_of d) = distinct (db_slots d)"
  by (simp_all add: slots_of_def)

lemma users_set [simp]: "set (users d) = set (db_users d)" "distinct (users d) = distinct (db_users d)"
  by (simp_all add: users_def)

lemma hosts_set [simp]: "set (hosts d) = set (db_hosts d)"
  by (simp add: hosts_def)

lemma by_id_Some:
  assumes "distinct (map h_id (db_hosts d))"
  shows "by_id d k = Some h \<longleftrightarrow> h \<in> set (db_hosts d) \<and> h_id h = k"
proof -
  have "distinct (map fst (map (\<lambda>h. (h_id h, h)) (rev (hosts d))))"
    using assms by (simp add: hosts_def comp_def rev_map distinct_map)
  then show ?thesis by (auto simp: by_id_def map_of_eq_Some_iff)
qed

section \<open>Fields of a description\<close>

lemma machine_network_fields:
  assumes "machine_network format_time plan high_ports host ctrl d = Inr m"
  shows "mn_private_range m = plan_range plan" "mn_runner_prefix m = db_runner_prefix d"
    "mn_users m = sort_key mu_index (List.map_filter
      (machine_user_of plan (List.map_filter (published_of high_ports host) (instances format_time d))) (users d))"
    "mn_remote_slots m = sort_key rem_slot (List.map_filter (remote_slot_of d host) (slots_of d))"
    "mn_frontends m = (if host \<noteq> ctrl then
      (case Option.bind (by_id d ctrl) underlay_of of Some a \<Rightarrow> [a] | None \<Rightarrow> []) else [])"
    "set (mn_management m) = (\<Union>h\<in>set (db_hosts d). set (management_of h))"
  using assms by (auto simp: machine_network_def deployment_of_def with_conn_def Let_def)

lemma machine_user_of_Some:
  "machine_user_of plan by_owner r = Some u \<longleftrightarrow>
    parse_prefix (u_subnet r) = Some (mu_subnet u) \<and> (\<exists>k. plan_index plan (mu_subnet u) = Inr k \<and> mu_index u = int k) \<and>
    mu_instances u = map snd (filter (\<lambda>(owner, _). owner = u_id r) by_owner)"
  by (cases u) (auto simp: machine_user_of_def Option.bind_eq_Some_conv)

lemma machine_network_user:
  assumes "machine_network format_time plan high_ports host ctrl d = Inr m"
  shows "u \<in> set (mn_users m) \<longleftrightarrow> (\<exists>r\<in>set (db_users d).
    machine_user_of plan (List.map_filter (published_of high_ports host) (instances format_time d)) r = Some u)"
  by (simp add: machine_network_fields(3) [OF assms])

lemma remote_slot_of_Some:
  assumes "network_db plan d"
  shows "remote_slot_of d host s = Some q \<longleftrightarrow>
    s_owner_host_id s \<noteq> host \<and> s_state s \<noteq> SMoving \<and> s_slot s \<le> u32_max \<and> rem_slot q = s_slot s \<and>
    (\<exists>h\<in>set (db_hosts d). h_id h = s_owner_host_id s \<and> underlay_of h = Some (rem_next_hop q))"
  by (cases q) (auto simp: remote_slot_of_def Option.bind_eq_Some_conv by_id_Some [OF network_dbD(3) [OF assms]] not_less)

lemma machine_network_remote:
  assumes "machine_network format_time plan high_ports host ctrl d = Inr m"
  shows "q \<in> set (mn_remote_slots m) \<longleftrightarrow> (\<exists>s\<in>set (db_slots d). remote_slot_of d host s = Some q)"
  by (simp add: machine_network_fields(4) [OF assms])

section \<open>Every description can be applied\<close>

lemma plan_index_inside:
  assumes "plan_ok plan" "plan_index plan p = Inr k"
  shows "p_bits p = 24" "contains (plan_range plan) (p_addr p)" "k < 2 ^ 24"
proof -
  have "\<not> p_bits p \<noteq> 24" "contains (plan_prefix plan) (p_addr (masked p))"
    using assms(2) by (auto simp: plan_index_def Let_def split: if_splits)
  then show "p_bits p = 24" by simp
  have "p_bits (plan_prefix plan) \<le> 24" using assms(1) by (simp add: plan_ok_def)
  then show "contains (plan_range plan) (p_addr p)"
    unfolding plan_range_def
    by (intro contains_trans [OF _ _ \<open>contains (plan_prefix plan) (p_addr (masked p))\<close>])
      (simp_all add: \<open>p_bits p = 24\<close> contains_self)
  have "k < subnets plan" using assms plan_index_Inr_iff by blast
  also have "subnets plan \<le> 2 ^ 24" unfolding subnets_def by (rule power_increasing) simp_all
  finally show "k < 2 ^ 24" .
qed

lemma machine_network_users:
  assumes "machine_network format_time plan high_ports host ctrl d = Inr m" "network_db plan d"
  shows "distinct (map mu_index (mn_users m))" "distinct (map (\<lambda>u. masked (mu_subnet u)) (mn_users m))"
    "u \<in> set (mn_users m) \<Longrightarrow> p_bits (mu_subnet u) = 24 \<and> contains (plan_range plan) (p_addr (mu_subnet u)) \<and>
      0 \<le> mu_index u \<and> mu_index u < 2 ^ 24"
proof -
  let ?f = "machine_user_of plan (List.map_filter (published_of high_ports host) (instances format_time d))"
  note db = network_dbD [OF assms(2)]
  have dist: "distinct (users d)" using db(4) by (simp add: distinct_map)
  have same: "r = r'" if "r \<in> set (users d)" "r' \<in> set (users d)" "?f r = Some a" "?f r' = Some b"
      "masked (mu_subnet a) = masked (mu_subnet b)" for r r' a b
    using network_db_users [OF assms(2), of r r' "mu_subnet a" "mu_subnet b"] that by (simp add: machine_user_of_Some)
  have same': "r = r'" if "r \<in> set (users d)" "r' \<in> set (users d)" "?f r = Some a" "?f r' = Some b"
      "mu_index a = mu_index b" for r r' a b
  proof -
    note row = that
    obtain j k where "plan_index plan (mu_subnet a) = Inr j" "plan_index plan (mu_subnet b) = Inr k" "j = k"
      using row(3-5) by (auto simp: machine_user_of_Some)
    then have "masked (mu_subnet a) = masked (mu_subnet b)" using plan_index_masked_eq [OF db(1)] by blast
    then show ?thesis by (rule same [OF row(1-4)])
  qed
  show "distinct (map mu_index (mn_users m))"
    unfolding machine_network_fields(3) [OF assms(1)]
    using map_filter_distinct [OF dist same'] by (simp add: distinct_map)
  show "distinct (map (\<lambda>u. masked (mu_subnet u)) (mn_users m))"
    unfolding machine_network_fields(3) [OF assms(1)]
    using map_filter_distinct [OF dist same] by (simp add: distinct_map)
  assume "u \<in> set (mn_users m)"
  then obtain k where "plan_index plan (mu_subnet u) = Inr k" "mu_index u = int k"
    by (auto simp: machine_network_user [OF assms(1)] machine_user_of_Some)
  then show "p_bits (mu_subnet u) = 24 \<and> contains (plan_range plan) (p_addr (mu_subnet u)) \<and>
      0 \<le> mu_index u \<and> mu_index u < 2 ^ 24"
    using plan_index_inside [OF db(1), of "mu_subnet u" k] by simp
qed

lemma machine_network_remotes:
  assumes "machine_network format_time plan high_ports host ctrl d = Inr m" "network_db plan d"
  shows "distinct (map rem_slot (mn_remote_slots m))"
    "q \<in> set (mn_remote_slots m) \<Longrightarrow> rem_slot q < slot_count (db_numbering d) \<and> \<not> contains (plan_range plan) (rem_next_hop q)"
proof -
  note db = network_dbD [OF assms(2)]
  have "distinct (map rem_slot (List.map_filter (remote_slot_of d host) (slots_of d)))"
  proof (rule map_filter_distinct)
    show "distinct (slots_of d)" using db(5) by (simp add: distinct_map)
    fix x y a b assume "x \<in> set (slots_of d)" "y \<in> set (slots_of d)"
      "remote_slot_of d host x = Some a" "remote_slot_of d host y = Some b" "rem_slot a = rem_slot b"
    then show "x = y" using db(5) by (auto simp: remote_slot_of_Some [OF assms(2)] distinct_map inj_on_def)
  qed
  then show "distinct (map rem_slot (mn_remote_slots m))"
    unfolding machine_network_fields(4) [OF assms(1)] by (simp add: distinct_map)
  assume "q \<in> set (mn_remote_slots m)"
  then show "rem_slot q < slot_count (db_numbering d) \<and> \<not> contains (plan_range plan) (rem_next_hop q)"
    using db(6,7) by (auto simp: machine_network_remote [OF assms(1)] remote_slot_of_Some [OF assms(2)])
qed

lemma machine_network_frontends:
  assumes "machine_network format_time plan high_ports host ctrl d = Inr m" "network_db plan d" "f \<in> set (mn_frontends m)"
  shows "\<not> contains (plan_range plan) f"
proof -
  have "Option.bind (by_id d ctrl) underlay_of = Some f"
    using assms(3) unfolding machine_network_fields(5) [OF assms(1)] 
    by (cases "Option.bind (by_id d ctrl) underlay_of"; cases "host = ctrl") simp_all
  then obtain h where "by_id d ctrl = Some h" "underlay_of h = Some f" by (auto simp: Option.bind_eq_Some_conv)
  then show ?thesis using network_dbD(7) [OF assms(2)] by_id_Some [OF network_dbD(3) [OF assms(2)]] by blast
qed

lemma check_remote_total:
  "distinct (map rem_slot rs) \<Longrightarrow> rem_slot ` set rs \<inter> set seen = {} \<Longrightarrow>
    \<forall>r\<in>set rs. rem_slot r < slot_count sl \<and> \<not> contains private (rem_next_hop r) \<Longrightarrow>
    check_remote sl private seen rs = Inr ()"
  by (induction sl "private" seen rs rule: check_remote.induct) auto

lemma machine_network_checks:
  assumes "machine_network format_time plan high_ports host ctrl d = Inr m" "network_db plan d"
  shows "machine_check m = Inr ()"
proof -
  note db = network_dbD [OF assms(2)]
  note f = machine_network_fields(1,2) [OF assms(1)]
  have "slots_new (mn_runner_prefix m) = Inr (db_numbering d)" using db(2) by (simp add: f slots_new_ok)
  moreover have "is_ok (try_map (\<lambda>u. and_then (require_slash_24 (mu_subnet u)) (\<lambda>_.
        ensure (contains (mn_private_range m) (p_addr (mu_subnet u))) Invalid)) (mn_users m))"
    using machine_network_users(3) [OF assms] by (intro try_map_total) (auto simp: f require_slash_24_def is_ok_iff)
  moreover have "check_remote (db_numbering d) (mn_private_range m) [] (mn_remote_slots m) = Inr ()"
    using machine_network_remotes [OF assms] by (intro check_remote_total) (auto simp: f)
  ultimately show ?thesis
    using db(1) machine_network_frontends [OF assms]
    by (auto simp: machine_check_def is_ok_iff f plan_ok_def plan_range_def not_less list_all_iff)
qed

definition firewall_user_of :: "machine_user \<Rightarrow> firewall_user" where
  "firewall_user_of u =
    \<lparr>fu_network = \<lparr>un_name = ''bento-user-'' @ show_int (mu_index u), un_bridge = ''bento'' @ show_int (mu_index u),
      un_subnet = mu_subnet u\<rparr>,
     fu_instances = mu_instances u\<rparr>"

lemma firewall_user_simps [simp]:
  "bridge_of (firewall_user_of u) = ''bento'' @ show_int (mu_index u)" "subnet_of (firewall_user_of u) = mu_subnet u"
  "fu_instances (firewall_user_of u) = mu_instances u"
  by (simp_all add: firewall_user_of_def)

lemma machine_ruleset_users: "rs_users (machine_ruleset m) = map firewall_user_of (mn_users m)"
  by (simp add: machine_ruleset_def networks_def zip_map1 zip_same_conv_map comp_def firewall_user_of_def)

lemma show_nat_inj: "show_nat m = show_nat n \<Longrightarrow> m = n"
  by (metis digits_from_show_nat option.inject)

lemma show_int_inj: "show_int i = show_int j \<Longrightarrow> 0 \<le> i \<Longrightarrow> 0 \<le> j \<Longrightarrow> i = j"
  by (auto simp: show_int_def dest: show_nat_inj)

lemma show_nat_length_le: "n < 10 ^ Suc k \<Longrightarrow> length (show_nat n) \<le> Suc k"
proof (induction k arbitrary: n)
  case (Suc k)
  show ?case
  proof (cases "n < 10")
    case False
    have "n div 10 < 10 ^ Suc k" using Suc.prems by (simp add: less_mult_imp_div_less)
    then have "length (show_nat (n div 10)) \<le> Suc k" by (rule Suc.IH)
    then show ?thesis using False by (simp add: show_nat.simps [of n])
  qed (simp add: show_nat.simps)
qed (simp add: show_nat.simps)

lemma digit_alphanumeric: "d < 10 \<Longrightarrow> is_ascii_alphanumeric (digit_char d)"
  by (simp add: is_ascii_alphanumeric_def digit_char_def Let_def)

lemma bridge_name_safe:
  assumes "0 \<le> i" "i < 2 ^ 24"
  shows "safe_interface_name (''bento'' @ show_int i)"
proof -
  have "length (show_nat (nat i)) \<le> Suc 7" using assms by (intro show_nat_length_le) simp
  moreover have "list_all is_ascii_alphanumeric (show_nat (nat i))"
    using show_nat_digits digit_alphanumeric by (fastforce simp: list_all_iff)
  moreover have "list_all is_ascii_alphanumeric ''bento''" by (simp add: is_ascii_alphanumeric_def)
  ultimately show ?thesis using assms(1) by (auto simp: safe_interface_name_def show_int_def list_all_iff)
qed

lemma published_of_Some:
  "published_of high_ports host i = Some (owner, x) \<longleftrightarrow>
    i_host_id i = host \<and> owner = i_owner_id i \<and> parse_ipv4 (i_address i) = Some (pi_address x) \<and>
    pi_http_ports x = (if i_visibility i \<in> {Private, Public} then [effective_http_port i] else []) \<and>
    pi_port_ranges x = (if i_visibility i \<in> {Private, Public} then [high_ports] else [])"
  by (cases x) (auto simp: published_of_def Let_def Option.bind_eq_Some_conv)

lemma machine_instance_ok:
  assumes "machine_network format_time plan high_ports host ctrl d = Inr m" "network_db plan d"
    "1 \<le> pr_from high_ports" "pr_from high_ports \<le> pr_to high_ports" "u \<in> set (mn_users m)" "x \<in> set (mu_instances u)"
  shows "instance_ok (mu_subnet u) x"
proof -
  obtain r where r: "r \<in> set (db_users d)" "parse_prefix (u_subnet r) = Some (mu_subnet u)"
    "mu_instances u = map snd (filter (\<lambda>(owner, _). owner = u_id r)
      (List.map_filter (published_of high_ports host) (instances format_time d)))"
    using assms(1,5) by (auto simp: machine_network_user machine_user_of_Some)
  then obtain i where i: "i \<in> set (db_instances d)" "published_of high_ports host i = Some (u_id r, x)"
    using assms(6) by (auto simp: instances_def)
  then have "contains (mu_subnet u) (pi_address x)"
    using network_db_instances [OF assms(2) i(1) r(1) _ _ r(2)] by (auto simp: published_of_Some)
  moreover have "effective_http_port i \<noteq> 0" by (simp add: effective_http_port_def DEFAULT_HTTP_PORT_def)
  ultimately show ?thesis using i(2) assms(3,4) by (auto simp: instance_ok_def published_of_Some)
qed

lemma machine_network_renders:
  assumes "machine_network format_time plan high_ports host ctrl d = Inr m" "network_db plan d"
    "1 \<le> pr_from high_ports" "pr_from high_ports \<le> pr_to high_ports"
  shows "ruleset_ok (machine_ruleset m)"
proof -
  note users = machine_network_users [OF assms(1,2)]
  note f = machine_network_fields [OF assms(1)]
  have "inj_on (\<lambda>u. ''bento'' @ show_int (mu_index u)) (set (mn_users m))"
    using users(1,3) by (auto simp: inj_on_def distinct_map dest!: show_int_inj)
  then have "distinct (map (\<lambda>u. ''bento'' @ show_int (mu_index u)) (mn_users m))"
    using users(1) by (simp add: distinct_map)
  moreover have "user_ok (firewall_user_of u)" if "u \<in> set (mn_users m)" for u
    using users(3) [OF that] machine_instance_ok [OF assms that] bridge_name_safe [of "mu_index u"]
    by (simp add: user_ok_def list_all_iff)
  ultimately show ?thesis
    using network_dbD(1,2) [OF assms(2)] machine_network_remotes(2) [OF assms(1,2)]
    by (auto simp: ruleset_ok_def machine_ruleset_users list_all_iff comp_def)
      (auto simp: machine_ruleset_def f plan_ok_def plan_range_def)
qed

lemma machine_numbering:
  assumes "machine_network format_time plan high_ports host ctrl d = Inr m" "network_db plan d"
  shows "slots_new (mn_runner_prefix m) = Inr (db_numbering d)"
  using network_dbD(2) [OF assms(2)] by (simp add: slots_new_ok machine_network_fields(2) [OF assms(1)])

lemma machine_network_routes:
  assumes "machine_network format_time plan high_ports host ctrl d = Inr m" "network_db plan d"
  shows "is_ok (machine_routes m)"
proof (cases "slot_count (db_numbering d) = 1")
  case False
  note ok = machine_check_Inr [OF machine_network_checks [OF assms]]
  have bits: "24 < slot_bits (db_numbering d)"
    using False ok(1) by (auto simp: slots_ok_def slot_count_def slot_consts machine_network_fields(2) [OF assms(1)])
  have "is_ok (slot_route (db_numbering d) u q)" if "u \<in> set (mn_users m)" "q \<in> set (mn_remote_slots m)" for u q
  proof -
    have "p_bits (mu_subnet u) = 24" "rem_slot q < slot_count (db_numbering d)"
      using ok(3,5) that by (simp_all add: machine_network_fields(2) [OF assms(1)])
    then obtain p where p: "slot_prefix (db_numbering d) (mu_subnet u) (rem_slot q) = Inr p"
      using slot_prefix_total by blast
    then have "p_bits p = slot_bits (db_numbering d)"
      using slot_prefix_InrD(3) [OF network_dbD(2) [OF assms(2)] p] by simp
    then show ?thesis using p bits ok(3) that(1) by (simp add: slot_route_def is_ok_iff)
  qed
  then have "is_ok (try_map (\<lambda>u. try_map (slot_route (db_numbering d) u) (mn_remote_slots m)) (mn_users m))"
    by (intro try_map_total ballI)
  then obtain rss where "try_map (\<lambda>u. try_map (slot_route (db_numbering d) u) (mn_remote_slots m)) (mn_users m) = Inr rss"
    by (auto simp: is_ok_iff)
  then have "machine_routes m = Inr (concat rss)" using False by (simp add: machine_routes_def machine_numbering [OF assms])
  then show ?thesis by simp
qed (simp add: machine_routes_def machine_numbering [OF assms])

text \<open>What a machine does with a packet it would forward: the table is rendered and loaded,
  and its forward chain decides.\<close>

definition forwards :: "nft_program \<Rightarrow> ruleset \<Rightarrow> packet \<Rightarrow> bool" where
  "forwards nft rs p =
    (case render rs of
      Inl _ \<Rightarrow> False
    | Inr t \<Rightarrow> (case nft t of None \<Rightarrow> False | Some decides \<Rightarrow> decides ''forward'' p = Accept))"

lemma forwards_iff:
  assumes "ruleset_ok rs" "nft_obeys nft rs"
  shows "forwards nft rs p \<longleftrightarrow> (rs_users rs = [] \<or> owns_slot rs) \<and> forward_policy rs p"
proof -
  obtain t where t: "render rs = Inr t" using render_total [OF assms(1)] by blast
  then obtain tab where tab: "render_table rs = Inr tab" "t = show_table tab" by (auto simp: render_Inr)
  then have "nft t = (if sets_filled tab then Some (nft_verdict tab) else None)"
    using assms(2) by (simp add: nft_obeys_def nft_loads_def)
  then show ?thesis
    using t sets_filled_iff [OF tab(1)] rendered_verdicts(1) [OF tab(1)] by (simp add: forwards_def)
qed

section \<open>Ownership of addresses\<close>

definition slot_owner :: "db \<Rightarrow> nat \<Rightarrow> int option" where
  "slot_owner d k = map_option s_owner_host_id (find (\<lambda>s. s_slot s = k) (db_slots d))"

definition address_owner :: "db \<Rightarrow> ipv4_prefix \<Rightarrow> ipv4_addr \<Rightarrow> int option" where
  "address_owner d subnet a =
    (case slot_of (db_numbering d) subnet a of Inl _ \<Rightarrow> None | Inr k \<Rightarrow> slot_owner d k)"

text \<open>Every slot has an owner, no slot is being moved and every owner has an underlay address.\<close>

definition settled :: "db \<Rightarrow> bool" where
  "settled d \<longleftrightarrow> (\<forall>k\<in>{0..<slot_count (db_numbering d)}. slot_owner d k \<noteq> None) \<and>
    (\<forall>s\<in>set (db_slots d). s_state s \<noteq> SMoving \<and>
      (\<exists>h\<in>set (db_hosts d). h_id h = s_owner_host_id s \<and> underlay_of h \<noteq> None))"

lemma slot_owner_Some:
  assumes "distinct (map s_slot (db_slots d))"
  shows "slot_owner d k = Some h \<longleftrightarrow> (\<exists>s\<in>set (db_slots d). s_slot s = k \<and> s_owner_host_id s = h)"
proof
  assume "\<exists>s\<in>set (db_slots d). s_slot s = k \<and> s_owner_host_id s = h"
  then obtain s where s: "s \<in> set (db_slots d)" "s_slot s = k" "s_owner_host_id s = h" by blast
  then have "find (\<lambda>s. s_slot s = k) (db_slots d) \<noteq> None" by (auto simp: find_None_iff)
  then obtain t where t: "find (\<lambda>s. s_slot s = k) (db_slots d) = Some t" by blast
  then have "t = s" using find_SomeD [OF t] s assms by (auto simp: distinct_map inj_on_def)
  then show "slot_owner d k = Some h" using t s by (simp add: slot_owner_def)
qed (auto simp: slot_owner_def dest!: find_SomeD)

lemma slot_number_small: "slots_ok s \<Longrightarrow> k < slot_count s \<Longrightarrow> k \<le> u32_max"
  by (erule slots_ok_cases) (auto simp: slot_count_def slot_consts u32_max_def)

lemma remote_numbers:
  assumes "machine_network format_time plan high_ports host ctrl d = Inr m" "network_db plan d" "settled d"
  shows "k \<in> set (rs_remote_slots (machine_ruleset m)) \<longleftrightarrow> (\<exists>h. slot_owner d k = Some h \<and> h \<noteq> host)"
proof -
  note db = network_dbD [OF assms(2)]
  have "k \<in> set (rs_remote_slots (machine_ruleset m)) \<longleftrightarrow> (\<exists>q. q \<in> set (mn_remote_slots m) \<and> rem_slot q = k)"
    by (auto simp: machine_ruleset_def)
  also have "\<dots> \<longleftrightarrow> (\<exists>s\<in>set (db_slots d). \<exists>q. remote_slot_of d host s = Some q \<and> rem_slot q = k)"
    unfolding machine_network_remote [OF assms(1)] by blast
  also have "\<dots> \<longleftrightarrow> (\<exists>s\<in>set (db_slots d). s_slot s = k \<and> s_owner_host_id s \<noteq> host)"
  proof (intro bex_cong refl)
    fix s assume s: "s \<in> set (db_slots d)"
    obtain h a where h: "h \<in> set (db_hosts d)" "h_id h = s_owner_host_id s" "underlay_of h = Some a"
      using assms(3) s unfolding settled_def by blast
    have "s_slot s \<le> u32_max" using slot_number_small [OF db(2)] db(6) [OF s] by blast
    moreover have "s_state s \<noteq> SMoving" using assms(3) s by (simp add: settled_def)
    ultimately have "remote_slot_of d host s = Some \<lparr>rem_slot = s_slot s, rem_next_hop = a\<rparr>" if "s_owner_host_id s \<noteq> host"
      using that h by (auto simp: remote_slot_of_Some [OF assms(2)])
    then show "(\<exists>q. remote_slot_of d host s = Some q \<and> rem_slot q = k) \<longleftrightarrow> s_slot s = k \<and> s_owner_host_id s \<noteq> host"
      using remote_slot_of_Some [OF assms(2), of host s] by (metis remote_slot.select_convs(1))
  qed
  also have "\<dots> \<longleftrightarrow> (\<exists>h. slot_owner d k = Some h \<and> h \<noteq> host)" by (auto simp: slot_owner_Some [OF db(5)])
  finally show ?thesis .
qed

lemma slot_in_machine:
  assumes "machine_network format_time plan high_ports host ctrl d = Inr m"
  shows "slot_in (machine_ruleset m) (firewall_user_of u) a = to_ok (slot_of (db_numbering d) (mu_subnet u) a)"
  by (cases "slot_of (db_numbering d) (mu_subnet u) a")
    (simp_all add: slot_in_def machine_ruleset_def machine_network_fields(2) [OF assms])

lemma own_far_iff:
  assumes "machine_network format_time plan high_ports host ctrl d = Inr m" "network_db plan d" "settled d"
  shows "own_address (machine_ruleset m) (firewall_user_of u) a \<longleftrightarrow> address_owner d (mu_subnet u) a = Some host"
    and "far_address (machine_ruleset m) (firewall_user_of u) a \<longleftrightarrow> (\<exists>h. address_owner d (mu_subnet u) a = Some h \<and> h \<noteq> host)"
proof -
  have owned: "\<exists>h. slot_owner d k = Some h" if "slot_of (db_numbering d) (mu_subnet u) a = Inr k" for k
    using assms(3) slot_of_lt [OF network_dbD(2) [OF assms(2)] that] by (auto simp: settled_def)
  show "own_address (machine_ruleset m) (firewall_user_of u) a \<longleftrightarrow> address_owner d (mu_subnet u) a = Some host"
    using owned by (cases "slot_of (db_numbering d) (mu_subnet u) a")
      (auto simp: own_address_def slot_in_machine [OF assms(1)] address_owner_def remote_numbers [OF assms])
  show "far_address (machine_ruleset m) (firewall_user_of u) a \<longleftrightarrow> (\<exists>h. address_owner d (mu_subnet u) a = Some h \<and> h \<noteq> host)"
    by (cases "slot_of (db_numbering d) (mu_subnet u) a")
      (auto simp: far_address_def slot_in_machine [OF assms(1)] address_owner_def remote_numbers [OF assms])
qed

lemma address_owner_inside: "address_owner d subnet a = Some h \<Longrightarrow> contains subnet a"
  by (auto simp: address_owner_def slot_of_Inr_iff split: sum.splits)

lemma owns_slot_machine:
  assumes "machine_network format_time plan high_ports host ctrl d = Inr m" "network_db plan d" "settled d"
    "address_owner d subnet a = Some host"
  shows "owns_slot (machine_ruleset m)"
proof -
  obtain k where k: "slot_of (db_numbering d) subnet a = Inr k" "slot_owner d k = Some host"
    using assms(4) by (auto simp: address_owner_def split: sum.splits)
  then have "k \<in> {0..<slot_count (db_numbering d)}" using slot_of_lt [OF network_dbD(2) [OF assms(2)]] by simp
  moreover have "rs_runner_prefix (machine_ruleset m) = db_runner_prefix d"
    by (simp add: machine_ruleset_def machine_network_fields(2) [OF assms(1)])
  ultimately show ?thesis
    unfolding owns_slot_def using k(2) remote_numbers [OF assms(1-3), of k] by (intro bexI [of _ k]) auto
qed

section \<open>A packet between two machines\<close>

lemma machine_bridges: "bridges (machine_ruleset m) = (\<lambda>u. ''bento'' @ show_int (mu_index u)) ` set (mn_users m)"
  by (simp add: bridges_def machine_ruleset_users image_image)

lemma machine_ruleset_fields:
  "rs_private_range (machine_ruleset m) = mn_private_range m" "rs_underlay_peers (machine_ruleset m) = (mn_remote_slots m \<noteq> [])"
  "rs_frontends (machine_ruleset m) = mn_frontends m" "rs_management (machine_ruleset m) = mn_management m"
  "rs_remote_slots (machine_ruleset m) = map rem_slot (mn_remote_slots m)"
  by (simp_all add: machine_ruleset_def)

text \<open>Users of two descriptions made from one database: equal indices mean equal subnets,
  different indices disjoint ones.\<close>

lemma same_index_same_subnet:
  assumes "machine_network ft1 plan hp1 host1 c1 d = Inr m1" "machine_network ft2 plan hp2 host2 c2 d = Inr m2" "network_db plan d"
    "u \<in> set (mn_users m1)" "v \<in> set (mn_users m2)"
  shows "mu_index u = mu_index v \<longleftrightarrow> masked (mu_subnet u) = masked (mu_subnet v)"
    and "mu_index u = mu_index v \<Longrightarrow> mu_subnet u = mu_subnet v"
proof -
  obtain r s where r: "r \<in> set (db_users d)" "s \<in> set (db_users d)"
      "parse_prefix (u_subnet r) = Some (mu_subnet u)" "parse_prefix (u_subnet s) = Some (mu_subnet v)"
      and k: "\<exists>k. plan_index plan (mu_subnet u) = Inr k \<and> mu_index u = int k" "\<exists>k. plan_index plan (mu_subnet v) = Inr k \<and> mu_index v = int k"
    using assms(4,5) unfolding machine_network_user [OF assms(1)] machine_network_user [OF assms(2)] machine_user_of_Some by blast
  show iff: "mu_index u = mu_index v \<longleftrightarrow> masked (mu_subnet u) = masked (mu_subnet v)"
    using k plan_index_masked_eq [OF network_dbD(1) [OF assms(3)]] by (metis of_nat_eq_iff)
  assume "mu_index u = mu_index v"
  then have "r = s" using iff network_db_users [OF assms(3) r] by simp
  then show "mu_subnet u = mu_subnet v" using r by simp
qed

lemma machine_user_by_bridge:
  assumes "machine_network format_time plan high_ports host ctrl d = Inr m" "network_db plan d"
    "u \<in> set (mn_users m)" "v \<in> set (mn_users m)" "show_int (mu_index v) = show_int (mu_index u)"
  shows "v = u"
proof -
  have "mu_index v = mu_index u"
    using show_int_inj [OF assms(5)] machine_network_users(3) [OF assms(1,2)] assms(3,4) by blast
  then show ?thesis using machine_network_users(1) [OF assms(1,2)] assms(3,4) by (auto simp: distinct_map inj_on_def)
qed

lemma leaves_machine_iff:
  assumes "machine_network format_time plan high_ports host ctrl d = Inr m" "network_db plan d" "settled d"
    and "u \<in> set (mn_users m)" "pk_ipv4 p" "\<not> pk_established p"
    and "pk_iif p = ''bento'' @ show_int (mu_index u)" "pk_oif p \<notin> bridges (machine_ruleset m)"
    and "contains (plan_range plan) (pk_daddr p)"
  shows "forward_policy (machine_ruleset m) p \<longleftrightarrow>
    address_owner d (mu_subnet u) (pk_saddr p) = Some host \<and> pk_daddr p \<notin> set (mn_management m) \<and>
    mn_remote_slots m \<noteq> [] \<and> contains (mu_subnet u) (pk_daddr p)"
proof -
  have iif: "pk_iif p \<in> bridges (machine_ruleset m)" using assms(4,7) by (simp add: machine_bridges)
  note one = machine_user_by_bridge [OF assms(1,2,4)]
  have "forward_policy (machine_ruleset m) p \<longleftrightarrow> (\<exists>v\<in>set (mn_users m). from_guest (machine_ruleset m) (firewall_user_of v) p)"
    using assms(6) iif by (auto simp: forward_policy_def machine_ruleset_users from_outside_def)
  also have "\<dots> \<longleftrightarrow> from_guest (machine_ruleset m) (firewall_user_of u) p"
    using one assms(4,7) by (auto simp: from_guest_def)
  also have "\<dots> \<longleftrightarrow> own_address (machine_ruleset m) (firewall_user_of u) (pk_saddr p) \<and> pk_daddr p \<notin> set (mn_management m) \<and>
      mn_remote_slots m \<noteq> [] \<and> contains (mu_subnet u) (pk_daddr p)"
    using assms(4-9) by (auto simp: from_guest_def machine_ruleset_fields machine_network_fields(1) [OF assms(1)] machine_bridges)
  finally show ?thesis by (simp add: own_far_iff(1) [OF assms(1-3)])
qed

lemma enters_machine_iff:
  assumes "machine_network format_time plan high_ports host ctrl d = Inr m" "network_db plan d" "settled d"
    and "u \<in> set (mn_users m)" "pk_ipv4 p" "\<not> pk_established p"
    and "pk_iif p \<notin> bridges (machine_ruleset m)" "pk_oif p = ''bento'' @ show_int (mu_index u)"
    and "contains (plan_range plan) (pk_saddr p)"
  shows "forward_policy (machine_ruleset m) p \<longleftrightarrow>
    (\<exists>h. address_owner d (mu_subnet u) (pk_saddr p) = Some h \<and> h \<noteq> host) \<and>
    address_owner d (mu_subnet u) (pk_daddr p) = Some host"
proof -
  note one = machine_user_by_bridge [OF assms(1,2,4)]
  have fe: "pk_saddr p \<notin> set (mn_frontends m)" using machine_network_frontends [OF assms(1,2)] assms(9) by blast
  have peers: "mn_remote_slots m \<noteq> []" if "far_address (machine_ruleset m) (firewall_user_of u) (pk_saddr p)"
    using that by (auto simp: far_address_def machine_ruleset_fields split: option.splits)
  have "forward_policy (machine_ruleset m) p \<longleftrightarrow> (\<exists>v\<in>set (mn_users m). from_outside (machine_ruleset m) (firewall_user_of v) p)"
    using assms(6,7) by (auto simp: forward_policy_def machine_ruleset_users from_guest_def machine_bridges)
  also have "\<dots> \<longleftrightarrow> from_outside (machine_ruleset m) (firewall_user_of u) p"
    using one assms(4,8) by (auto simp: from_outside_def)
  also have "\<dots> \<longleftrightarrow> far_address (machine_ruleset m) (firewall_user_of u) (pk_saddr p) \<and>
      own_address (machine_ruleset m) (firewall_user_of u) (pk_daddr p)"
    using assms(5-8) fe peers by (auto simp: from_outside_def machine_ruleset_fields)
  finally show ?thesis by (simp add: own_far_iff [OF assms(1-3)])
qed

lemma user_address_in_range:
  assumes "machine_network format_time plan high_ports host ctrl d = Inr m" "network_db plan d"
    "u \<in> set (mn_users m)" "contains (mu_subnet u) a"
  shows "contains (plan_range plan) a"
  by (rule contains_trans [OF _ _ _ assms(4)])
    (use machine_network_users(3) [OF assms(1-3)] network_dbD(1) [OF assms(2)] in \<open>auto simp: plan_ok_def plan_range_def\<close>)

lemma machine_forwards_iff:
  assumes "machine_network format_time plan high_ports host ctrl d = Inr m" "network_db plan d"
    "1 \<le> pr_from high_ports" "pr_from high_ports \<le> pr_to high_ports" "nft_obeys nft (machine_ruleset m)" "mn_users m \<noteq> []"
  shows "forwards nft (machine_ruleset m) p \<longleftrightarrow> owns_slot (machine_ruleset m) \<and> forward_policy (machine_ruleset m) p"
  using forwards_iff [OF machine_network_renders [OF assms(1-4)] assms(5), of p] assms(6) by (simp add: machine_ruleset_users)

lemma route_to_owner:
  assumes "machine_network format_time plan high_ports host ctrl d = Inr m" "network_db plan d" "settled d"
    "u \<in> set (mn_users m)" "address_owner d (mu_subnet u) b = Some host2" "host2 \<noteq> host"
    "machine_routes m = Inr routes"
  shows "\<forall>r\<in>set routes. contains (rt_destination r) b \<longrightarrow>
      (\<exists>h\<in>set (db_hosts d). h_id h = host2 \<and> underlay_of h = Some (rt_next_hop r))"
    and "slot_count (db_numbering d) \<noteq> 1 \<Longrightarrow> \<exists>r\<in>set routes. contains (rt_destination r) b"
proof -
  note db = network_dbD [OF assms(2)]
  note ok = machine_network_checks [OF assms(1,2)]
  note f = machine_network_fields(2) [OF assms(1)]
  obtain k where k: "slot_of (db_numbering d) (mu_subnet u) b = Inr k" "slot_owner d k = Some host2"
    using assms(5) by (auto simp: address_owner_def split: sum.splits)
  show "\<forall>r\<in>set routes. contains (rt_destination r) b \<longrightarrow>
      (\<exists>h\<in>set (db_hosts d). h_id h = host2 \<and> underlay_of h = Some (rt_next_hop r))"
  proof (intro ballI impI)
    fix r assume r: "r \<in> set routes" "contains (rt_destination r) b"
    obtain w q where w: "w \<in> set (mn_users m)" "q \<in> set (mn_remote_slots m)"
      "slot_of (db_numbering d) (mu_subnet w) b = Inr (rem_slot q)" "rt_next_hop r = rem_next_hop q"
      using machine_routes_cover [OF ok assms(7) r] f by auto
    have "k = rem_slot q" using k(1) w(3) by (simp add: slot_of_Inr_iff)
    obtain s where s: "s \<in> set (db_slots d)" "remote_slot_of d host s = Some q"
      using w(2) machine_network_remote [OF assms(1)] by blast
    then have "s_slot s = k" "\<exists>h\<in>set (db_hosts d). h_id h = s_owner_host_id s \<and> underlay_of h = Some (rem_next_hop q)"
      using \<open>k = rem_slot q\<close> by (auto simp: remote_slot_of_Some [OF assms(2)])
    moreover have "s_owner_host_id s = host2"
      using k(2) s(1) \<open>s_slot s = k\<close> slot_owner_Some [OF db(5)] by (metis option.inject)
    ultimately show "\<exists>h\<in>set (db_hosts d). h_id h = host2 \<and> underlay_of h = Some (rt_next_hop r)" using w(4) by auto
  qed
  assume two: "slot_count (db_numbering d) \<noteq> 1"
  have "k \<in> set (rs_remote_slots (machine_ruleset m))"
    using remote_numbers [OF assms(1-3)] k(2) assms(6) by blast
  then obtain q where q: "q \<in> set (mn_remote_slots m)" "rem_slot q = k" by (auto simp: machine_ruleset_fields)
  obtain rss where "try_map (\<lambda>u. try_map (slot_route (db_numbering d) u) (mn_remote_slots m)) (mn_users m) = Inr rss"
    using assms(7) two by (auto simp: machine_routes_def machine_numbering [OF assms(1,2)] result_simps)
  then obtain rs r where "try_map (slot_route (db_numbering d) u) (mn_remote_slots m) = Inr rs" "slot_route (db_numbering d) u q = Inr r"
    using assms(4) q(1) by (metis try_map_Inr_all)
  then have "contains (rt_destination r) b"
    using q(2) k(1) slot_of_iff_prefix [OF db(2), of "mu_subnet u" k] by (simp add: slot_route_Inr)
  moreover have "r \<in> set routes"
    using machine_routes_set [OF assms(7), of "db_numbering d" r] two f assms(4) q(1) \<open>slot_route (db_numbering d) u q = Inr r\<close> by auto
  ultimately show "\<exists>r\<in>set routes. contains (rt_destination r) b" by blast
qed

lemma two_owners_two_slots:
  assumes "network_db plan d" "address_owner d subnet a = Some host1" "address_owner d subnet b = Some host2" "host1 \<noteq> host2"
  shows "slot_count (db_numbering d) \<noteq> 1"
proof
  assume one: "slot_count (db_numbering d) = 1"
  obtain j k where jk: "slot_of (db_numbering d) subnet a = Inr j" "slot_owner d j = Some host1"
    "slot_of (db_numbering d) subnet b = Inr k" "slot_owner d k = Some host2"
    using assms(2,3) by (auto simp: address_owner_def split: sum.splits)
  then have "j = 0" "k = 0" using slot_of_lt [OF network_dbD(2) [OF assms(1)]] one by fastforce+
  then show False using jk assms(4) by simp
qed
lemma delivery_iff:
  assumes "network_db plan d" "settled d" "1 \<le> pr_from high_ports" "pr_from high_ports \<le> pr_to high_ports"
    and "machine_network format_time plan high_ports host1 ctrl d = Inr m1"
    and "machine_network format_time plan high_ports host2 ctrl d = Inr m2" "host1 \<noteq> host2"
    and "nft_obeys nft1 (machine_ruleset m1)" "nft_obeys nft2 (machine_ruleset m2)"
    and "u \<in> set (mn_users m1)" "v \<in> set (mn_users m2)"
    and "pk_ipv4 p" "\<not> pk_established p" "contains (plan_range plan) (pk_daddr p)"
    and "pk_iif p = ''bento'' @ show_int (mu_index u)" "pk_oif p \<notin> bridges (machine_ruleset m1)"
    and "underlay \<notin> bridges (machine_ruleset m2)"
  shows "forwards nft1 (machine_ruleset m1) p \<and>
      forwards nft2 (machine_ruleset m2) (p\<lparr>pk_iif := underlay, pk_oif := ''bento'' @ show_int (mu_index v)\<rparr>) \<longleftrightarrow>
        mu_index u = mu_index v \<and> address_owner d (mu_subnet u) (pk_saddr p) = Some host1 \<and>
        address_owner d (mu_subnet u) (pk_daddr p) = Some host2 \<and> pk_daddr p \<notin> set (mn_management m1)"
    (is "?L \<longleftrightarrow> ?R")
proof -
  note m1 = assms(5) and m2 = assms(6)
  let ?q = "p\<lparr>pk_iif := underlay, pk_oif := ''bento'' @ show_int (mu_index v)\<rparr>"
  have users: "mn_users m1 \<noteq> []" "mn_users m2 \<noteq> []" using assms(10,11) by auto
  note subnets = same_index_same_subnet [OF m1 m2 assms(1,10,11)]
  show ?thesis
  proof (cases "address_owner d (mu_subnet u) (pk_saddr p) = Some host1")
    case False
    then show ?thesis
      using leaves_machine_iff [OF m1 assms(1,2,10,12,13,15,16,14)]
        machine_forwards_iff [OF m1 assms(1,3,4,8) users(1)] by blast
  next
    case True
    then have src: "contains (plan_range plan) (pk_saddr ?q)" "contains (mu_subnet u) (pk_saddr p)"
      using user_address_in_range [OF m1 assms(1,10)] address_owner_inside by auto
    have own1: "owns_slot (machine_ruleset m1)" by (rule owns_slot_machine [OF m1 assms(1,2) True])
    have L1: "forwards nft1 (machine_ruleset m1) p \<longleftrightarrow>
        pk_daddr p \<notin> set (mn_management m1) \<and> mn_remote_slots m1 \<noteq> [] \<and> contains (mu_subnet u) (pk_daddr p)"
      using leaves_machine_iff [OF m1 assms(1,2,10,12,13,15,16,14)] own1 True
        machine_forwards_iff [OF m1 assms(1,3,4,8) users(1)] by blast
    have L2: "forwards nft2 (machine_ruleset m2) ?q \<longleftrightarrow>
        (\<exists>h. address_owner d (mu_subnet v) (pk_saddr p) = Some h \<and> h \<noteq> host2) \<and> address_owner d (mu_subnet v) (pk_daddr p) = Some host2"
      using enters_machine_iff [OF m2 assms(1,2,11), of ?q] src(1) assms(12,13,17) owns_slot_machine [OF m2 assms(1,2)]
        machine_forwards_iff [OF m2 assms(1,3,4,9) users(2)] by auto
    show ?thesis
    proof
      assume L: ?L
      then have both: "contains (mu_subnet u) (pk_daddr p)" "contains (mu_subnet v) (pk_daddr p)"
        using L1 L2 address_owner_inside by auto
      then have "mu_index u = mu_index v"
        using subnets(1) slash_24_disjoint machine_network_users(3) [OF m1 assms(1,10)] machine_network_users(3) [OF m2 assms(1,11)] by blast
      then show ?R using L L1 L2 True subnets(2) by auto
    next
      assume R: ?R
      then have "\<exists>k. slot_of (db_numbering d) (mu_subnet u) (pk_daddr p) = Inr k \<and> slot_owner d k = Some host2"
        by (auto simp: address_owner_def split: sum.splits)
      then have "mn_remote_slots m1 \<noteq> []"
        using remote_numbers [OF m1 assms(1,2)] assms(7) by (fastforce simp: machine_ruleset_fields)
      then show ?L using R L1 L2 subnets(2) assms(7) address_owner_inside by auto
    qed
  qed
qed

section \<open>Properties\<close>

text \<open>C15. A description can always be applied: from a database that keeps its networks apart,
  \<open>machine_network\<close> gives every machine a description that passes \<open>check\<close>, whose firewall
  renders and whose routes can be computed.\<close>

theorem network_description_applies:
  assumes "network_db plan d" "1 \<le> pr_from high_ports" "pr_from high_ports \<le> pr_to high_ports"
  shows "\<exists>m t routes. machine_network format_time plan high_ports host ctrl d = Inr m \<and> machine_check m = Inr () \<and>
    render (machine_ruleset m) = Inr t \<and> machine_routes m = Inr routes"
proof -
  obtain m where m: "machine_network format_time plan high_ports host ctrl d = Inr m"
    by (simp add: machine_network_def deployment_of_def with_conn_def Let_def)
  show ?thesis
    using m machine_network_checks [OF m assms(1)] render_total [OF machine_network_renders [OF m assms]]
      machine_network_routes [OF m assms(1)] by (auto simp: is_ok_iff)
qed


text \<open>Two machines with a slot each.\<close>

definition sample_host :: "int \<Rightarrow> string \<Rightarrow> string option \<Rightarrow> host" where
  "sample_host k name underlay =
    \<lparr>h_id = k, h_machine_id = None, h_name = name, h_libvirt_uri = [], h_endpoint = None, h_underlay = underlay,
     h_enabled = True, h_placement = PActive, h_created_at = 1\<rparr>"

definition sample_slot :: "nat \<Rightarrow> int \<Rightarrow> slot" where
  "sample_slot k owner =
    \<lparr>s_slot = k, s_state = SActive, s_owner_host_id = owner, s_ownership_epoch = 0,
     s_source_host_id = None, s_destination_host_id = None, s_operation_id = None\<rparr>"

definition sample_fleet :: "string option \<Rightarrow> db" where
  "sample_fleet underlay = sample_db1\<lparr>db_runner_prefix := 25,
    db_hosts := [sample_host 1 ''one'' (Some ''10.0.0.21''), sample_host 2 ''two'' underlay],
    db_slots := [sample_slot 0 1, sample_slot 1 2]\<rparr>"

definition sample_plan :: plan where
  "sample_plan = \<lparr>plan_prefix = \<lparr>p_addr = 0x0a4d0000, p_bits = 16\<rparr>\<rparr>"

lemma sample_texts:
  "parse_prefix ''10.77.0.0/24'' = Some \<lparr>p_addr = 0x0a4d0000, p_bits = 24\<rparr>"
  "parse_prefix ''10.77.1.0/24'' = Some \<lparr>p_addr = 0x0a4d0100, p_bits = 24\<rparr>"
  "parse_ipv4 ''10.0.0.21'' = Some 0x0a000015" "parse_ipv4 ''10.0.0.22'' = Some 0x0a000016"
  "parse_ipv4 ''10.77.0.2'' = Some 0x0a4d0002"
  by (simp_all add: text_eval)

lemma sample_addresses:
  "\<not> contains \<lparr>p_addr = 0x0a4d0000, p_bits = 16\<rparr> 0x0a000015" "\<not> contains \<lparr>p_addr = 0x0a4d0000, p_bits = 16\<rparr> 0x0a000016"
  "\<not> contains \<lparr>p_addr = 0x0a4d0000, p_bits = 16\<rparr> 0x08080808"
  "contains \<lparr>p_addr = 0x0a4d0000, p_bits = 24\<rparr> 0x0a4d0002" "contains \<lparr>p_addr = 0x0a4d0000, p_bits = 16\<rparr> 0x0a4d0082"
  "plan_ok sample_plan" "plan_index sample_plan \<lparr>p_addr = 0x0a4d0000, p_bits = 24\<rparr> = Inr 0"
  "plan_index sample_plan \<lparr>p_addr = 0x0a4d0100, p_bits = 24\<rparr> = Inr 1"
  "masked \<lparr>p_addr = 0x0a4d0000, p_bits = 24\<rparr> \<noteq> masked \<lparr>p_addr = 0x0a4d0100, p_bits = 24\<rparr>"
  "slot_of \<lparr>slot_bits = 25\<rparr> \<lparr>p_addr = 0x0a4d0000, p_bits = 24\<rparr> 0x0a4d0002 = Inr 0"
  "slot_of \<lparr>slot_bits = 25\<rparr> \<lparr>p_addr = 0x0a4d0000, p_bits = 24\<rparr> 0x0a4d0082 = Inr 1"
  by code_simp+

lemmas sample_fleet_eval = sample_fleet_def sample_db1_def sample_db_def empty_db_def sample_host_def sample_slot_def
  sample_instance_def sample_texts underlay_of_def

lemma sample_fleet_ok: "network_db sample_plan (sample_fleet (Some ''10.0.0.22''))" "network_db sample_plan (sample_fleet None)"
proof -
  have "plan_range sample_plan = \<lparr>p_addr = 0x0a4d0000, p_bits = 16\<rparr>" by (simp add: plan_range_def sample_plan_def)
  then show "network_db sample_plan (sample_fleet (Some ''10.0.0.22''))" "network_db sample_plan (sample_fleet None)"
    using sample_addresses(9) sample_addresses(9) [symmetric]
    by (simp_all add: network_db_def sample_fleet_eval sample_addresses slots_ok_def slot_count_def slot_consts)
qed

lemma sample_fleet_settled: "settled (sample_fleet (Some ''10.0.0.22''))"
  by (auto simp: settled_def slot_owner_def sample_fleet_eval slot_count_def slot_consts less_Suc_eq numeral_2_eq_2)

theorem network_description_applies_witness:
  "\<exists>m t routes. machine_network (\<lambda>_. []) sample_plan (PortRange 3000 9999) 1 1 (sample_fleet (Some ''10.0.0.22'')) = Inr m \<and>
    machine_check m = Inr () \<and> render (machine_ruleset m) = Inr t \<and> machine_routes m = Inr routes"
  by (rule network_description_applies [OF sample_fleet_ok(1)]) simp_all

text \<open>The first user on either machine.\<close>

lemma sample_fleet_user:
  assumes "machine_network (\<lambda>_. []) sample_plan (PortRange 3000 9999) host ctrl (sample_fleet underlay) = Inr m"
  shows "\<exists>u\<in>set (mn_users m). mu_index u = 0 \<and> mu_subnet u = \<lparr>p_addr = 0x0a4d0000, p_bits = 24\<rparr>"
proof -
  let ?by = "List.map_filter (published_of (PortRange 3000 9999) host) (instances (\<lambda>_. []) (sample_fleet underlay))"
  let ?u = "\<lparr>mu_index = 0, mu_subnet = \<lparr>p_addr = 0x0a4d0000, p_bits = 24\<rparr>, mu_instances = map snd (filter (\<lambda>(owner, _). owner = 1) ?by)\<rparr>"
  have "hd (db_users sample_db) \<in> set (db_users (sample_fleet underlay))" by (simp add: sample_fleet_eval)
  moreover have "machine_user_of sample_plan ?by (hd (db_users sample_db)) = Some ?u"
    by (simp add: machine_user_of_Some sample_addresses(7)) (simp add: sample_db_def sample_texts)
  ultimately have "?u \<in> set (mn_users m)" unfolding machine_network_user [OF assms] by blast
  then show ?thesis by force
qed

lemma sample_fleet_bridges:
  assumes "machine_network (\<lambda>_. []) sample_plan (PortRange 3000 9999) host ctrl (sample_fleet underlay) = Inr m"
  shows "''eth0'' \<notin> bridges (machine_ruleset m)"
  by (auto simp: machine_bridges)

lemma sample_fleet_management:
  assumes "machine_network (\<lambda>_. []) sample_plan (PortRange 3000 9999) host ctrl (sample_fleet underlay) = Inr m"
    "underlay \<in> {Some ''10.0.0.22'', None}"
  shows "set (mn_management m) \<subseteq> {0x0a000015, 0x0a000016}"
  unfolding machine_network_fields(6) [OF assms(1)] using assms(2)
  by (auto simp: management_of_def sample_fleet_eval List.map_filter_simps)


text \<open>C34. A slot whose owner has no underlay address, or that is being moved, is left out of
  the description of every machine, and a machine takes every slot it is not told about for its own.  So a guest
  may send packets to the internet under an address of a slot another machine owns.\<close>

theorem unlisted_slot_counts_as_own:
  assumes "machine_network format_time plan high_ports host ctrl d = Inr m" "network_db plan d"
    and "1 \<le> pr_from high_ports" "pr_from high_ports \<le> pr_to high_ports" "nft_obeys nft (machine_ruleset m)"
    and "s \<in> set (db_slots d)" "s_owner_host_id s \<noteq> host"
    and "s_state s = SMoving \<or> (\<forall>h\<in>set (db_hosts d). h_id h = s_owner_host_id s \<longrightarrow> underlay_of h = None)"
    and "u \<in> set (mn_users m)" "slot_of (db_numbering d) (mu_subnet u) (pk_saddr p) = Inr (s_slot s)"
    and "pk_ipv4 p" "pk_iif p = ''bento'' @ show_int (mu_index u)" "pk_oif p \<notin> bridges (machine_ruleset m)"
    and "\<not> contains (plan_range plan) (pk_daddr p)" "pk_daddr p \<notin> set (mn_management m)"
  shows "forwards nft (machine_ruleset m) p"
proof -
  have "remote_slot_of d host t \<noteq> Some q" if "t \<in> set (db_slots d)" "rem_slot q = s_slot s" for t q
  proof
    assume q: "remote_slot_of d host t = Some q"
    then have "t = s" using that assms(6) network_dbD(5) [OF assms(2)]
      by (auto simp: remote_slot_of_Some [OF assms(2)] distinct_map inj_on_def)
    then show False using q assms(8) by (auto simp: remote_slot_of_Some [OF assms(2)])
  qed
  then have out: "s_slot s \<notin> set (rs_remote_slots (machine_ruleset m))"
    using machine_network_remote [OF assms(1)] by (auto simp: machine_ruleset_fields)
  have "s_slot s < slot_count (db_numbering d)" using network_dbD(6) [OF assms(2,6)] .
  then have "owns_slot (machine_ruleset m)"
    unfolding owns_slot_def using out
    by (intro bexI [of _ "s_slot s"]) (auto simp: machine_ruleset_def machine_network_fields(2) [OF assms(1)])
  moreover have "own_address (machine_ruleset m) (firewall_user_of u) (pk_saddr p)"
    using assms(10) out by (simp add: own_address_def slot_in_machine [OF assms(1)])
  then have "from_guest (machine_ruleset m) (firewall_user_of u) p"
    using assms(11-15) by (simp add: from_guest_def machine_ruleset_fields machine_network_fields(1) [OF assms(1)])
  then have "forward_policy (machine_ruleset m) p" using assms(9) by (auto simp: forward_policy_def machine_ruleset_users)
  moreover have "mn_users m \<noteq> []" using assms(9) by auto
  ultimately show ?thesis using machine_forwards_iff [OF assms(1-5)] by blast
qed

theorem unlisted_slot_counts_as_own_witness:
  "\<exists>m. machine_network (\<lambda>_. []) sample_plan (PortRange 3000 9999) 1 1 (sample_fleet None) = Inr m \<and>
    slot_owner (sample_fleet None) 1 = Some 2 \<and>
    forwards (sample_nft (machine_ruleset m)) (machine_ruleset m) (sample_packet ''bento0'' ''eth0'' 0x0a4d0082 0x08080808)"
proof -
  let ?d = "sample_fleet None" and ?p = "sample_packet ''bento0'' ''eth0'' 0x0a4d0082 0x08080808"
  obtain m where m: "machine_network (\<lambda>_. []) sample_plan (PortRange 3000 9999) 1 1 ?d = Inr m"
    by (simp add: machine_network_def deployment_of_def with_conn_def Let_def)
  obtain u where u: "u \<in> set (mn_users m)" "mu_index u = 0" "mu_subnet u = \<lparr>p_addr = 0x0a4d0000, p_bits = 24\<rparr>"
    using sample_fleet_user [OF m] by blast
  have name: "show_int 0 = ''0''" by (simp add: show_int_def text_eval)
  have slot: "sample_slot 1 2 \<in> set (db_slots ?d)" "slot_owner ?d 1 = Some 2"
    by (simp_all add: slot_owner_def sample_fleet_eval)
  have "forwards (sample_nft (machine_ruleset m)) (machine_ruleset m) ?p"
    by (rule unlisted_slot_counts_as_own [OF m sample_fleet_ok(2) _ _ sample_nft_obeys slot(1) _ _ u(1)])
      (use sample_fleet_bridges [OF m] sample_fleet_management [OF m] in
        \<open>auto simp: u name sample_packet_def sample_plan_def plan_range_def sample_addresses sample_fleet_eval\<close>)
  then show ?thesis using m slot by blast
qed

end
