(* ===== verification/Store_Images.thy ===== *)
theory Store_Images
  imports Store_Instances
begin

text \<open>
  The image allowlist and its fetched versions, \<open>crates/store/src/images.rs\<close>.

  A version is the backing file of every instance built from it, and at most one
  version of an image is current.  Deleting a version that an instance or an image
  refers to violates a foreign key; its source records are deleted with it.
\<close>

section \<open>Definitions\<close>

definition insert_image :: "image \<Rightarrow> db \<Rightarrow> (store_error, bool) result \<times> db" where
  "insert_image img = with_tx (\<lambda>d.
    if im_name img \<in> im_name ` set (db_images d) then Inr (False, d)
    else Inr (True, d\<lparr>db_images := db_images d @ [img\<lparr>im_current_checksum := None\<rparr>]\<rparr>))"

definition upsert_image :: "image \<Rightarrow> db \<Rightarrow> (store_error, unit) result \<times> db" where
  "upsert_image img = with_tx (\<lambda>d.
    if im_name img \<in> im_name ` set (db_images d)
    then Inr ((), d\<lparr>db_images := map (\<lambda>r. if im_name r = im_name img
      then r\<lparr>im_url := im_url img, im_kind := im_kind img, im_pinned_checksum := im_pinned_checksum img\<rparr> else r)
      (db_images d)\<rparr>)
    else Inr ((), d\<lparr>db_images := db_images d @ [img\<lparr>im_current_checksum := None\<rparr>]\<rparr>))"

definition image_of :: "string \<Rightarrow> db \<Rightarrow> (store_error, image) result" where
  "image_of name = with_conn (\<lambda>d. ok_or NotFound (find (\<lambda>r. im_name r = name) (db_images d)))"

definition images :: "db \<Rightarrow> image list" where
  "images d = sort_key im_name (db_images d)"

definition add_image_version :: "image_version \<Rightarrow> db \<Rightarrow> (store_error, unit) result \<times> db" where
  "add_image_version v = with_tx (\<lambda>d.
    and_then (to_sql_int (iv_size v)) (\<lambda>_.
      if iv_checksum v \<in> iv_checksum ` set (db_image_versions d) \<or> iv_path v \<in> iv_path ` set (db_image_versions d)
        \<or> iv_image_name v \<notin> im_name ` set (db_images d)
      then Inl Sqlite
      else Inr ((), d\<lparr>db_image_versions := db_image_versions d @ [v]\<rparr>)))"

definition image_version_of :: "string \<Rightarrow> db \<Rightarrow> (store_error, image_version) result" where
  "image_version_of checksum =
    with_conn (\<lambda>d. ok_or NotFound (find (\<lambda>v. iv_checksum v = checksum) (db_image_versions d)))"

definition image_version_for_source ::
  "string \<Rightarrow> string \<Rightarrow> db \<Rightarrow> (store_error, image_version option) result" where
  "image_version_for_source image_name source_digest = with_conn (\<lambda>d.
    case db_image_sources d (image_name, source_digest) of
      None \<Rightarrow> Inr None
    | Some checksum \<Rightarrow> Inr (find (\<lambda>v. iv_checksum v = checksum) (db_image_versions d)))"

definition record_image_source ::
  "string \<Rightarrow> string \<Rightarrow> string \<Rightarrow> db \<Rightarrow> (store_error, unit) result \<times> db" where
  "record_image_source image_name source_digest checksum = with_tx (\<lambda>d.
    if image_name \<in> im_name ` set (db_images d) \<and> checksum \<in> iv_checksum ` set (db_image_versions d)
    then Inr ((), d\<lparr>db_image_sources := (db_image_sources d)((image_name, source_digest) \<mapsto> checksum)\<rparr>)
    else Inl Sqlite)"

definition delete_unbuilt_image :: "string \<Rightarrow> db \<Rightarrow> (store_error, bool) result \<times> db" where
  "delete_unbuilt_image name = with_tx (\<lambda>d.
    let hit = (\<lambda>r. im_name r = name \<and> im_current_checksum r = None \<and>
                    \<not> list_ex (\<lambda>v. iv_image_name v = im_name r) (db_image_versions d) \<and>
                    \<not> list_ex (\<lambda>i. i_image_name i = im_name r) (db_instances d));
        n = length (filter hit (db_images d)) in
    Inr (n = 1,
      if n = 0 then d
      else d\<lparr>db_images := filter (\<lambda>r. \<not> hit r) (db_images d),
             db_image_sources := (\<lambda>k. if fst k = name then None else db_image_sources d k)\<rparr>))"

definition set_current_checksum ::
  "string \<Rightarrow> string \<Rightarrow> db \<Rightarrow> (store_error, unit) result \<times> db" where
  "set_current_checksum image_name checksum = with_tx (\<lambda>d.
    if length (filter (\<lambda>r. im_name r = image_name) (db_images d)) = 0 then Inl NotFound
    else if checksum \<notin> iv_checksum ` set (db_image_versions d) then Inl Sqlite
    else Inr ((), d\<lparr>db_images := map (\<lambda>r. if im_name r = image_name
      then r\<lparr>im_current_checksum := Some checksum\<rparr> else r) (db_images d)\<rparr>))"

text \<open>\<open>ORDER BY fetched_at DESC, checksum\<close>: a stable sort by checksum, then by the reversed
  text order of the time.\<close>

definition newest_first :: "(time \<Rightarrow> string) \<Rightarrow> image_version list \<Rightarrow> image_version list" where
  "newest_first format_time vs =
    rev (sort_key (\<lambda>v. format_time (iv_fetched_at v)) (rev (sort_key iv_checksum vs)))"

definition image_versions :: "(time \<Rightarrow> string) \<Rightarrow> string \<Rightarrow> db \<Rightarrow> image_version list" where
  "image_versions format_time image_name d =
    newest_first format_time (filter (\<lambda>v. iv_image_name v = image_name) (db_image_versions d))"

definition all_image_versions :: "(time \<Rightarrow> string) \<Rightarrow> db \<Rightarrow> image_version list" where
  "all_image_versions format_time d = newest_first format_time (db_image_versions d)"

definition unused_image_versions :: "(time \<Rightarrow> string) \<Rightarrow> db \<Rightarrow> image_version list" where
  "unused_image_versions format_time d =
    sort_key (\<lambda>v. (format_time (iv_fetched_at v), iv_checksum v))
      (filter (\<lambda>v. \<not> list_ex (\<lambda>i. i_base_checksum i = iv_checksum v) (db_instances d) \<and>
                   \<not> list_ex (\<lambda>r. im_current_checksum r = Some (iv_checksum v)) (db_images d))
        (db_image_versions d))"

definition delete_image_version :: "string \<Rightarrow> db \<Rightarrow> (store_error, unit) result \<times> db" where
  "delete_image_version checksum = with_tx (\<lambda>d.
    if length (filter (\<lambda>v. iv_checksum v = checksum) (db_image_versions d)) = 0 then Inl NotFound
    else if checksum \<in> i_base_checksum ` set (db_instances d) \<or> Some checksum \<in> im_current_checksum ` set (db_images d)
    then Inl Sqlite
    else Inr ((), d\<lparr>db_image_versions := filter (\<lambda>v. iv_checksum v \<noteq> checksum) (db_image_versions d),
                    db_image_sources := (\<lambda>k. if db_image_sources d k = Some checksum then None else db_image_sources d k)\<rparr>))"

section \<open>Properties\<close>

lemma unused_image_versions_iff:
  "v \<in> set (unused_image_versions ft d) \<longleftrightarrow> v \<in> set (db_image_versions d) \<and>
    iv_checksum v \<notin> i_base_checksum ` set (db_instances d) \<and> Some (iv_checksum v) \<notin> im_current_checksum ` set (db_images d)"
  by (fastforce simp: unused_image_versions_def list_ex_iff image_iff)

text \<open>C22. Collecting image versions is exact and safe.  The versions \<open>unused_image_versions\<close>
  lists are exactly the stored versions whose deletion succeeds, so a collector that
  follows the list never fails on a constraint and can never remove the backing file
  of an instance or the current version of an image.  A deletion removes that version
  and the source records that selected it, and keeps every instance's base on record;
  a refused one changes nothing.\<close>

theorem image_gc_exact:
  assumes "\<forall>i \<in> set (db_instances d). instance_refs_ok d i"
  shows "(is_ok (fst (delete_image_version c d)) \<longleftrightarrow> c \<in> iv_checksum ` set (unused_image_versions format_time d)) \<and>
    (case delete_image_version c d of
       (Inr _, d') \<Rightarrow> (\<forall>i \<in> set (db_instances d'). instance_refs_ok d' i) \<and> db_instances d' = db_instances d \<and>
         db_images d' = db_images d \<and> image_version_of c d' = Inl NotFound \<and>
         (\<forall>c'. c' \<noteq> c \<longrightarrow> image_version_of c' d' = image_version_of c' d) \<and>
         (\<forall>img dig. image_version_for_source img dig d' =
           (if db_image_sources d (img, dig) = Some c then Inr None else image_version_for_source img dig d))
     | (Inl e, d') \<Rightarrow> d' = d \<and> (e = NotFound \<longleftrightarrow> c \<notin> iv_checksum ` set (db_image_versions d)))"
proof -
  have used: "c \<in> iv_checksum ` set (unused_image_versions format_time d) \<longleftrightarrow>
      c \<in> iv_checksum ` set (db_image_versions d) \<and> c \<notin> i_base_checksum ` set (db_instances d) \<and>
      Some c \<notin> im_current_checksum ` set (db_images d)"
    by (auto simp: unused_image_versions_iff)
  consider (missing) "c \<notin> iv_checksum ` set (db_image_versions d)"
    | (used) "c \<in> iv_checksum ` set (db_image_versions d)"
      "c \<in> i_base_checksum ` set (db_instances d) \<or> Some c \<in> im_current_checksum ` set (db_images d)"
    | (free) "c \<in> iv_checksum ` set (db_image_versions d)" "c \<notin> i_base_checksum ` set (db_instances d)"
      "Some c \<notin> im_current_checksum ` set (db_images d)"
    by blast
  then show ?thesis
  proof cases
    case missing
    then have "delete_image_version c d = (Inl NotFound, d)"
      by (auto simp: delete_image_version_def with_tx_def filter_key_empty)
    then show ?thesis using missing used by simp
  next
    case used
    then have "delete_image_version c d = (Inl Sqlite, d)"
      by (auto simp: delete_image_version_def with_tx_def filter_key_empty)
    then show ?thesis using used \<open>c \<in> iv_checksum ` set (unused_image_versions format_time d) \<longleftrightarrow> _\<close> by auto
  next
    case free
    define d' where "d' = d\<lparr>db_image_versions := filter (\<lambda>v. iv_checksum v \<noteq> c) (db_image_versions d),
                    db_image_sources := (\<lambda>k. if db_image_sources d k = Some c then None else db_image_sources d k)\<rparr>"
    have del: "delete_image_version c d = (Inr (), d')"
      using free by (auto simp: delete_image_version_def with_tx_def filter_key_empty d'_def)
    have find: "find (\<lambda>v. iv_checksum v = k) (filter (\<lambda>v. iv_checksum v \<noteq> c) vs) =
        (if k = c then None else find (\<lambda>v. iv_checksum v = k) vs)" for k vs
      by (induction vs) auto
    have "\<forall>i \<in> set (db_instances d'). instance_refs_ok d' i"
    proof
      fix i assume i: "i \<in> set (db_instances d')"
      then have "instance_refs_ok d i" "i_base_checksum i \<noteq> c" using assms free(2) by (auto simp: d'_def)
      then show "instance_refs_ok d' i" by (auto simp: instance_refs_ok_def d'_def)
    qed
    moreover have "image_version_for_source img dig d' =
           (if db_image_sources d (img, dig) = Some c then Inr None else image_version_for_source img dig d)" for img dig
      by (auto simp: image_version_for_source_def with_conn_def d'_def find split: option.splits)
    ultimately show ?thesis
      using used free unfolding del by (simp add: d'_def image_version_of_def with_conn_def find)
  qed
qed

theorem image_gc_exact_witness:
  "\<not> is_ok (fst (delete_image_version ''sha256-a'' sample_db1)) \<and>
   ''sha256-a'' \<notin> iv_checksum ` set (unused_image_versions (\<lambda>_. []) sample_db1)"
proof -
  have refs: "\<forall>i \<in> set (db_instances sample_db1). instance_refs_ok sample_db1 i"
    by (simp add: sample_db1_def sample_db_def sample_instance_def instance_refs_ok_def)
  have "\<not> is_ok (fst (delete_image_version ''sha256-a'' sample_db1))"
    by (simp add: delete_image_version_def with_tx_def sample_db1_def sample_db_def sample_instance_def)
  then show ?thesis using image_gc_exact [OF refs, of "''sha256-a''" "\<lambda>_. []"] by simp
qed

end
