(* ===== verification/Bento_Files.thy ===== *)
theory Bento_Files
  imports Bento_World "HOL-Library.AList" "HOL-Library.Sublist"
begin

text \<open>
  The files of one machine, as \<open>std::fs\<close> and \<open>tokio::fs\<close> let the program see them.

  A \<open>disk\<close> is an association list from paths to contents and an environment \<open>'x\<close>.  Every call
  first asks the environment whether it fails (\<open>ft_fault\<close>), so a theorem about all
  environments covers a full disk, a missing directory, a lost permission or an I/O
  error at any step.  A call that fails changes no file, except that a failed write
  may have written a part (\<open>ft_short\<close>).  A rename replaces its target.
  Directories are not modelled; contents survive a crash only where the code asks for it,
  and crashes are not modelled.
\<close>

type_synonym bytes = "byte list"

datatype fs_error = FsNotFound | FsExists | FsOther string

datatype fs_call =
    FsMkdir | FsCreate | FsWrite | FsFlush | FsSync | FsChmod | FsRename | FsRemove | FsStat | FsOpen | FsRead | FsLock

record 'x disk =
  dk_files :: "(string \<times> bytes) list"
  dk_env :: 'x

record 'x faults =
  ft_fault :: "fs_call \<Rightarrow> string \<Rightarrow> 'x \<Rightarrow> string option \<times> 'x"
  ft_short :: "string \<Rightarrow> 'x \<Rightarrow> nat"

definition file_at :: "'x disk \<Rightarrow> string \<Rightarrow> bytes option" where
  "file_at d = map_of (dk_files d)"

definition put_file :: "string \<Rightarrow> bytes \<Rightarrow> 'x disk \<Rightarrow> 'x disk" where
  "put_file path content d = d\<lparr>dk_files := AList.update path content (dk_files d)\<rparr>"

definition drop_file :: "string \<Rightarrow> 'x disk \<Rightarrow> 'x disk" where
  "drop_file path d = d\<lparr>dk_files := AList.delete path (dk_files d)\<rparr>"

definition fs_step ::
  "'x faults \<Rightarrow> fs_call \<Rightarrow> string \<Rightarrow> ('x disk, fs_error, 'a) io \<Rightarrow> ('x disk, fs_error, 'a) io" where
  "fs_step ft call path f d =
    (case ft_fault ft call path (dk_env d) of
       (Some e, x) \<Rightarrow> (Inl (FsOther e), d\<lparr>dk_env := x\<rparr>)
     | (None, x) \<Rightarrow> f (d\<lparr>dk_env := x\<rparr>))"

definition fs_check :: "'x faults \<Rightarrow> fs_call \<Rightarrow> string \<Rightarrow> ('x disk, fs_error, unit) io" where
  "fs_check ft call path = fs_step ft call path (io_ok ())"

definition fs_create :: "'x faults \<Rightarrow> string \<Rightarrow> ('x disk, fs_error, unit) io" where
  "fs_create ft path = fs_step ft FsCreate path (\<lambda>d. (Inr (), put_file path [] d))"

definition fs_create_new :: "'x faults \<Rightarrow> string \<Rightarrow> ('x disk, fs_error, unit) io" where
  "fs_create_new ft path = fs_step ft FsCreate path (\<lambda>d.
    case file_at d path of Some _ \<Rightarrow> (Inl FsExists, d) | None \<Rightarrow> (Inr (), put_file path [] d))"

definition fs_write_all :: "'x faults \<Rightarrow> string \<Rightarrow> bytes \<Rightarrow> ('x disk, fs_error, unit) io" where
  "fs_write_all ft path content d =
    (let append = (\<lambda>part d. case file_at d path of Some old \<Rightarrow> put_file path (old @ part) d | None \<Rightarrow> d) in
     case ft_fault ft FsWrite path (dk_env d) of
       (Some e, x) \<Rightarrow> (Inl (FsOther e), append (take (ft_short ft path (dk_env d)) content) (d\<lparr>dk_env := x\<rparr>))
     | (None, x) \<Rightarrow> (Inr (), append content (d\<lparr>dk_env := x\<rparr>)))"

definition fs_metadata :: "'x faults \<Rightarrow> string \<Rightarrow> ('x disk, fs_error, nat) io" where
  "fs_metadata ft path = fs_step ft FsStat path (\<lambda>d. (ok_or FsNotFound (map_option length (file_at d path)), d))"

definition fs_read :: "'x faults \<Rightarrow> string \<Rightarrow> ('x disk, fs_error, bytes) io" where
  "fs_read ft path = fs_step ft FsRead path (\<lambda>d. (ok_or FsNotFound (file_at d path), d))"

definition fs_remove :: "'x faults \<Rightarrow> string \<Rightarrow> ('x disk, fs_error, unit) io" where
  "fs_remove ft path = fs_step ft FsRemove path (\<lambda>d.
    case file_at d path of None \<Rightarrow> (Inl FsNotFound, d) | Some _ \<Rightarrow> (Inr (), drop_file path d))"

definition fs_rename :: "'x faults \<Rightarrow> string \<Rightarrow> string \<Rightarrow> ('x disk, fs_error, unit) io" where
  "fs_rename ft from target = fs_step ft FsRename from (\<lambda>d.
    case file_at d from of
      None \<Rightarrow> (Inl FsNotFound, d)
    | Some content \<Rightarrow> (Inr (), if from = target then d else put_file target content (drop_file from d)))"

text \<open>Code that uses only the environment.\<close>

definition on_env :: "('x, 'e, 'a) io \<Rightarrow> ('x disk, 'e, 'a) io" where
  "on_env f d = (case f (dk_env d) of (r, x) \<Rightarrow> (r, d\<lparr>dk_env := x\<rparr>))"

text \<open>A temporary path, which is removed when it goes out of scope unless it was moved away.\<close>

definition dropping_temp :: "'x faults \<Rightarrow> string \<Rightarrow> ('x disk, 'e, 'a) io \<Rightarrow> ('x disk, 'e, 'a) io" where
  "dropping_temp ft path m d =
    (case m d of (r, d1) \<Rightarrow>
      (r, if file_at d1 path = None then d1 else io_forget (fs_remove ft path) d1))"

section \<open>Paths\<close>

text \<open>\<open>Path::join\<close> for a relative and an absolute second part.\<close>

definition path_join :: "string \<Rightarrow> string \<Rightarrow> string" where
  "path_join dir name =
    (if take 1 name = ''/'' then name
     else if dir = [] \<or> last dir = CHR ''/'' then dir @ name
     else dir @ ''/'' @ name)"

definition file_name :: "string \<Rightarrow> string" where
  "file_name path = last (split_on (CHR ''/'') path)"

text \<open>\<open>Path::extension\<close>: what follows the last dot of the file name, unless the dot is its
  first character or there is none.\<close>

definition path_extension :: "string \<Rightarrow> string option" where
  "path_extension path =
    (case rev (split_on (CHR ''.'') (file_name path)) of
       [] \<Rightarrow> None
     | ext # before \<Rightarrow> if before = [] \<or> before = [[]] then None else Some ext)"

lemma path_join_inject:
  assumes "take 1 a \<noteq> ''/''" "take 1 b \<noteq> ''/''"
  shows "path_join dir a = path_join dir b \<longleftrightarrow> a = b"
  using assms by (auto simp: path_join_def)

section \<open>Frames\<close>

lemma file_at_simps [simp]:
  "file_at (d\<lparr>dk_env := x\<rparr>) p = file_at d p"
  "file_at (put_file q content d) p = (if p = q then Some content else file_at d p)"
  "file_at (drop_file q d) p = (if p = q then None else file_at d p)"
  by (simp_all add: file_at_def put_file_def drop_file_def update_conv' map_of_delete delete_conv')

text \<open>\<open>leaves P\<close> holds of two disks when the files \<open>P\<close> describes are the same on both.\<close>

definition leaves :: "(string \<Rightarrow> bool) \<Rightarrow> 'x disk \<Rightarrow> 'x disk \<Rightarrow> bool" where
  "leaves P d d' \<longleftrightarrow> (\<forall>p. P p \<longrightarrow> file_at d' p = file_at d p)"

lemma leaves_refl [simp]: "leaves P d d"
  by (simp add: leaves_def)

lemma leaves_trans: "leaves P d d' \<Longrightarrow> leaves P d' d'' \<Longrightarrow> leaves P d d''"
  by (simp add: leaves_def)

lemma reflp_leaves: "reflp (leaves P)"
  by (simp add: reflp_def)

lemma transp_leaves: "transp (leaves P)"
  using leaves_trans by (rule transpI)

lemma leavesD: "leaves P d d' \<Longrightarrow> P p \<Longrightarrow> file_at d' p = file_at d p"
  by (simp add: leaves_def)

lemma fs_step_keeps:
  assumes "\<And>d. leaves P d (snd (f d))"
  shows "io_keeps (leaves P) (fs_step ft call path f)"
  using assms unfolding io_keeps_def fs_step_def leaves_def
  by (simp split: prod.split option.split)

lemma fs_keeps:
  "io_keeps (leaves P) (fs_check ft call path)"
  "io_keeps (leaves P) (fs_metadata ft path)"
  "io_keeps (leaves P) (fs_read ft path)"
  "\<not> P path \<Longrightarrow> io_keeps (leaves P) (fs_create ft path)"
  "\<not> P path \<Longrightarrow> io_keeps (leaves P) (fs_create_new ft path)"
  "\<not> P path \<Longrightarrow> io_keeps (leaves P) (fs_remove ft path)"
  "\<not> P path \<Longrightarrow> \<not> P target \<Longrightarrow> io_keeps (leaves P) (fs_rename ft path target)"
  unfolding fs_check_def fs_metadata_def fs_read_def fs_create_def fs_create_new_def fs_remove_def fs_rename_def
  by (rule fs_step_keeps; auto simp: leaves_def io_ok_def split: option.split)+

lemma on_env_keeps: "io_keeps (leaves P) (on_env f)"
  by (simp add: io_keeps_def on_env_def leaves_def split: prod.split)

lemma fs_write_all_keeps:
  assumes "\<not> P path"
  shows "io_keeps (leaves P) (fs_write_all ft path content)"
  using assms unfolding io_keeps_def fs_write_all_def leaves_def Let_def
  by (auto split: prod.split option.split)

lemma dropping_temp_keeps:
  assumes "io_keeps (leaves P) m" "\<not> P path"
  shows "io_keeps (leaves P) (dropping_temp ft path m)"
  unfolding io_keeps_def
proof
  fix d
  obtain r d1 where m: "m d = (r, d1)" by fastforce
  have 1: "leaves P d d1" using assms(1) m by (rule io_keepsD)
  have "leaves P d1 (io_forget (fs_remove ft path) d1)"
    using fs_keeps(6) [of P path ft] assms(2) by (simp add: io_keeps_def io_forget_def)
  with 1 show "leaves P d (snd (dropping_temp ft path m d))"
    using m leaves_trans by (auto simp: dropping_temp_def)
qed

section \<open>What a call did\<close>

lemma fs_step_cases:
  assumes "fs_step ft call path f d = (r, d')"
  obtains (fault) e x where "r = Inl (FsOther e)" "d' = d\<lparr>dk_env := x\<rparr>"
    | (run) x where "ft_fault ft call path (dk_env d) = (None, x)" "f (d\<lparr>dk_env := x\<rparr>) = (r, d')"
  using assms by (auto simp: fs_step_def split: prod.splits option.splits)

lemma fs_check_file: "fs_check ft call path d = (r, d') \<Longrightarrow> file_at d' = file_at d"
  unfolding fs_check_def by (erule fs_step_cases) (auto simp: io_ok_def fun_eq_iff)

lemma fs_metadata_file:
  assumes "fs_metadata ft path d = (r, d')"
  shows "file_at d' = file_at d" "r = Inl FsNotFound \<Longrightarrow> file_at d path = None" "r = Inr n \<Longrightarrow> file_at d path \<noteq> None"
    "r = Inl e \<Longrightarrow> fst (ft_fault ft FsStat path (dk_env d)) = None \<Longrightarrow> e = FsNotFound"
  using assms unfolding fs_metadata_def fs_step_def
  by (cases "file_at d path"; auto simp: fun_eq_iff split: prod.splits option.splits)+

lemma fs_remove_file:
  "fs_remove ft path d = (r, d') \<Longrightarrow> file_at d' = file_at d \<or> file_at d' = (file_at d)(path := None)"
  unfolding fs_remove_def by (erule fs_step_cases) (auto simp: fun_eq_iff split: option.splits)

lemma fs_rename_file:
  assumes "fs_rename ft a b d = (r, d')" "a \<noteq> b"
  shows "(\<exists>content. r = Inr () \<and> file_at d a = Some content \<and> file_at d' = (file_at d)(a := None, b \<mapsto> content)) \<or>
    ((\<exists>e. r = Inl e) \<and> file_at d' = file_at d)"
  using assms(1) unfolding fs_rename_def
  by (elim fs_step_cases) (use assms(2) in \<open>auto simp: fun_eq_iff split: option.splits\<close>)

lemma fs_write_all_file:
  "fs_write_all ft path content d = (Inr u, d') \<Longrightarrow> file_at d path = Some old \<Longrightarrow> file_at d' path = Some (old @ content)"
  by (auto simp: fs_write_all_def split: prod.splits option.splits)

lemma fs_create_new_file:
  "fs_create_new ft path d = (Inr u, d') \<Longrightarrow> file_at d' path = Some []"
  unfolding fs_create_new_def by (erule fs_step_cases) (auto split: option.splits)

lemma fs_read_file: "fs_read ft path d = (Inr content, d') \<Longrightarrow> file_at d path = Some content \<and> file_at d' = file_at d"
  unfolding fs_read_def by (erule fs_step_cases) (cases "file_at d path", auto simp: fun_eq_iff)

end
