(* ===== verification/Bento_Site.thy ===== *)
theory Bento_Site
  imports Store_Db Bento_Files
begin

text \<open>
  A \<open>site\<close> is the database together with everything outside it, \<open>'w\<close>: libvirt, the disks,
  the clock and the other machines.  \<open>on_store\<close> runs a write of the database, \<open>read_store\<close> a
  read, \<open>on_world\<close> an operation on the rest.
\<close>

record 'w site =
  st_db :: db
  st_world :: 'w

definition on_store :: "(db \<Rightarrow> (store_error, 'a) result \<times> db) \<Rightarrow> ('w site, store_error, 'a) io" where
  "on_store f s = (case f (st_db s) of (r, d) \<Rightarrow> (r, s\<lparr>st_db := d\<rparr>))"

definition read_store :: "(db \<Rightarrow> (store_error, 'a) result) \<Rightarrow> ('w site, store_error, 'a) io" where
  "read_store f s = (f (st_db s), s)"

definition on_world :: "('w, 'e, 'a) io \<Rightarrow> ('w site, 'e, 'a) io" where
  "on_world f s = (case f (st_world s) of (r, w) \<Rightarrow> (r, s\<lparr>st_world := w\<rparr>))"

section \<open>Facts\<close>

lemma on_store_iff [io_simps]:
  "on_store f s = (r, s') \<longleftrightarrow> (\<exists>d. f (st_db s) = (r, d) \<and> s' = s\<lparr>st_db := d\<rparr>)"
  by (auto simp: on_store_def split: prod.split)

lemma read_store_iff [io_simps]: "read_store f s = (r, s') \<longleftrightarrow> r = f (st_db s) \<and> s' = s"
  by (auto simp: read_store_def)

lemma on_world_iff [io_simps]:
  "on_world f s = (r, s') \<longleftrightarrow> (\<exists>w. f (st_world s) = (r, w) \<and> s' = s\<lparr>st_world := w\<rparr>)"
  by (auto simp: on_world_def split: prod.split)

lemma on_store_keeps:
  assumes "\<And>s. R s (s\<lparr>st_db := snd (f (st_db s))\<rparr>)"
  shows "io_keeps R (on_store f)"
  using assms by (auto simp: io_keeps_def on_store_def split: prod.split) (metis snd_conv)

lemma read_store_keeps: "reflp R \<Longrightarrow> io_keeps R (read_store f)"
  by (simp add: io_keeps_def read_store_def reflp_def)

lemma on_world_keeps:
  assumes "\<And>s. R s (s\<lparr>st_world := snd (f (st_world s))\<rparr>)"
  shows "io_keeps R (on_world f)"
  using assms by (auto simp: io_keeps_def on_world_def split: prod.split) (metis snd_conv)

end
