(* ===== verification/Lifecycle_Manager.thy ===== *)
theory Lifecycle_Manager
  imports Hypervisor_Xml Bentod_Netstate Store_Images Bento_Site
begin

text \<open>
  The lifecycle manager, \<open>crates/lifecycle/src/manager.rs\<close> and \<open>lib.rs\<close>, with the store
  adapter of \<open>bentod/src/adapters.rs\<close> it runs on.

  It runs on a \<open>site\<close>.  \<open>manager\<close> is the struct \<open>Manager\<close>; its trait objects
  are fields that hold operations.  The local hypervisor, the disk tools and the clock
  act on \<open>'w\<close> only.  \<open>fleet\<close> is the trait \<open>Fleet\<close>, whose calls may also read and write the
  database.  The trait \<open>Store\<close> has one implementation outside tests, \<open>LifecycleStore\<close>,
  and it is used directly.

  An error keeps its variant and its cause.  Of a message only the label of the
  operation is kept.  Log lines are not modelled.
\<close>

section \<open>The local hypervisor\<close>

definition lift_hypervisor :: "'w hypervisor \<Rightarrow> 'w site hypervisor" where
  "lift_hypervisor h =
    \<lparr>hv_create = (\<lambda>xml. on_world (hv_create h xml)), hv_start = (\<lambda>n. on_world (hv_start h n)),
     hv_stop = (\<lambda>n. on_world (hv_stop h n)), hv_reboot = (\<lambda>n. on_world (hv_reboot h n)),
     hv_remove = (\<lambda>n. on_world (hv_remove h n)), hv_list = on_world (hv_list h),
     hv_state = (\<lambda>n. on_world (hv_state h n))\<rparr>"

section \<open>Errors\<close>

datatype lc_error =
    LcConfig string
  | NestedUnavailable string
  | DiskShrink string nat nat
  | NoImageVersion string
  | FleetImageNotReady string "string list"
  | NoSlotForHost int
  | CopySourceRunning string state
  | CopyAcrossMachines string int int
  | RenameNeedsStop string state
  | LcOperation string "dyn_error list"
  | LcCaused dyn_error
and dyn_error =
    StoreCause store_error
  | HypCause hyp_error
  | NetCause net_error
  | LcCause lc_error
  | Unavailable string
  | OtherCause string

section \<open>The interfaces of the manager\<close>

record seed =
  sd_instance_id :: string
  sd_hostname :: string
  sd_user_name :: string
  sd_authorized_keys :: "string list"
  sd_mac :: string
  sd_address_cidr :: string
  sd_gateway :: string
  sd_dns :: string
  sd_install_guest_agent :: bool

record provision_spec =
  ps_host_id :: int
  ps_instance :: vm_instance
  ps_network :: string
  ps_seed :: seed
  ps_with_seed_iso :: bool
  ps_start :: bool

record redefine_spec =
  rs_host_id :: int
  rs_instance :: vm_instance
  rs_network :: string
  rs_previous_name :: "string option"

record 'w fleet =
  fl_provision :: "provision_spec \<Rightarrow> ('w site, dyn_error, state) io"
  fl_deprovision :: "int \<Rightarrow> vm_instance \<Rightarrow> ('w site, dyn_error, unit) io"
  fl_hypervisor :: "int \<Rightarrow> 'w site \<Rightarrow> 'w site hypervisor option"
  fl_redefine :: "redefine_spec \<Rightarrow> ('w site, dyn_error, state) io"
  fl_resize_disk :: "int \<Rightarrow> vm_instance \<Rightarrow> nat \<Rightarrow> ('w site, dyn_error, unit) io"

record 'w manager =
  m_hyp :: "'w hypervisor"
  m_definer :: "(string \<Rightarrow> ('w, hyp_error, unit) io) option"
  m_autostart_clearer :: "(string \<Rightarrow> ('w, hyp_error, unit) io) option"
  m_host_id :: int
  m_local_capacity :: capacity
  m_overcommit :: "nat \<Rightarrow> nat"
  m_ratio :: "nat \<Rightarrow> nat \<Rightarrow> nat"
  m_format_time :: "time \<Rightarrow> string"
  m_sha256 :: "string \<Rightarrow> byte list"
  m_arch :: string
  m_fleet :: "'w fleet"
  m_iso_build :: "seed \<Rightarrow> string \<Rightarrow> ('w, string, unit) io"
  m_resize_overlay :: "string \<Rightarrow> nat \<Rightarrow> ('w, string, unit) io"
  m_copy_file :: "string \<Rightarrow> string \<Rightarrow> ('w, string, unit) io"
  m_remove_file :: "string \<Rightarrow> ('w, string, unit) io"
  m_delete_iso :: "string \<Rightarrow> ('w, string, unit) io"
  m_iso_exists :: "string \<Rightarrow> 'w \<Rightarrow> bool"
  m_nested :: "'w \<Rightarrow> bool \<times> string"
  m_sleep :: "duration \<Rightarrow> 'w \<Rightarrow> 'w"
  m_new_uuid :: "'w \<Rightarrow> string \<times> 'w"
  m_now :: "'w \<Rightarrow> time \<times> 'w"
  m_plan :: plan
  m_storage_dir :: string
  m_cooldown :: duration
  m_batch_size :: nat
  m_dns :: "string list"
  m_poll_every :: duration
  m_start_poll :: duration
  m_start_wait :: duration

text \<open>The checks of \<open>Manager::new\<close>.\<close>

definition manager_new :: "'w manager \<Rightarrow> (lc_error, 'w manager) result" where
  "manager_new config =
    (if m_storage_dir config = [] then Inl (LcConfig ''a StorageDir'')
     else if m_batch_size config = 0 then Inl (LcConfig ''a batch size of at least 1'')
     else if m_dns config = [] then Inl (LcConfig ''at least one DNS resolver'')
     else if m_poll_every config = 0 \<or> m_start_poll config = 0 \<or> m_start_wait config = 0
     then Inl (LcConfig ''poll and start intervals above zero'')
     else Inr config)"

section \<open>Reading the clock\<close>

definition at_now :: "'w manager \<Rightarrow> (time \<Rightarrow> ('w site, 'e, 'a) io) \<Rightarrow> ('w site, 'e, 'a) io" where
  "at_now m f s = (case m_now m (st_world s) of (t, w) \<Rightarrow> f t (s\<lparr>st_world := w\<rparr>))"

definition with_uuid :: "'w manager \<Rightarrow> (string \<Rightarrow> ('w site, 'e, 'a) io) \<Rightarrow> ('w site, 'e, 'a) io" where
  "with_uuid m f s = (case m_new_uuid m (st_world s) of (u, w) \<Rightarrow> f u (s\<lparr>st_world := w\<rparr>))"

section \<open>The store of the manager\<close>

definition ls_create_instance :: "'w manager \<Rightarrow> vm_instance \<Rightarrow> capacity \<Rightarrow> ('w site, store_error, unit) io" where
  "ls_create_instance m i cap = at_now m (\<lambda>now. at_now m (\<lambda>now'.
    on_store (create_instance i (m_cooldown m) cap now now')))"

definition ls_delete_instance :: "'w manager \<Rightarrow> string \<Rightarrow> ('w site, store_error, vm_instance) io" where
  "ls_delete_instance m uuid = at_now m (\<lambda>now. on_store (delete_instance uuid now))"

definition ls_rename_instance :: "'w manager \<Rightarrow> string \<Rightarrow> string \<Rightarrow> ('w site, store_error, unit) io" where
  "ls_rename_instance m uuid new_name = at_now m (\<lambda>now. at_now m (\<lambda>now'.
    on_store (rename_instance uuid new_name (m_cooldown m) now now')))"

text \<open>The ceiling of this machine was read at startup, that of another is what it last
  reported.\<close>

definition host_capacity :: "'w manager \<Rightarrow> int \<Rightarrow> db \<Rightarrow> (dyn_error, capacity) result" where
  "host_capacity m host_id d =
    (if host_id = m_host_id m then Inr (m_local_capacity m)
     else
       case host_observation host_id d of
         Inl e \<Rightarrow> Inl (StoreCause e)
       | Inr None \<Rightarrow> Inl (Unavailable ''has not reported its capacity yet'')
       | Inr (Some seen) \<Rightarrow>
           (case (Option.bind (o_memory_total_mib seen) (\<lambda>f. if f > 0 then Some f else None),
                  Option.bind (o_storage_total_gib seen) (\<lambda>f. if f > 0 then Some f else None)) of
              (Some memory_mib, Some disk_gib) \<Rightarrow> Inr (limited (m_overcommit m memory_mib) disk_gib)
            | _ \<Rightarrow> Inl (Unavailable ''reported no memory or storage figure'')))"

definition placeable_hosts :: "db \<Rightarrow> nat" where
  "placeable_hosts d = length (filter (\<lambda>h. h_enabled h \<and> h_placement h = PActive) (hosts d))"

section \<open>Helpers of the manager\<close>

definition overlay_path :: "'w manager \<Rightarrow> string \<Rightarrow> string" where
  "overlay_path m uuid = path_join (m_storage_dir m) (uuid @ ''.qcow2'')"

definition seed_iso_path :: "'w manager \<Rightarrow> string \<Rightarrow> string" where
  "seed_iso_path m uuid = path_join (m_storage_dir m) (uuid @ ''-seed.iso'')"

definition hyp_for :: "'w manager \<Rightarrow> vm_instance \<Rightarrow> ('w site, lc_error, 'w site hypervisor) io" where
  "hyp_for m i s =
    (if i_host_id i = m_host_id m then (Inr (lift_hypervisor (m_hyp m)), s)
     else (ok_or (LcOperation ''runs on another machine that cannot be reached'' [])
             (fl_hypervisor (m_fleet m) (i_host_id i) s), s))"

definition check_nested :: "'w manager \<Rightarrow> ('w site, lc_error, unit) io" where
  "check_nested m s =
    (case m_nested m (st_world s) of
       (enabled, detail) \<Rightarrow>
         (if enabled then Inr ()
          else Inl (NestedUnavailable
            (''load the KVM module with kvm_intel.nested=1 (Intel) or kvm_amd.nested=1 (AMD)'' @
             (if detail = [] then [] else '': '' @ detail))), s))"

definition user_network_new :: "plan \<Rightarrow> int \<Rightarrow> (net_error, user_network) result" where
  "user_network_new pl index =
    and_then (plan_subnet pl index) (\<lambda>subnet.
      Inr \<lparr>un_name = ''bento-user-'' @ show_int index, un_bridge = ''bento'' @ show_int index,
           un_subnet = subnet\<rparr>)"

definition user_network_name :: "'w manager \<Rightarrow> user \<Rightarrow> (lc_error, string) result" where
  "user_network_name m owner =
    (case parse_prefix (u_subnet owner) of
       None \<Rightarrow> Inl (LcOperation ''bad subnet'' [])
     | Some subnet \<Rightarrow>
         (case plan_index (m_plan m) subnet of
            Inl e \<Rightarrow> Inl (LcOperation ''subnet outside the private range'' [NetCause e])
          | Inr index \<Rightarrow>
              (case user_network_new (m_plan m) (int index) of
                 Inl e \<Rightarrow> Inl (LcCaused (NetCause e))
               | Inr network \<Rightarrow> Inr (un_name network))))"

definition manager_domain_xml :: "'w manager \<Rightarrow> vm_instance \<Rightarrow> user \<Rightarrow> bool \<Rightarrow> (lc_error, string) result" where
  "manager_domain_xml m i owner with_iso =
    and_then (user_network_name m owner) (\<lambda>network.
      case domain_xml (m_arch m)
          \<lparr>sp_name = i_name i, sp_uuid = i_uuid i, sp_vcpu = i_vcpu i, sp_memory_mib = i_memory_mib i,
           sp_disk_path = overlay_path m (i_uuid i),
           sp_iso_path = (if with_iso then seed_iso_path m (i_uuid i) else []),
           sp_network = network, sp_mac = i_mac i, sp_nested = i_nested i, sp_ksm = i_ksm i, sp_arch = []\<rparr> of
        Inl e \<Rightarrow> Inl (LcCaused (HypCause e))
      | Inr xml \<Rightarrow> Inr xml)"

definition domain_xml_by_uuid :: "'w manager \<Rightarrow> vm_instance \<Rightarrow> bool \<Rightarrow> ('w site, lc_error, string) io" where
  "domain_xml_by_uuid m i with_iso =
    io_then (io_err (\<lambda>e. LcOperation ''owner'' [StoreCause e]) (read_store (user_by_id (i_owner_id i)))) (\<lambda>owner.
      io_of (manager_domain_xml m i owner with_iso))"

text \<open>The slots of a machine in ascending order, and the first of them with a free address.\<close>

definition used_addresses :: "(time \<Rightarrow> string) \<Rightarrow> db \<Rightarrow> ipv4_prefix \<Rightarrow> ipv4_addr list" where
  "used_addresses format_time d subnet =
    filter (contains subnet) (List.map_filter (\<lambda>i. parse_ipv4 (i_address i)) (instances format_time d))"

fun first_free :: "(ipv4_prefix \<Rightarrow> ipv4_addr list) \<Rightarrow> ipv4_prefix \<Rightarrow> slots \<Rightarrow> nat list \<Rightarrow>
    (lc_error, ipv4_addr \<times> nat) result" where
  "first_free used subnet sl [] = Inl (LcCaused (NetCause AddressesExhausted))"
| "first_free used subnet sl (slot # rest) =
    (if slot > u32_max then Inl (LcCaused (OtherCause ''out of range integral type conversion attempted''))
     else case allocate_address (\<lambda>p. Inr (used p)) subnet sl slot of
       Inr address \<Rightarrow> Inr (address, slot)
     | Inl AddressesExhausted \<Rightarrow> first_free used subnet sl rest
     | Inl e \<Rightarrow> Inl (LcCaused (NetCause e)))"

definition owned_slots :: "int \<Rightarrow> db \<Rightarrow> nat list" where
  "owned_slots host_id d =
    sort (map s_slot (filter (\<lambda>s. s_owner_host_id s = host_id \<and> s_state s = SActive) (slots_of d)))"

definition allocate_in_owned_slot ::
  "(time \<Rightarrow> string) \<Rightarrow> int \<Rightarrow> ipv4_prefix \<Rightarrow> db \<Rightarrow> (lc_error, ipv4_addr \<times> nat) result" where
  "allocate_in_owned_slot format_time host_id subnet d =
    (case deployment_of d of
       Inl e \<Rightarrow> Inl (LcCaused (StoreCause e))
     | Inr deployment \<Rightarrow>
         (case slots_new (d_runner_prefix deployment) of
            Inl e \<Rightarrow> Inl (LcCaused (NetCause e))
          | Inr sl \<Rightarrow>
              (let owned = owned_slots host_id d in
               if owned = [] then Inl (NoSlotForHost host_id)
               else first_free (used_addresses format_time d) subnet sl owned)))"

end
