(* ===== verification/Lifecycle_Ops.thy ===== *)
theory Lifecycle_Ops
  imports Lifecycle_Manager
begin

text \<open>
  Creating, copying, renaming, resizing and removing an instance:
  \<open>crates/lifecycle/src/new.rs\<close>, \<open>copy.rs\<close>, \<open>rename.rs\<close> and \<open>actions.rs\<close>.

  Each operation is the method of \<open>Manager\<close> with its steps in order and its unwinding.
\<close>

section \<open>Creating\<close>

definition GUEST_USER :: string where "GUEST_USER = ''bento''"

record new_request =
  nr_name :: string
  nr_owner :: user
  nr_host_id :: int
  nr_ssh_keys :: "string list"
  nr_image_name :: string
  nr_vcpu :: nat
  nr_memory_mib :: nat
  nr_disk_gib :: nat
  nr_nested :: bool
  nr_disable_ksm :: bool
  nr_http_port :: nat

text \<open>\<open>guest.dns[0]\<close>: the list is the manager's, which \<open>Manager::new\<close> refuses when empty.\<close>

definition first_dns :: "string guest_network \<Rightarrow> string" where
  "first_dns guest = (case gn_dns guest of [] \<Rightarrow> [] | d # _ \<Rightarrow> d)"

definition seed_of :: "vm_instance \<Rightarrow> new_request \<Rightarrow> string guest_network \<Rightarrow> bool \<Rightarrow> seed" where
  "seed_of i request guest install_guest_agent =
    \<lparr>sd_instance_id = i_uuid i, sd_hostname = nr_name request, sd_user_name = GUEST_USER,
     sd_authorized_keys = nr_ssh_keys request, sd_mac = i_mac i,
     sd_address_cidr = format_prefix (gn_address guest),
     sd_gateway = show_ipv4 (gn_gateway guest), sd_dns = first_dns guest,
     sd_install_guest_agent = install_guest_agent\<rparr>"

definition place :: "'w manager \<Rightarrow> new_request \<Rightarrow> ('w site, lc_error, int) io" where
  "place m request s =
    (if placeable_hosts (st_db s) \<le> 1 then (Inr (nr_host_id request), s)
     else
       io_then (io_err (\<lambda>e. LcCaused (StoreCause e)) (on_store (choose_host (m_overcommit m) (m_ratio m)
           \<lparr>pl_vcpu = nr_vcpu request, pl_memory_mib = nr_memory_mib request, pl_disk_gib = nr_disk_gib request,
            pl_arch = Some (m_arch m)\<rparr>)))
         (\<lambda>host. io_ok (h_id host)) s)"

text \<open>Undoing a create.  The row is deleted; a failure to do so is added to the message.\<close>

definition unwind_new :: "'w manager \<Rightarrow> vm_instance \<Rightarrow> dyn_error \<Rightarrow> ('w site, lc_error, 'a) io" where
  "unwind_new m i cause =
    io_match (ls_delete_instance m (i_uuid i))
      (\<lambda>_. io_fail (LcOperation ''new'' [cause]))
      (\<lambda>e. io_fail (LcOperation ''new'' [cause, StoreCause e]))"

text \<open>The row of a new instance, in \<open>create\<close> and in \<open>copy\<close>.\<close>

definition new_row ::
  "'w manager \<Rightarrow> new_request \<Rightarrow> string \<Rightarrow> int \<Rightarrow> string \<Rightarrow> string \<Rightarrow> ipv4_addr \<Rightarrow> nat \<Rightarrow> time \<Rightarrow> vm_instance" where
  "new_row m request uuid host_id image_name checksum address slot now =
    \<lparr>i_uuid = uuid, i_name = nr_name request, i_owner_id = u_id (nr_owner request), i_host_id = host_id,
     i_image_name = image_name, i_base_checksum = checksum, i_state = Stopped, i_desired_state = DRunning,
     i_address = show_ipv4 address, i_mac = mac (m_sha256 m) uuid, i_vcpu = nr_vcpu request,
     i_memory_mib = nr_memory_mib request, i_disk_gib = nr_disk_gib request, i_nested = nr_nested request,
     i_ksm = (\<not> nr_disable_ksm request), i_http_port = nr_http_port request, i_visibility = Off,
     i_created_at = now, i_last_seen_at = None, i_slot = Some slot\<rparr>"

text \<open>From the image to the ceiling: everything \<open>create\<close> reads before it writes.\<close>

definition resolve_image :: "new_request \<Rightarrow> db \<Rightarrow> (lc_error, string \<times> image_version) result" where
  "resolve_image request d =
    (case image_of (nr_image_name request) d of
       Inl e \<Rightarrow> Inl (LcOperation ''image'' [StoreCause e])
     | Inr img \<Rightarrow>
         (case Option.bind (im_current_checksum img) (\<lambda>c. if c = [] then None else Some c) of
            None \<Rightarrow> Inl (NoImageVersion (nr_image_name request))
          | Some checksum \<Rightarrow>
              (let missing = hosts_missing_image (nr_image_name request) checksum d in
               if missing \<noteq> [] then Inl (FleetImageNotReady (nr_image_name request) missing)
               else case image_version_of checksum d of
                 Inl e \<Rightarrow> Inl (LcOperation ''image version'' [StoreCause e])
               | Inr version \<Rightarrow> Inr (checksum, version))))"

definition check_request :: "'w manager \<Rightarrow> new_request \<Rightarrow> ('w site, lc_error, unit) io" where
  "check_request m request =
    (if nr_name request = [] then io_fail (LcOperation ''new needs a name'' [])
     else if nr_image_name request = [] then io_fail (LcOperation ''new needs an image'' [])
     else if nr_vcpu request = 0 \<or> nr_memory_mib request = 0 \<or> nr_disk_gib request = 0
     then io_fail (LcOperation ''new needs positive vcpu, memory, and disk'' [])
     else if nr_nested request then check_nested m
     else io_ok ())"

text \<open>From the row to the running guest: everything \<open>create\<close> does once the row exists.\<close>

definition build_new ::
  "'w manager \<Rightarrow> new_request \<Rightarrow> ipv4_prefix \<Rightarrow> ipv4_addr \<Rightarrow> image_version \<Rightarrow> vm_instance \<Rightarrow>
    ('w site, lc_error, vm_instance) io" where
  "build_new m request subnet address version i =
    (case guest_network_new (m_dns m) subnet address (Some (m_dns m)) of
       Inl e \<Rightarrow> unwind_new m i (NetCause e)
     | Inr guest \<Rightarrow>
         (case user_network_name m (nr_owner request) of
            Inl e \<Rightarrow> unwind_new m i (LcCause e)
          | Inr network \<Rightarrow>
              io_match (fl_provision (m_fleet m)
                  \<lparr>ps_host_id = i_host_id i, ps_instance = i, ps_network = network,
                   ps_seed = seed_of i request guest (iv_kind version \<noteq> Oci),
                   ps_with_seed_iso = True, ps_start = True\<rparr>)
                (\<lambda>observed s.
                   (Inr (i\<lparr>i_state := observed\<rparr>),
                    io_forget (on_store (set_observed_state (i_uuid i) observed)) s))
                (\<lambda>e. unwind_new m i e)))"

text \<open>Everything before the row: the checks, the image, the machine, the address, the row to
  insert and the ceiling it must fit under.\<close>

record planned =
  pn_row :: vm_instance
  pn_capacity :: capacity
  pn_subnet :: ipv4_prefix
  pn_address :: ipv4_addr
  pn_version :: image_version

definition plan_new :: "'w manager \<Rightarrow> new_request \<Rightarrow> ('w site, lc_error, planned) io" where
  "plan_new m request =
    io_then (check_request m request) (\<lambda>_.
    io_then (\<lambda>s. (resolve_image request (st_db s), s)) (\<lambda>(checksum, version).
    io_then (io_of (ok_or (LcOperation ''bad subnet'' []) (parse_prefix (u_subnet (nr_owner request))))) (\<lambda>subnet.
    io_then (place m request) (\<lambda>host_id.
    io_then (\<lambda>s. (allocate_in_owned_slot (m_format_time m) host_id subnet (st_db s), s)) (\<lambda>(address, slot).
    with_uuid m (\<lambda>uuid.
    at_now m (\<lambda>now.
    io_then (\<lambda>s. (case host_capacity m host_id (st_db s) of
                    Inl e \<Rightarrow> (Inl (LcCaused e), s) | Inr cap \<Rightarrow> (Inr cap, s))) (\<lambda>cap.
      io_ok \<lparr>pn_row = new_row m request uuid host_id (nr_image_name request) checksum address slot now,
             pn_capacity = cap, pn_subnet = subnet, pn_address = address, pn_version = version\<rparr>))))))))"

definition create :: "'w manager \<Rightarrow> new_request \<Rightarrow> ('w site, lc_error, vm_instance) io" where
  "create m request =
    io_then (plan_new m request) (\<lambda>p.
    io_then (io_err (\<lambda>e. LcCaused (StoreCause e)) (ls_create_instance m (pn_row p) (pn_capacity p))) (\<lambda>_.
      build_new m request (pn_subnet p) (pn_address p) (pn_version p) (pn_row p)))"

section \<open>Copying\<close>

text \<open>Undoing a copy: the seed image, the overlay, the row, each attempted.\<close>

definition unwind_copy :: "'w manager \<Rightarrow> vm_instance \<Rightarrow> dyn_error \<Rightarrow> ('w site, lc_error, 'a) io" where
  "unwind_copy m i cause s =
    (let step = (\<lambda>f errors. \<lambda>s. case f s of
        (Inl e, s1) \<Rightarrow> (errors @ [e], s1) | (Inr _, s1) \<Rightarrow> (errors, s1));
         (e1, s1) = step (io_err OtherCause (on_world (m_delete_iso m (seed_iso_path m (i_uuid i))))) [cause] s;
         (e2, s2) = step (io_err OtherCause (on_world (m_remove_file m (overlay_path m (i_uuid i))))) e1 s1;
         (e3, s3) = step (io_then (io_err StoreCause (ls_delete_instance m (i_uuid i))) (\<lambda>_. io_ok ())) e2 s2
     in (Inl (LcOperation ''cp'' e3), s3))"

definition check_copy :: "'w manager \<Rightarrow> vm_instance \<Rightarrow> new_request \<Rightarrow> ('w site, lc_error, unit) io" where
  "check_copy m source request =
    (if nr_name request = [] then io_fail (LcOperation ''cp needs a target name'' [])
     else if nr_vcpu request = 0 \<or> nr_memory_mib request = 0 \<or> nr_disk_gib request = 0
     then io_fail (LcOperation ''cp needs positive vcpu, memory, and disk'' [])
     else if nr_disk_gib request < i_disk_gib source
     then io_fail (DiskShrink (i_name source) (i_disk_gib source) (nr_disk_gib request))
     else
       io_then (if nr_nested request then check_nested m else io_ok ()) (\<lambda>_.
         if i_host_id source \<noteq> m_host_id m \<or> nr_host_id request \<noteq> i_host_id source
         then io_fail (CopyAcrossMachines (i_name source) (i_host_id source) (nr_host_id request))
         else
           io_match (on_world (hv_state (m_hyp m) (i_name source)))
             (\<lambda>st. if st = Stopped then io_ok () else io_fail (CopySourceRunning (i_name source) st))
             (\<lambda>e. case e of DomainNotFound _ \<Rightarrow> io_ok () | _ \<Rightarrow> io_fail (LcOperation ''cp'' [HypCause e]))))"

text \<open>The steps of a copy after its row exists.\<close>

definition build_copy ::
  "'w manager \<Rightarrow> new_request \<Rightarrow> ipv4_prefix \<Rightarrow> ipv4_addr \<Rightarrow> vm_instance \<Rightarrow> image_version \<Rightarrow> vm_instance \<Rightarrow>
    ('w site, lc_error, vm_instance) io" where
  "build_copy m request subnet address source version i =
    io_match (on_world (m_copy_file m (overlay_path m (i_uuid source)) (overlay_path m (i_uuid i))))
      (\<lambda>_.
    io_match (if nr_disk_gib request > i_disk_gib source
              then on_world (m_resize_overlay m (overlay_path m (i_uuid i)) (nr_disk_gib request)) else io_ok ())
      (\<lambda>_.
    case guest_network_new (m_dns m) subnet address (Some (m_dns m)) of
      Inl e \<Rightarrow> unwind_copy m i (NetCause e)
    | Inr guest \<Rightarrow>
    io_match (on_world (m_iso_build m (seed_of i request guest (iv_kind version \<noteq> Oci)) (seed_iso_path m (i_uuid i))))
      (\<lambda>_.
    case manager_domain_xml m i (nr_owner request) True of
      Inl e \<Rightarrow> unwind_copy m i (LcCause e)
    | Inr xml \<Rightarrow>
    io_match (on_world (hv_create (m_hyp m) xml))
      (\<lambda>_ s. (Inr (i\<lparr>i_state := Running\<rparr>), io_forget (on_store (set_observed_state (i_uuid i) Running)) s))
      (\<lambda>e. unwind_copy m i (HypCause e)))
      (\<lambda>e. unwind_copy m i (OtherCause e)))
      (\<lambda>e. unwind_copy m i (OtherCause e)))
      (\<lambda>e. unwind_copy m i (OtherCause e))"

definition plan_copy :: "'w manager \<Rightarrow> string \<Rightarrow> new_request \<Rightarrow> ('w site, lc_error, vm_instance \<times> planned) io" where
  "plan_copy m source_uuid request =
    io_then (io_err (\<lambda>e. LcCaused (StoreCause e)) (read_store (instance_of source_uuid))) (\<lambda>source.
    io_then (io_err (\<lambda>e. LcCaused (StoreCause e)) (read_store (image_version_of (i_base_checksum source)))) (\<lambda>version.
    io_then (check_copy m source request) (\<lambda>_.
    io_then (io_of (ok_or (LcOperation ''bad subnet'' []) (parse_prefix (u_subnet (nr_owner request))))) (\<lambda>subnet.
    io_then (\<lambda>s. (allocate_in_owned_slot (m_format_time m) (nr_host_id request) subnet (st_db s), s)) (\<lambda>(address, slot).
    io_then (\<lambda>s. (case host_capacity m (nr_host_id request) (st_db s) of
                    Inl e \<Rightarrow> (Inl (LcCaused e), s) | Inr cap \<Rightarrow> (Inr cap, s))) (\<lambda>cap.
    with_uuid m (\<lambda>uuid.
    at_now m (\<lambda>now.
      io_ok (source, \<lparr>pn_row = new_row m request uuid (nr_host_id request) (i_image_name source)
                       (i_base_checksum source) address slot now,
             pn_capacity = cap, pn_subnet = subnet, pn_address = address, pn_version = version\<rparr>)))))))))"

definition copy :: "'w manager \<Rightarrow> string \<Rightarrow> new_request \<Rightarrow> ('w site, lc_error, vm_instance) io" where
  "copy m source_uuid request =
    io_then (plan_copy m source_uuid request) (\<lambda>(source, p).
    io_then (io_err (\<lambda>e. LcCaused (StoreCause e)) (ls_create_instance m (pn_row p) (pn_capacity p))) (\<lambda>_.
      build_copy m request (pn_subnet p) (pn_address p) source (pn_version p) (pn_row p)))"

section \<open>Redefining\<close>

definition redefine_elsewhere ::
  "'w manager \<Rightarrow> vm_instance \<Rightarrow> string option \<Rightarrow> ('w site, lc_error, state) io" where
  "redefine_elsewhere m i previous_name =
    io_then (io_err (\<lambda>e. LcOperation ''owner'' [StoreCause e]) (read_store (user_by_id (i_owner_id i)))) (\<lambda>owner.
    io_then (io_of (user_network_name m owner)) (\<lambda>network.
      io_err (\<lambda>e. LcOperation ''redefine'' [e])
        (fl_redefine (m_fleet m) \<lparr>rs_host_id = i_host_id i, rs_instance = i, rs_network = network,
                                  rs_previous_name = previous_name\<rparr>)))"

definition redefine :: "'w manager \<Rightarrow> vm_instance \<Rightarrow> ('w site, lc_error, unit) io" where
  "redefine m i =
    (if i_host_id i \<noteq> m_host_id m then io_then (redefine_elsewhere m i None) (\<lambda>_. io_ok ())
     else case m_definer m of
       None \<Rightarrow> io_ok ()
     | Some define \<Rightarrow> (\<lambda>s.
         io_then (domain_xml_by_uuid m i (m_iso_exists m (seed_iso_path m (i_uuid i)) (st_world s))) (\<lambda>xml.
           io_err (\<lambda>e. LcOperation ''redefine'' [HypCause e]) (on_world (define xml))) s))"

section \<open>Renaming\<close>

definition unwind_rename :: "'w manager \<Rightarrow> vm_instance \<Rightarrow> string \<Rightarrow> lc_error \<Rightarrow> ('w site, lc_error, 'a) io" where
  "unwind_rename m i old_name cause s =
    (Inl (LcOperation ''rename'' [LcCause cause]), io_forget (ls_rename_instance m (i_uuid i) old_name) s)"

definition rename_elsewhere ::
  "'w manager \<Rightarrow> vm_instance \<Rightarrow> string \<Rightarrow> string \<Rightarrow> bool \<Rightarrow> ('w site, lc_error, unit) io" where
  "rename_elsewhere m i old_name new_name domain_gone =
    io_then (io_err (\<lambda>e. LcCaused (StoreCause e)) (ls_rename_instance m (i_uuid i) new_name)) (\<lambda>_.
      if domain_gone then io_ok ()
      else
        let i' = i\<lparr>i_name := new_name\<rparr> in
        io_match (redefine_elsewhere m i' (Some old_name)) (\<lambda>_. io_ok ()) (unwind_rename m i' old_name))"

definition rename_here ::
  "'w manager \<Rightarrow> vm_instance \<Rightarrow> string \<Rightarrow> string \<Rightarrow> (string \<Rightarrow> ('w, hyp_error, unit) io) option \<Rightarrow>
    ('w site, lc_error, unit) io" where
  "rename_here m i old_name new_name definer =
    io_then (io_err (\<lambda>e. LcCaused (StoreCause e)) (ls_rename_instance m (i_uuid i) new_name)) (\<lambda>_.
      case definer of
        None \<Rightarrow> io_ok ()
      | Some define \<Rightarrow> (\<lambda>s.
          let i' = i\<lparr>i_name := new_name\<rparr>;
              with_iso = m_iso_exists m (seed_iso_path m (i_uuid i)) (st_world s) in
          io_match (domain_xml_by_uuid m i' with_iso)
            (\<lambda>xml.
               let then_define =
                 io_match (on_world (define xml)) io_ok
                   (\<lambda>e s. let s1 = (case domain_xml_by_uuid m (i'\<lparr>i_name := old_name\<rparr>) with_iso s of
                              (Inr old_xml, s1) \<Rightarrow> io_forget (on_world (define old_xml)) s1
                            | (Inl _, s1) \<Rightarrow> s1) in
                      unwind_rename m i' old_name (LcOperation ''define'' [HypCause e]) s1) in
               io_match (on_world (hv_remove (m_hyp m) old_name))
                 (\<lambda>_. then_define)
                 (\<lambda>e. case e of
                    DomainNotFound _ \<Rightarrow> then_define
                  | _ \<Rightarrow> unwind_rename m i' old_name (LcOperation ''undefine'' [HypCause e])))
            (unwind_rename m i' old_name) s))"

definition rename :: "'w manager \<Rightarrow> string \<Rightarrow> string \<Rightarrow> ('w site, lc_error, unit) io" where
  "rename m uuid new_name =
    io_then (io_err (\<lambda>e. LcCaused (StoreCause e)) (read_store (instance_of uuid))) (\<lambda>i.
      if new_name = i_name i then io_ok ()
      else
        io_then (hyp_for m i) (\<lambda>hyp.
        io_then (io_match (hv_state hyp (i_name i))
            (\<lambda>st. if st = Stopped then io_ok False else io_fail (RenameNeedsStop (i_name i) st))
            (\<lambda>e. case e of DomainNotFound _ \<Rightarrow> io_ok True | _ \<Rightarrow> io_fail (LcOperation ''rename'' [HypCause e])))
          (\<lambda>domain_gone.
          if i_host_id i \<noteq> m_host_id m then rename_elsewhere m i (i_name i) new_name domain_gone
          else if domain_gone then rename_here m i (i_name i) new_name None
          else case m_definer m of
            None \<Rightarrow> io_fail (LcOperation ''rename: hypervisor cannot redefine domains'' [])
          | Some define \<Rightarrow> rename_here m i (i_name i) new_name (Some define))))"

section \<open>Starting, stopping, removing\<close>

definition start_domain :: "'w manager \<Rightarrow> vm_instance \<Rightarrow> ('w site, lc_error, unit) io" where
  "start_domain m i = io_then (hyp_for m i) (\<lambda>hyp.
    io_err (\<lambda>e. LcOperation ''start'' [HypCause e]) (hv_start hyp (i_name i)))"

definition external :: "store_error \<Rightarrow> lc_error" where
  "external e = LcCaused (StoreCause e)"

definition start :: "'w manager \<Rightarrow> string \<Rightarrow> ('w site, lc_error, unit) io" where
  "start m uuid =
    io_then (io_err external (read_store (instance_of uuid))) (\<lambda>i.
    io_then (start_domain m i) (\<lambda>_.
    io_then (io_err external (on_store (set_desired_state uuid DRunning))) (\<lambda>_.
      io_err external (on_store (set_observed_state uuid Running)))))"

definition start_for_connection :: "'w manager \<Rightarrow> string \<Rightarrow> ('w site, lc_error, unit) io" where
  "start_for_connection m uuid =
    io_then (io_err external (read_store (instance_of uuid))) (start_domain m)"

definition stop :: "'w manager \<Rightarrow> string \<Rightarrow> ('w site, lc_error, stop_result) io" where
  "stop m uuid =
    io_then (io_err external (read_store (instance_of uuid))) (\<lambda>i.
    io_then (io_err external (on_store (set_desired_state uuid DStopped))) (\<lambda>_.
    io_then (hyp_for m i) (\<lambda>hyp.
    io_then (io_err (\<lambda>e. LcOperation ''stop'' [HypCause e]) (hv_stop hyp (i_name i))) (\<lambda>how.
    io_then (io_err external (on_store (set_observed_state uuid Stopped))) (\<lambda>_. io_ok how)))))"

definition restart :: "'w manager \<Rightarrow> string \<Rightarrow> ('w site, lc_error, unit) io" where
  "restart m uuid =
    io_then (io_err external (read_store (instance_of uuid))) (\<lambda>i.
    io_then (hyp_for m i) (\<lambda>hyp.
    io_then (io_err (\<lambda>e. LcOperation ''restart'' [HypCause e]) (hv_reboot hyp (i_name i))) (\<lambda>_.
      io_err external (on_store (set_desired_state uuid DRunning)))))"

definition remove :: "'w manager \<Rightarrow> string \<Rightarrow> ('w site, lc_error, unit) io" where
  "remove m uuid =
    io_then (io_err external (read_store (instance_of uuid))) (\<lambda>i.
    io_then (hyp_for m i) (\<lambda>hyp.
    io_then (io_match (hv_remove hyp (i_name i)) io_ok
        (\<lambda>e. case e of DomainNotFound _ \<Rightarrow> io_ok () | _ \<Rightarrow> io_fail (LcOperation ''rm'' [HypCause e]))) (\<lambda>_ s.
      let s1 = io_forget (fl_deprovision (m_fleet m) (i_host_id i) i) s in
      io_then (io_err (\<lambda>e. LcOperation ''rm'' [StoreCause e]) (ls_delete_instance m uuid)) (\<lambda>_. io_ok ()) s1)))"

section \<open>Resizing\<close>

record resize_request =
  rq_uuid :: string
  rq_vcpu :: nat
  rq_memory_mib :: nat
  rq_disk_gib :: nat
  rq_nested :: bool

record resize_result =
  rr_restart_required :: bool
  rr_disk_grown :: bool

definition grow_disk :: "'w manager \<Rightarrow> vm_instance \<Rightarrow> nat \<Rightarrow> ('w site, lc_error, unit) io" where
  "grow_disk m i disk_gib =
    (if i_host_id i = m_host_id m
     then io_err (\<lambda>e. LcCaused (OtherCause e)) (on_world (m_resize_overlay m (overlay_path m (i_uuid i)) disk_gib))
     else io_err LcCaused (fl_resize_disk (m_fleet m) (i_host_id i) i disk_gib))"

definition resize_instance :: "'w manager \<Rightarrow> resize_request \<Rightarrow> ('w site, lc_error, resize_result) io" where
  "resize_instance m request =
    io_then (io_err external (read_store (instance_of (rq_uuid request)))) (\<lambda>i.
      if rq_vcpu request = 0 \<or> rq_memory_mib request = 0 \<or> rq_disk_gib request = 0
      then io_fail (LcOperation ''resize needs positive vcpu, memory, and disk'' [])
      else if rq_disk_gib request < i_disk_gib i
      then io_fail (DiskShrink (i_name i) (i_disk_gib i) (rq_disk_gib request))
      else
        io_then (if rq_nested request \<and> \<not> i_nested i then check_nested m else io_ok ()) (\<lambda>_.
        let result = \<lparr>rr_restart_required = (rq_vcpu request \<noteq> i_vcpu i \<or> rq_memory_mib request \<noteq> i_memory_mib i \<or>
                                             rq_nested request \<noteq> i_nested i),
                      rr_disk_grown = (rq_disk_gib request > i_disk_gib i)\<rparr> in
        io_then (\<lambda>s. (case host_capacity m (i_host_id i) (st_db s) of
                        Inl e \<Rightarrow> (Inl (LcCaused e), s) | Inr cap \<Rightarrow> (Inr cap, s))) (\<lambda>cap.
        io_then (io_err external (on_store (check_resize (rq_uuid request) (rq_memory_mib request)
            (rq_disk_gib request) cap))) (\<lambda>_.
        io_then (if rr_disk_grown result then grow_disk m i (rq_disk_gib request) else io_ok ()) (\<lambda>_.
        io_then (io_err external (on_store (resize (rq_uuid request) (rq_vcpu request) (rq_memory_mib request)
            (rq_disk_gib request) (rq_nested request) cap))) (\<lambda>_.
        io_then (if rr_restart_required result
                 then redefine m (i\<lparr>i_vcpu := rq_vcpu request, i_memory_mib := rq_memory_mib request,
                                    i_disk_gib := rq_disk_gib request, i_nested := rq_nested request\<rparr>)
                 else io_ok ()) (\<lambda>_. io_ok result)))))))"

end
