(* ===== verification/Lifecycle_Watch.thy ===== *)
theory Lifecycle_Watch
  imports Lifecycle_Ops
begin

text \<open>
  Watching the guests: \<open>crates/lifecycle/src/restore.rs\<close>, \<open>reconcile.rs\<close> and \<open>poller.rs\<close>.

  A \<open>HashMap\<close> of states is the list of the pairs it is collected from: the last pair of a
  key wins in both, because the update statement runs once per pair.
\<close>

section \<open>Restoring after a reboot\<close>

text \<open>\<open>slice::chunks\<close>.\<close>

function chunks :: "nat \<Rightarrow> 'a list \<Rightarrow> 'a list list" where
  "chunks n xs = (if n = 0 \<or> xs = [] then [] else take n xs # chunks n (drop n xs))"
  by pat_completeness auto

termination
  by (relation "measure (\<lambda>(n, xs). length xs)") auto

declare chunks.simps [simp del]

definition wait_attempts :: "'w manager \<Rightarrow> nat" where
  "wait_attempts m = max 1 (nat (m_start_wait m div m_start_poll m) mod 2 ^ 64)"

fun wait_loop :: "'w manager \<Rightarrow> string \<Rightarrow> nat \<Rightarrow> ('w, lc_error, unit) io" where
  "wait_loop m name 0 w = (Inl (LcOperation ''not running'' []), w)"
| "wait_loop m name (Suc left) w =
    (case hv_state (m_hyp m) name w of
       (Inl e, w1) \<Rightarrow> (Inl (LcCaused (HypCause e)), w1)
     | (Inr st, w1) \<Rightarrow>
         if st = Running then (Inr (), w1)
         else wait_loop m name left (if left > 0 then m_sleep m (m_start_poll m) w1 else w1))"

definition wait_running :: "'w manager \<Rightarrow> string \<Rightarrow> ('w, lc_error, unit) io" where
  "wait_running m name = wait_loop m name (wait_attempts m)"

definition sync_observed :: "'w manager \<Rightarrow> vm_instance \<Rightarrow> 'w site \<Rightarrow> 'w site" where
  "sync_observed m i s =
    (case on_world (hv_state (m_hyp m) (i_name i)) s of
       (r, s1) \<Rightarrow>
         io_forget (on_store (set_observed_state (i_uuid i) (case r of Inr st \<Rightarrow> st | Inl _ \<Rightarrow> Stopped))) s1)"

text \<open>The first loop of a batch asks every guest to start and collects those that did.\<close>

fun start_batch :: "'w manager \<Rightarrow> vm_instance list \<Rightarrow> 'w site \<Rightarrow> vm_instance list \<times> 'w site" where
  "start_batch m [] s = ([], s)"
| "start_batch m (i # rest) s =
    (let s1 = io_forget (on_store (set_observed_state (i_uuid i) Starting)) s in
     case on_world (hv_start (m_hyp m) (i_name i)) s1 of
       (Inl _, s2) \<Rightarrow> start_batch m rest (sync_observed m i s2)
     | (Inr _, s2) \<Rightarrow> (case start_batch m rest s2 of (started, s3) \<Rightarrow> (i # started, s3)))"

text \<open>The second loop waits for each of them.\<close>

fun await_batch :: "'w manager \<Rightarrow> vm_instance list \<Rightarrow> 'w site \<Rightarrow> 'w site" where
  "await_batch m [] s = s"
| "await_batch m (i # rest) s =
    (case on_world (wait_running m (i_name i)) s of
       (Inl _, s1) \<Rightarrow> await_batch m rest (sync_observed m i s1)
     | (Inr _, s1) \<Rightarrow>
         await_batch m rest (io_forget (on_store (set_observed_state (i_uuid i) Running)) s1))"

definition restore_batch :: "'w manager \<Rightarrow> vm_instance list \<Rightarrow> 'w site \<Rightarrow> 'w site" where
  "restore_batch m batch s = (case start_batch m batch s of (started, s1) \<Rightarrow> await_batch m started s1)"

definition restore :: "'w manager \<Rightarrow> ('w site, lc_error, unit) io" where
  "restore m =
    io_then (io_err (\<lambda>e. LcOperation ''restore: list domains'' [HypCause e]) (on_world (hv_list (m_hyp m)))) (\<lambda>domains s.
      let s1 = (case m_autostart_clearer m of
                  None \<Rightarrow> s
                | Some clear \<Rightarrow> fold (\<lambda>d. io_forget (on_world (clear (di_name d)))) domains s) in
      io_then (io_err (\<lambda>e. LcOperation ''restore: record observed states'' [StoreCause e])
          (on_store (update_observed_states (map (\<lambda>d. (di_uuid d, di_state d)) domains)))) (\<lambda>_ s2.
        (Inr (), fold (restore_batch m)
          (chunks (m_batch_size m) (instances_to_restore (m_format_time m) (m_host_id m) (st_db s2))) s2)) s1)"

section \<open>Reconciling\<close>

record reconcile_report =
  rp_domains_without_rows :: "domain_info list"
  rp_rows_without_domains :: "vm_instance list"

definition report_is_empty :: "reconcile_report \<Rightarrow> bool" where
  "report_is_empty r \<longleftrightarrow> rp_domains_without_rows r = [] \<and> rp_rows_without_domains r = []"

definition reconcile :: "'w manager \<Rightarrow> ('w site, lc_error, reconcile_report) io" where
  "reconcile m =
    io_then (io_err (\<lambda>e. LcOperation ''reconcile: list domains'' [HypCause e]) (on_world (hv_list (m_hyp m)))) (\<lambda>domains s.
      let rows = instances_on_host (m_format_time m) (m_host_id m) (st_db s) in
      (Inr \<lparr>rp_domains_without_rows = filter (\<lambda>d. di_uuid d \<notin> i_uuid ` set rows) domains,
            rp_rows_without_domains = filter (\<lambda>r. i_uuid r \<notin> di_uuid ` set domains) rows\<rparr>, s))"

section \<open>Polling\<close>

definition finish_first_boot :: "'w manager \<Rightarrow> vm_instance \<Rightarrow> ('w site, lc_error, unit) io" where
  "finish_first_boot m i s =
    (let path = seed_iso_path m (i_uuid i) in
     if \<not> m_iso_exists m path (st_world s) then (Inr (), s)
     else
       io_then
         (case m_definer m of
            None \<Rightarrow> io_ok ()
          | Some define \<Rightarrow>
              io_then (domain_xml_by_uuid m i False) (\<lambda>xml.
                io_err (\<lambda>e. LcOperation ''detach seed iso'' [HypCause e]) (on_world (define xml)))) (\<lambda>_.
       io_err (\<lambda>e. LcOperation ''delete seed iso'' [OtherCause e]) (on_world (m_delete_iso m path))) s)"

definition poll_once :: "'w manager \<Rightarrow> ('w site, lc_error, unit) io" where
  "poll_once m =
    io_then (io_err (\<lambda>e. LcOperation ''poll: list domains'' [HypCause e]) (on_world (hv_list (m_hyp m)))) (\<lambda>domains.
      let states = map (\<lambda>d. (di_uuid d, di_state d)) domains in
      io_then (io_err (\<lambda>e. LcOperation ''poll: record observed states'' [StoreCause e])
          (on_store (update_observed_states states))) (\<lambda>_ s.
        (Inr (), fold (\<lambda>i. if map_of (rev states) (i_uuid i) = Some Running then io_forget (finish_first_boot m i)
                           else (\<lambda>s. s))
          (instances_on_host (m_format_time m) (m_host_id m) (st_db s)) s)))"

definition handle_event :: "'w manager \<Rightarrow> string \<Rightarrow> state \<Rightarrow> ('w site, lc_error, unit) io" where
  "handle_event m uuid st =
    io_match (read_store (instance_of uuid))
      (\<lambda>i. io_then (io_err external (on_store (set_observed_state uuid st))) (\<lambda>_ s.
        (Inr (), if st = Running then io_forget (finish_first_boot m i) s else s)))
      (\<lambda>_. io_ok ())"

end
