(* ===== verification/Runner_Fence.thy ===== *)
theory Runner_Fence
  imports Bento_Types
begin

text \<open>
  The runner: the wire types of \<open>crates/runner/src/protocol.rs\<close>, the fence of \<open>fence.rs\<close>,
  its durable store of \<open>store.rs\<close>, and \<open>serve_one\<close> and the endpoint of \<open>lib.rs\<close> and
  \<open>server.rs\<close>.

  The traits \<open>FenceStore\<close> and \<open>Host\<close> are records of operations over the state of an
  implementation, so every definition here works for any store and any machine.  The
  locale \<open>durable_fence\<close> is the contract of a store; it is interpreted on \<open>sqlite_ops\<close>,
  the model of \<open>SqliteFence\<close>, and the properties rest on that interpretation.  The
  network state and the cloud-init seed a request carries are opaque here, as is the
  JSON writer.
\<close>

section \<open>The protocol\<close>

definition PROTOCOL_VERSION :: nat where "PROTOCOL_VERSION = 1"

record object_fence =
  of_object_id :: string
  of_generation :: int
  of_digest :: string

record image_request =
  ir_name :: string
  ir_url :: string
  ir_have :: "string option"

record instance_ref =
  ref_uuid :: string
  ref_name :: string

record redefine_request =
  rd_instance :: instance_ref
  rd_previous_name :: "string option"
  rd_vcpu :: nat
  rd_memory_mib :: nat
  rd_nested :: bool
  rd_ksm :: bool
  rd_network :: string
  rd_mac :: string

record 'seed provision_request =
  pv_instance :: instance_ref
  pv_base_checksum :: string
  pv_disk_gib :: nat
  pv_vcpu :: nat
  pv_memory_mib :: nat
  pv_nested :: bool
  pv_ksm :: bool
  pv_network :: string
  pv_mac :: string
  pv_seed :: 'seed
  pv_with_seed_iso :: bool
  pv_start :: bool

datatype ('net, 'seed) operation =
    OpHealth
  | OpCapabilities
  | OpInventory
  | OpSample
  | EnsureImage image_request
  | ApplyNetwork 'net
  | ProvisionInstance "'seed provision_request"
  | StartInstance instance_ref
  | StopInstance instance_ref
  | RebootInstance instance_ref
  | RemoveInstance instance_ref
  | RedefineInstance redefine_request
  | ResizeDisk instance_ref nat

fun mutates :: "('net, 'seed) operation \<Rightarrow> bool" where
  "mutates OpHealth = False"
| "mutates OpCapabilities = False"
| "mutates OpInventory = False"
| "mutates OpSample = False"
| "mutates (EnsureImage img) = True"
| "mutates (ApplyNetwork network) = True"
| "mutates (ProvisionInstance provision) = True"
| "mutates (StartInstance i) = True"
| "mutates (StopInstance i) = True"
| "mutates (RebootInstance i) = True"
| "mutates (RemoveInstance i) = True"
| "mutates (RedefineInstance redefine) = True"
| "mutates (ResizeDisk i disk_gib) = True"

record ('net, 'seed) envelope =
  en_protocol_version :: nat
  en_target_machine_id :: "string option"
  en_epoch :: int
  en_holder_id :: string
  en_lease_expires_at :: time
  en_sent_at :: time
  en_request_id :: string
  en_object :: "object_fence option"
  en_op :: "('net, 'seed) operation"

record health =
  he_protocol_version :: nat
  he_machine_id :: string
  he_hostname :: string
  he_accepted_epoch :: int
  he_boot_id :: string

record capabilities =
  ca_arch :: string
  ca_cpu_count :: nat
  ca_memory_total_mib :: nat
  ca_storage_total_gib :: nat
  ca_storage_available_gib :: nat
  ca_hypervisor_version :: string

record domain_row =
  dm_uuid :: string
  dm_name :: string
  dm_state :: state

record cpu_time_sample =
  ct_total :: nat
  ct_idle :: nat

record host_sample =
  sm_cpu :: "cpu_time_sample option"
  sm_memory_total_bytes :: nat
  sm_memory_available_bytes :: nat
  sm_storage_total_bytes :: nat
  sm_storage_available_bytes :: nat
  sm_cpu_count :: nat

record domain_usage =
  du_uuid :: string
  du_cpu_time_ns :: nat
  du_vcpus :: nat
  du_rss_kib :: "nat option"
  du_storage_used_bytes :: nat

record samples =
  sa_host :: host_sample
  sa_domains :: "domain_usage list"

datatype reply =
    RHealth health
  | RCapabilities capabilities
  | RInventory "domain_row list"
  | RSamples samples
  | Changed state
  | NetworkApplied nat nat nat nat
  | Provisioned state
  | ImageReady string string bool nat

datatype fence_refusal =
    ProtocolVersion nat nat
  | WrongMachine string string
  | UnaddressedChange
  | UnfencedChange
  | StaleGeneration string int int
  | GenerationConflict string int
  | StaleEpoch int int
  | LeaseExpired string
  | ClockUntrusted int

section \<open>The fence\<close>

datatype fence_error = FenceSqlite | FenceTime string

text \<open>The trait \<open>FenceStore\<close>, over the state \<open>'s\<close> of an implementation.\<close>

record 's fence_store_ops =
  fs_accepted_epoch :: "'s \<Rightarrow> (fence_error, int) result"
  fs_accept_epoch :: "int \<Rightarrow> 's \<Rightarrow> (fence_error, 's) result"
  fs_outcome :: "string \<Rightarrow> 's \<Rightarrow> (fence_error, string option) result"
  fs_record_outcome :: "string \<Rightarrow> string \<Rightarrow> 's \<Rightarrow> (fence_error, 's) result"
  fs_object_generation :: "string \<Rightarrow> 's \<Rightarrow> (fence_error, (int \<times> string) option) result"
  fs_accept_object :: "string \<Rightarrow> int \<Rightarrow> string \<Rightarrow> 's \<Rightarrow> (fence_error, 's) result"

definition DEFAULT_MAX_SKEW :: duration where "DEFAULT_MAX_SKEW = 60 * 1000000000"

text \<open>\<open>Duration::whole_seconds\<close> rounds towards zero.\<close>

definition whole_seconds :: "duration \<Rightarrow> int" where
  "whole_seconds n = (if 0 \<le> n then n div 1000000000 else - ((- n) div 1000000000))"

record 's fence =
  fe_machine_id :: string
  fe_store :: "'s fence_store_ops"
  fe_max_skew :: duration
  fe_format_time :: "time \<Rightarrow> (fence_error, string) result"

datatype admission = Allowed | AlreadyDone string | Refused fence_refusal

text \<open>The checks of \<open>admit_as\<close> that read the envelope and the clock, in the order of the
  code; \<open>None\<close> means that every one of them passed.\<close>

definition check_address :: "'s fence \<Rightarrow> ('net, 'seed) envelope \<Rightarrow> bool \<Rightarrow> fence_refusal option" where
  "check_address f envelope mut =
    (if en_protocol_version envelope \<noteq> PROTOCOL_VERSION
     then Some (ProtocolVersion (en_protocol_version envelope) PROTOCOL_VERSION)
     else case en_target_machine_id envelope of
       Some target \<Rightarrow> if target \<noteq> fe_machine_id f then Some (WrongMachine target (fe_machine_id f)) else None
     | None \<Rightarrow> if mut then Some UnaddressedChange else None)"

definition check_lease ::
  "'s fence \<Rightarrow> ('net, 'seed) envelope \<Rightarrow> time \<Rightarrow> (fence_error, fence_refusal option) result" where
  "check_lease f envelope now =
    (let skew = whole_seconds (now - en_sent_at envelope) in
     if \<bar>skew\<bar> > whole_seconds (fe_max_skew f) then Inr (Some (ClockUntrusted skew))
     else if en_lease_expires_at envelope \<le> now then
       and_then (fe_format_time f (en_lease_expires_at envelope)) (\<lambda>at. Inr (Some (LeaseExpired at)))
     else Inr None)"

definition check_generation :: "object_fence \<Rightarrow> (int \<times> string) option \<Rightarrow> fence_refusal option" where
  "check_generation obj recorded =
    (case recorded of
       None \<Rightarrow> None
     | Some (accepted, digest) \<Rightarrow>
         if of_generation obj < accepted
         then Some (StaleGeneration (of_object_id obj) (of_generation obj) accepted)
         else if of_generation obj = accepted \<and> of_digest obj \<noteq> digest
         then Some (GenerationConflict (of_object_id obj) (of_generation obj))
         else None)"

definition admit_as ::
  "'s fence \<Rightarrow> ('net, 'seed) envelope \<Rightarrow> bool \<Rightarrow> time \<Rightarrow> 's \<Rightarrow> (fence_error, admission) result \<times> 's" where
  "admit_as f envelope mut now s =
    (case check_address f envelope mut of
       Some r \<Rightarrow> (Inr (Refused r), s)
     | None \<Rightarrow>
    (case fs_accepted_epoch (fe_store f) s of
       Inl e \<Rightarrow> (Inl e, s)
     | Inr accepted \<Rightarrow>
    (if en_epoch envelope < accepted then (Inr (Refused (StaleEpoch (en_epoch envelope) accepted)), s)
     else
    (case check_lease f envelope now of
       Inl e \<Rightarrow> (Inl e, s)
     | Inr lease \<Rightarrow>
    (case lease of
       Some r \<Rightarrow> (Inr (Refused r), s)
     | None \<Rightarrow>
    (if \<not> mut then (Inr Allowed, s)
     else
    (case en_object envelope of
       None \<Rightarrow> (Inr (Refused UnfencedChange), s)
     | Some obj \<Rightarrow>
    (case fs_object_generation (fe_store f) (of_object_id obj) s of
       Inl e \<Rightarrow> (Inl e, s)
     | Inr recorded \<Rightarrow>
    (case check_generation obj recorded of
       Some r \<Rightarrow> (Inr (Refused r), s)
     | None \<Rightarrow>
    (case fs_outcome (fe_store f) (en_request_id envelope) s of
       Inl e \<Rightarrow> (Inl e, s)
     | Inr found \<Rightarrow>
    (case found of
       Some outcome \<Rightarrow> (Inr (AlreadyDone outcome), s)
     | None \<Rightarrow>
    (case fs_accept_epoch (fe_store f) (en_epoch envelope) s of
       Inl e \<Rightarrow> (Inl e, s)
     | Inr s1 \<Rightarrow>
    (case fs_accept_object (fe_store f) (of_object_id obj) (of_generation obj) (of_digest obj) s1 of
       Inl e \<Rightarrow> (Inl e, s1)
     | Inr s2 \<Rightarrow> (Inr Allowed, s2))))))))))))))"

definition admit ::
  "'s fence \<Rightarrow> ('net, 'seed) envelope \<Rightarrow> time \<Rightarrow> 's \<Rightarrow> (fence_error, admission) result \<times> 's" where
  "admit f envelope = admit_as f envelope (mutates (en_op envelope))"

definition finish :: "'s fence \<Rightarrow> string \<Rightarrow> string \<Rightarrow> 's \<Rightarrow> (fence_error, 's) result" where
  "finish f request_id outcome s = fs_record_outcome (fe_store f) request_id outcome s"

section \<open>The durable store\<close>

record sqlite_fence =
  sf_accepted_epoch :: int
  sf_objects :: "string \<rightharpoonup> int \<times> string"
  sf_outcomes :: "string \<rightharpoonup> string"

definition fence_schema :: sqlite_fence where
  "fence_schema = \<lparr>sf_accepted_epoch = 0, sf_objects = Map.empty, sf_outcomes = Map.empty\<rparr>"

definition sqlite_accept_epoch :: "int \<Rightarrow> sqlite_fence \<Rightarrow> (fence_error, sqlite_fence) result" where
  "sqlite_accept_epoch epoch s = Inr (s\<lparr>sf_accepted_epoch := max (sf_accepted_epoch s) epoch\<rparr>)"

definition sqlite_accept_object ::
  "string \<Rightarrow> int \<Rightarrow> string \<Rightarrow> sqlite_fence \<Rightarrow> (fence_error, sqlite_fence) result" where
  "sqlite_accept_object object_id generation digest s =
    (case sf_objects s object_id of
       None \<Rightarrow> Inr (s\<lparr>sf_objects := (sf_objects s)(object_id \<mapsto> (generation, digest))\<rparr>)
     | Some (g, _) \<Rightarrow>
         if generation > g then Inr (s\<lparr>sf_objects := (sf_objects s)(object_id \<mapsto> (generation, digest))\<rparr>)
         else Inr s)"

definition sqlite_record_outcome :: "string \<Rightarrow> string \<Rightarrow> sqlite_fence \<Rightarrow> (fence_error, sqlite_fence) result" where
  "sqlite_record_outcome request_id outcome s =
    Inr (s\<lparr>sf_outcomes := (sf_outcomes s)(request_id \<mapsto> outcome)\<rparr>)"

definition sqlite_ops :: "sqlite_fence fence_store_ops" where
  "sqlite_ops =
    \<lparr>fs_accepted_epoch = (\<lambda>s. Inr (sf_accepted_epoch s)),
     fs_accept_epoch = sqlite_accept_epoch,
     fs_outcome = (\<lambda>request_id s. Inr (sf_outcomes s request_id)),
     fs_record_outcome = sqlite_record_outcome,
     fs_object_generation = (\<lambda>object_id s. Inr (sf_objects s object_id)),
     fs_accept_object = sqlite_accept_object\<rparr>"

definition fence_new ::
  "string \<Rightarrow> 's fence_store_ops \<Rightarrow> (time \<Rightarrow> (fence_error, string) result) \<Rightarrow> 's fence" where
  "fence_new machine_id store format_time =
    \<lparr>fe_machine_id = machine_id, fe_store = store, fe_max_skew = DEFAULT_MAX_SKEW, fe_format_time = format_time\<rparr>"

section \<open>Serving one request\<close>

text \<open>The trait \<open>Host\<close> over the state \<open>'h\<close> of a machine.  A method that fails may have
  changed the machine, so each returns the state with its result.\<close>

record ('h, 'net, 'seed) host_ops =
  ho_health :: "'h \<Rightarrow> (string, health) result \<times> 'h"
  ho_capabilities :: "'h \<Rightarrow> (string, capabilities) result \<times> 'h"
  ho_inventory :: "'h \<Rightarrow> (string, domain_row list) result \<times> 'h"
  ho_sample :: "'h \<Rightarrow> (string, samples) result \<times> 'h"
  ho_ensure_image :: "image_request \<Rightarrow> 'h \<Rightarrow> (string, reply) result \<times> 'h"
  ho_apply_network :: "'net \<Rightarrow> 'h \<Rightarrow> (string, reply) result \<times> 'h"
  ho_provision :: "'seed provision_request \<Rightarrow> 'h \<Rightarrow> (string, reply) result \<times> 'h"
  ho_start :: "instance_ref \<Rightarrow> 'h \<Rightarrow> (string, state) result \<times> 'h"
  ho_stop :: "instance_ref \<Rightarrow> 'h \<Rightarrow> (string, state) result \<times> 'h"
  ho_reboot :: "instance_ref \<Rightarrow> 'h \<Rightarrow> (string, state) result \<times> 'h"
  ho_remove :: "instance_ref \<Rightarrow> 'h \<Rightarrow> (string, state) result \<times> 'h"
  ho_redefine :: "redefine_request \<Rightarrow> 'h \<Rightarrow> (string, state) result \<times> 'h"
  ho_resize_disk :: "instance_ref \<Rightarrow> nat \<Rightarrow> 'h \<Rightarrow> (string, state) result \<times> 'h"

datatype outcome = Done reply | Replayed string | OutRefused fence_refusal

fun with_reply :: "('a \<Rightarrow> reply) \<Rightarrow> (string, 'a) result \<times> 'h \<Rightarrow> (string, reply) result \<times> 'h" where
  "with_reply g (r, h) = (and_then r (\<lambda>x. Inr (g x)), h)"

fun perform ::
  "('h, 'net, 'seed) host_ops \<Rightarrow> ('net, 'seed) operation \<Rightarrow> 'h \<Rightarrow> (string, reply) result \<times> 'h" where
  "perform host OpHealth h = with_reply RHealth (ho_health host h)"
| "perform host OpCapabilities h = with_reply RCapabilities (ho_capabilities host h)"
| "perform host OpInventory h = with_reply RInventory (ho_inventory host h)"
| "perform host OpSample h = with_reply RSamples (ho_sample host h)"
| "perform host (EnsureImage img) h = ho_ensure_image host img h"
| "perform host (ApplyNetwork network) h = ho_apply_network host network h"
| "perform host (ProvisionInstance provision) h = ho_provision host provision h"
| "perform host (StartInstance i) h = with_reply Changed (ho_start host i h)"
| "perform host (StopInstance i) h = with_reply Changed (ho_stop host i h)"
| "perform host (RebootInstance i) h = with_reply Changed (ho_reboot host i h)"
| "perform host (RemoveInstance i) h = with_reply Changed (ho_remove host i h)"
| "perform host (RedefineInstance redefine) h = with_reply Changed (ho_redefine host redefine h)"
| "perform host (ResizeDisk i disk_gib) h = with_reply Changed (ho_resize_disk host i disk_gib h)"

fun fence_error_text :: "fence_error \<Rightarrow> string" where
  "fence_error_text FenceSqlite = ''runner fence: sqlite''"
| "fence_error_text (FenceTime t) = ''runner fence: '' @ t"

definition serve_one ::
  "(reply \<Rightarrow> (string, string) result) \<Rightarrow> 's fence \<Rightarrow> ('h, 'net, 'seed) host_ops \<Rightarrow> ('net, 'seed) envelope \<Rightarrow>
    time \<Rightarrow> 's \<times> 'h \<Rightarrow> (string, outcome) result \<times> 's \<times> 'h" where
  "serve_one to_json f host envelope now = (\<lambda>(s, h).
    case admit f envelope now s of
      (Inl e, s1) \<Rightarrow> (Inl (fence_error_text e), s1, h)
    | (Inr (Refused refusal), s1) \<Rightarrow> (Inr (OutRefused refusal), s1, h)
    | (Inr (AlreadyDone recorded), s1) \<Rightarrow> (Inr (Replayed recorded), s1, h)
    | (Inr Allowed, s1) \<Rightarrow>
        (case perform host (en_op envelope) h of
           (Inl e, h1) \<Rightarrow> (Inl e, s1, h1)
         | (Inr reply, h1) \<Rightarrow>
             if mutates (en_op envelope) then
               (case to_json reply of
                  Inl e \<Rightarrow> (Inl e, s1, h1)
                | Inr recorded \<Rightarrow>
                    (case finish f (en_request_id envelope) recorded s1 of
                       Inl e \<Rightarrow> (Inl (fence_error_text e), s1, h1)
                     | Inr s2 \<Rightarrow> (Inr (Done reply), s2, h1)))
             else (Inr (Done reply), s1, h1)))"

text \<open>The status code and body of the one endpoint; the body of a parsed request is
  rendered by \<open>to_json\<close> and its analogue for a refusal.\<close>

datatype http_body = ReplyBody reply | RecordedBody string | RefusalBody fence_refusal | ErrorBody string | NoBody

definition rpc ::
  "(reply \<Rightarrow> (string, string) result) \<Rightarrow> 's fence \<Rightarrow> ('h, 'net, 'seed) host_ops \<Rightarrow>
    (string, ('net, 'seed) envelope) result \<Rightarrow> time \<Rightarrow> 's \<times> 'h \<Rightarrow> (nat \<times> http_body) \<times> 's \<times> 'h" where
  "rpc to_json f host parsed now sh =
    (case parsed of
       Inl _ \<Rightarrow> ((400, NoBody), sh)
     | Inr envelope \<Rightarrow>
         (case serve_one to_json f host envelope now sh of
            (Inr (Done reply), sh1) \<Rightarrow> ((200, ReplyBody reply), sh1)
          | (Inr (Replayed recorded), sh1) \<Rightarrow> ((200, RecordedBody recorded), sh1)
          | (Inr (OutRefused refusal), sh1) \<Rightarrow> ((409, RefusalBody refusal), sh1)
          | (Inl error, sh1) \<Rightarrow> ((500, ErrorBody error), sh1)))"

section \<open>Decide, then write\<close>

text \<open>\<open>admit_as\<close> reads and decides before it writes: \<open>Inl\<close> is a final answer, \<open>Inr\<close> the
  object of a change to accept.\<close>

definition decide ::
  "'s fence \<Rightarrow> ('net, 'seed) envelope \<Rightarrow> bool \<Rightarrow> time \<Rightarrow> 's \<Rightarrow> (fence_error, admission) result + object_fence" where
  "decide f envelope mut now s =
    (case check_address f envelope mut of
       Some r \<Rightarrow> Inl (Inr (Refused r))
     | None \<Rightarrow>
    (case fs_accepted_epoch (fe_store f) s of
       Inl e \<Rightarrow> Inl (Inl e)
     | Inr accepted \<Rightarrow>
    (if en_epoch envelope < accepted then Inl (Inr (Refused (StaleEpoch (en_epoch envelope) accepted)))
     else
    (case check_lease f envelope now of
       Inl e \<Rightarrow> Inl (Inl e)
     | Inr (Some r) \<Rightarrow> Inl (Inr (Refused r))
     | Inr None \<Rightarrow>
    (if \<not> mut then Inl (Inr Allowed)
     else
    (case en_object envelope of
       None \<Rightarrow> Inl (Inr (Refused UnfencedChange))
     | Some obj \<Rightarrow>
    (case fs_object_generation (fe_store f) (of_object_id obj) s of
       Inl e \<Rightarrow> Inl (Inl e)
     | Inr recorded \<Rightarrow>
    (case check_generation obj recorded of
       Some r \<Rightarrow> Inl (Inr (Refused r))
     | None \<Rightarrow>
    (case fs_outcome (fe_store f) (en_request_id envelope) s of
       Inl e \<Rightarrow> Inl (Inl e)
     | Inr (Some outcome) \<Rightarrow> Inl (Inr (AlreadyDone outcome))
     | Inr None \<Rightarrow> Inr obj)))))))))"

lemma admit_as_decide:
  "admit_as f env mut now s =
    (case decide f env mut now s of
       Inl r \<Rightarrow> (r, s)
     | Inr obj \<Rightarrow>
         (case fs_accept_epoch (fe_store f) (en_epoch env) s of
            Inl e \<Rightarrow> (Inl e, s)
          | Inr s1 \<Rightarrow>
              (case fs_accept_object (fe_store f) (of_object_id obj) (of_generation obj) (of_digest obj) s1 of
                 Inl e \<Rightarrow> (Inl e, s1)
               | Inr s2 \<Rightarrow> (Inr Allowed, s2))))"
  unfolding admit_as_def decide_def by (simp split: option.split sum.split)

lemma decide_Inl: "decide f env mut now s = Inl r \<Longrightarrow> \<not> (mut \<and> r = Inr Allowed)"
  by (auto simp: decide_def split: option.splits sum.splits if_splits)

lemma decide_Inr:
  "decide f env mut now s = Inr obj \<Longrightarrow>
    mut \<and> check_address f env mut = None \<and> check_lease f env now = Inr None \<and> en_object env = Some obj \<and>
    (\<exists>accepted. fs_accepted_epoch (fe_store f) s = Inr accepted \<and> accepted \<le> en_epoch env) \<and>
    (\<exists>rec. fs_object_generation (fe_store f) (of_object_id obj) s = Inr rec \<and> check_generation obj rec = None) \<and>
    fs_outcome (fe_store f) (en_request_id env) s = Inr None"
  by (auto simp: decide_def split: option.splits sum.splits if_splits)

section \<open>What a durable store promises\<close>

text \<open>The contract of the trait: reads report the abstract epoch, generations and outcomes;
  an epoch or a generation is never lowered; a write changes nothing else.  A method
  may fail at any time, and then promises nothing.\<close>

locale durable_fence =
  fixes ops :: "'s fence_store_ops"
    and epoch_of :: "'s \<Rightarrow> int"
    and object_of :: "'s \<Rightarrow> string \<Rightarrow> (int \<times> string) option"
    and outcome_of :: "'s \<Rightarrow> string \<Rightarrow> string option"
  assumes read_epoch: "fs_accepted_epoch ops s = Inr e \<Longrightarrow> e = epoch_of s"
    and read_object: "fs_object_generation ops k s = Inr r \<Longrightarrow> r = object_of s k"
    and read_outcome: "fs_outcome ops q s = Inr found \<Longrightarrow> found = outcome_of s q"
    and write_epoch: "fs_accept_epoch ops e s = Inr s' \<Longrightarrow>
      epoch_of s' = max (epoch_of s) e \<and> object_of s' = object_of s \<and> outcome_of s' = outcome_of s"
    and write_object: "fs_accept_object ops k g dg s = Inr s' \<Longrightarrow>
      epoch_of s' = epoch_of s \<and> outcome_of s' = outcome_of s \<and>
      object_of s' = (object_of s)(k := (case object_of s k of
        None \<Rightarrow> Some (g, dg)
      | Some (g0, dg0) \<Rightarrow> if g > g0 then Some (g, dg) else Some (g0, dg0)))"
    and write_outcome: "fs_record_outcome ops q t s = Inr s' \<Longrightarrow>
      epoch_of s' = epoch_of s \<and> object_of s' = object_of s \<and> outcome_of s' = (outcome_of s)(q \<mapsto> t)"
begin

text \<open>No memory is lost: the epoch and every generation only grow, and two records of one
  generation carry one digest.\<close>

definition later :: "'s \<Rightarrow> 's \<Rightarrow> bool" where
  "later s s' \<longleftrightarrow> epoch_of s \<le> epoch_of s' \<and>
    (\<forall>k g dg. object_of s k = Some (g, dg) \<longrightarrow>
      (\<exists>g' dg'. object_of s' k = Some (g', dg') \<and> g \<le> g' \<and> (g = g' \<longrightarrow> dg = dg')))"

lemma later_refl: "later s s"
  by (simp add: later_def)

lemma later_trans:
  assumes "later s s1" "later s1 s2"
  shows "later s s2"
  unfolding later_def
proof (intro conjI allI impI)
  show "epoch_of s \<le> epoch_of s2" using assms by (simp add: later_def)
  fix k g dg assume "object_of s k = Some (g, dg)"
  then obtain g1 dg1 where 1: "object_of s1 k = Some (g1, dg1)" "g \<le> g1" "g = g1 \<longrightarrow> dg = dg1"
    using assms(1) unfolding later_def by blast
  then obtain g2 dg2 where 2: "object_of s2 k = Some (g2, dg2)" "g1 \<le> g2" "g1 = g2 \<longrightarrow> dg1 = dg2"
    using assms(2) unfolding later_def by blast
  show "\<exists>g' dg'. object_of s2 k = Some (g', dg') \<and> g \<le> g' \<and> (g = g' \<longrightarrow> dg = dg')"
    using 1 2 by auto
qed

lemma later_accept_epoch: "fs_accept_epoch ops e s = Inr s' \<Longrightarrow> later s s'"
  using write_epoch by (auto simp: later_def)

lemma later_accept_object: "fs_accept_object ops k g dg s = Inr s' \<Longrightarrow> later s s'"
  by (drule write_object) (auto simp: later_def split: option.splits)

lemma admit_as_cases:
  assumes "fe_store f = ops" "admit_as f env mut now s = (r, s')"
  obtains (unchanged) "s' = s" "\<not> (mut \<and> r = Inr Allowed)"
    | (failed) e where "r = Inl e" "later s s'" "outcome_of s' = outcome_of s"
    | (accepted) obj where "mut" "r = Inr Allowed" "en_object env = Some obj" "epoch_of s \<le> en_epoch env"
        "check_generation obj (object_of s (of_object_id obj)) = None"
        "outcome_of s (en_request_id env) = None" "outcome_of s' = outcome_of s"
        "epoch_of s' = en_epoch env"
        "object_of s' = (object_of s)(of_object_id obj \<mapsto> (of_generation obj, of_digest obj))"
proof (cases "decide f env mut now s")
  case (Inl r0)
  then have "s' = s" "r = r0" using assms(2) by (simp_all add: admit_as_decide)
  then show thesis using decide_Inl [OF Inl] by (intro unchanged) simp_all
next
  case (Inr obj)
  obtain acc rec where h: "mut" "fs_accepted_epoch ops s = Inr acc" "acc \<le> en_epoch env" "en_object env = Some obj"
      "fs_object_generation ops (of_object_id obj) s = Inr rec" "check_generation obj rec = None"
      "fs_outcome ops (en_request_id env) s = Inr None"
    using decide_Inr [OF Inr] unfolding assms(1) by metis
  note dec = Inr
  note rd = read_epoch [OF h(2)] read_object [OF h(5)] read_outcome [OF h(7)]
  show thesis
  proof (cases "fs_accept_epoch ops (en_epoch env) s")
    case (Inl e)
    then have "r = Inl e" "s' = s" using assms(2) by (simp_all add: admit_as_decide dec assms(1))
    then show thesis by (intro unchanged) simp_all
  next
    case e: (Inr s1)
    show thesis
    proof (cases "fs_accept_object ops (of_object_id obj) (of_generation obj) (of_digest obj) s1")
      case (Inl err)
      then have "r = Inl err" "s' = s1" using assms(2) e by (simp_all add: admit_as_decide dec assms(1))
      then show thesis using later_accept_epoch [OF e] write_epoch [OF e] by (intro failed) auto
    next
      case (Inr s2)
      then have r: "r = Inr Allowed" "s' = s2" using assms(2) e by (simp_all add: admit_as_decide dec assms(1))
      note w = write_epoch [OF e] write_object [OF Inr]
      have "(case object_of s (of_object_id obj) of
          None \<Rightarrow> Some (of_generation obj, of_digest obj)
        | Some (g0, dg0) \<Rightarrow> if of_generation obj > g0 then Some (of_generation obj, of_digest obj) else Some (g0, dg0))
          = Some (of_generation obj, of_digest obj)"
        using h(6) rd(2) by (auto simp: check_generation_def split: option.splits if_splits)
      then show thesis using h r rd w by (intro accepted [of obj]) auto
    qed
  qed
qed

lemma later_accepted:
  assumes "epoch_of s \<le> e" "check_generation obj (object_of s (of_object_id obj)) = None" "epoch_of s' = e"
    "object_of s' = (object_of s)(of_object_id obj \<mapsto> (of_generation obj, of_digest obj))"
  shows "later s s'"
  using assms by (auto simp: later_def check_generation_def split: if_splits)

lemma admit_as_later:
  assumes "fe_store f = ops" "admit_as f env mut now s = (r, s')"
  shows "later s s'" "outcome_of s' = outcome_of s"
  using assms by (cases rule: admit_as_cases; simp add: later_refl later_accepted)+

end

interpretation sqlite: durable_fence sqlite_ops sf_accepted_epoch sf_objects sf_outcomes
  by unfold_locales
    (auto simp: sqlite_ops_def sqlite_accept_epoch_def sqlite_accept_object_def sqlite_record_outcome_def
      split: option.splits if_splits)

section \<open>Sequences of requests\<close>

text \<open>The log of a run: each request with whether the fence let it reach the machine, and
  the answer.\<close>

fun serve_run ::
  "(reply \<Rightarrow> (string, string) result) \<Rightarrow> 's fence \<Rightarrow> ('h, 'net, 'seed) host_ops \<Rightarrow>
    (('net, 'seed) envelope \<times> time) list \<Rightarrow> 's \<times> 'h \<Rightarrow>
    (('net, 'seed) envelope \<times> bool \<times> (string, outcome) result) list" where
  "serve_run to_json f host [] sh = []"
| "serve_run to_json f host ((env, now) # reqs) sh =
    (env, fst (admit f env now (fst sh)) = Inr Allowed, fst (serve_one to_json f host env now sh)) #
    serve_run to_json f host reqs (snd (serve_one to_json f host env now sh))"

definition mutation_order ::
  "('net, 'seed) envelope \<times> bool \<times> (string, outcome) result \<Rightarrow>
   ('net, 'seed) envelope \<times> bool \<times> (string, outcome) result \<Rightarrow> bool" where
  "mutation_order a b \<longleftrightarrow>
    en_epoch (fst a) \<le> en_epoch (fst b) \<and>
    (\<forall>x y. en_object (fst a) = Some x \<and> en_object (fst b) = Some y \<and> of_object_id x = of_object_id y \<longrightarrow>
      of_generation x \<le> of_generation y \<and> (of_generation x = of_generation y \<longrightarrow> of_digest x = of_digest y)) \<and>
    (\<forall>reply. snd (snd a) = Inr (Done reply) \<longrightarrow> en_request_id (fst a) \<noteq> en_request_id (fst b))"

lemma serve_one_eq:
  "serve_one to_json f host env now (s, h) =
    (case admit f env now s of
       (Inr Allowed, s1) \<Rightarrow>
         (case perform host (en_op env) h of
            (Inl e, h1) \<Rightarrow> (Inl e, s1, h1)
          | (Inr reply, h1) \<Rightarrow>
              if mutates (en_op env) then
                (case to_json reply of
                   Inl e \<Rightarrow> (Inl e, s1, h1)
                 | Inr recorded \<Rightarrow>
                     (case finish f (en_request_id env) recorded s1 of
                        Inl e \<Rightarrow> (Inl (fence_error_text e), s1, h1)
                      | Inr s2 \<Rightarrow> (Inr (Done reply), s2, h1)))
              else (Inr (Done reply), s1, h1))
     | (Inr (Refused refusal), s1) \<Rightarrow> (Inr (OutRefused refusal), s1, h)
     | (Inr (AlreadyDone recorded), s1) \<Rightarrow> (Inr (Replayed recorded), s1, h)
     | (Inl e, s1) \<Rightarrow> (Inl (fence_error_text e), s1, h))"
  by (simp add: serve_one_def split: prod.split sum.split admission.split)

lemma serve_one_not_allowed:
  assumes "fst (admit f env now s) \<noteq> Inr Allowed"
  shows "snd (serve_one to_json f host env now (s, h)) = (snd (admit f env now s), h)"
    "fst (serve_one to_json f host env now (s, h)) \<noteq> Inr (Done reply)"
  using assms by (auto simp: serve_one_eq split: prod.splits sum.splits admission.splits)

context durable_fence
begin

lemma serve_one_later:
  assumes "fe_store f = ops" "serve_one to_json f host env now (s, h) = (r, s', h')" "admit f env now s = (a, s1)"
  shows "later s1 s'" "epoch_of s' = epoch_of s1" "object_of s' = object_of s1"
    "dom (outcome_of s1) \<subseteq> dom (outcome_of s')"
    "r = Inr (Done reply) \<Longrightarrow> mutates (en_op env) \<Longrightarrow> outcome_of s' (en_request_id env) \<noteq> None"
proof -
  consider "s' = s1" "\<not> (mutates (en_op env) \<and> (\<exists>reply. r = Inr (Done reply)))"
    | recorded where "fs_record_outcome ops (en_request_id env) recorded s1 = Inr s'"
    using assms(2,3)
    by (auto simp: serve_one_eq finish_def assms(1) split: prod.splits sum.splits admission.splits if_splits)
  then show "later s1 s'" "epoch_of s' = epoch_of s1" "object_of s' = object_of s1"
    "dom (outcome_of s1) \<subseteq> dom (outcome_of s')"
    "r = Inr (Done reply) \<Longrightarrow> mutates (en_op env) \<Longrightarrow> outcome_of s' (en_request_id env) \<noteq> None"
    by (cases; force simp: later_def dest!: write_outcome)+
qed

text \<open>What the fence remembers bounds every change admitted from then on.\<close>

lemma serve_run_bound:
  assumes "fe_store f = ops" "(env, True, r) \<in> set (serve_run to_json f host reqs (s, h))" "mutates (en_op env)"
  obtains obj where "en_object env = Some obj" "epoch_of s \<le> en_epoch env"
    "\<forall>g dg. object_of s (of_object_id obj) = Some (g, dg) \<longrightarrow>
      g \<le> of_generation obj \<and> (g = of_generation obj \<longrightarrow> dg = of_digest obj)"
    "outcome_of s (en_request_id env) = None"
proof -
  have "\<exists>obj. en_object env = Some obj \<and> epoch_of s \<le> en_epoch env \<and>
      (\<forall>g dg. object_of s (of_object_id obj) = Some (g, dg) \<longrightarrow>
        g \<le> of_generation obj \<and> (g = of_generation obj \<longrightarrow> dg = of_digest obj)) \<and>
      outcome_of s (en_request_id env) = None"
    using assms(2)
  proof (induction reqs arbitrary: s h)
    case (Cons req reqs)
    obtain env0 now where req: "req = (env0, now)" by (cases req)
    obtain r0 s' h' where so: "serve_one to_json f host env0 now (s, h) = (r0, s', h')"
      by (metis prod.exhaust_sel)
    obtain a s1 where ad: "admit f env0 now s = (a, s1)" by (cases "admit f env0 now s")
    note adm = ad [unfolded admit_def]
    have mono: "later s s'" "dom (outcome_of s) \<subseteq> dom (outcome_of s')"
      using later_trans [OF admit_as_later(1) [OF assms(1) adm] serve_one_later(1) [OF assms(1) so ad]]
        admit_as_later(2) [OF assms(1) adm] serve_one_later(4) [OF assms(1) so ad] by simp_all
    show ?case
    proof (cases "(env, True, r) \<in> set (serve_run to_json f host reqs (s', h'))")
      case True
      then obtain obj where o: "en_object env = Some obj" "epoch_of s' \<le> en_epoch env"
          "\<forall>g dg. object_of s' (of_object_id obj) = Some (g, dg) \<longrightarrow>
            g \<le> of_generation obj \<and> (g = of_generation obj \<longrightarrow> dg = of_digest obj)"
          "outcome_of s' (en_request_id env) = None"
        using Cons.IH [of s' h'] by blast
      have "g \<le> of_generation obj \<and> (g = of_generation obj \<longrightarrow> dg = of_digest obj)"
        if so: "object_of s (of_object_id obj) = Some (g, dg)" for g dg
      proof -
        obtain g' dg' where "object_of s' (of_object_id obj) = Some (g', dg')" "g \<le> g'" "g = g' \<longrightarrow> dg = dg'"
          using mono(1) so unfolding later_def by blast
        then show ?thesis using o(3) by fastforce
      qed
      moreover have "outcome_of s (en_request_id env) = None"
        using mono(2) o(4) by (auto simp: dom_def)
      moreover have "epoch_of s \<le> en_epoch env" using mono(1) o(2) by (simp add: later_def)
      ultimately show ?thesis using o(1) by blast
    next
      case False
      then have eq: "env0 = env" "a = Inr Allowed" using Cons.prems so ad by (auto simp: req)
      from assms(1) adm show ?thesis
      proof (cases rule: admit_as_cases)
        case unchanged
        then show ?thesis using eq assms(3) by simp
      next
        case failed
        then show ?thesis using eq by simp
      next
        case (accepted obj)
        then show ?thesis using eq
          by (auto simp: check_generation_def split: option.splits if_splits)
      qed
    qed
  qed simp
  then show thesis using that by blast
qed

lemma serve_run_ordered:
  assumes "fe_store f = ops"
  shows "sorted_wrt mutation_order
    (filter (\<lambda>(env, admitted, r). admitted \<and> mutates (en_op env)) (serve_run to_json f host reqs (s, h)))"
proof (induction reqs arbitrary: s h)
  case (Cons req reqs)
  obtain env now where req: "req = (env, now)" by (cases req)
  obtain r s' h' where so: "serve_one to_json f host env now (s, h) = (r, s', h')" by (metis prod.exhaust_sel)
  obtain a s1 where ad: "admit f env now s = (a, s1)" by (cases "admit f env now s")
  have "mutation_order (env, True, r) (env2, True, r2)"
    if m: "mutates (en_op env)" "a = Inr Allowed" "mutates (en_op env2)"
      and e2: "(env2, True, r2) \<in> set (serve_run to_json f host reqs (s', h'))" for env2 r2
  proof -
    note adm = ad [unfolded admit_def]
    obtain obj where o: "en_object env = Some obj" "epoch_of s1 = en_epoch env"
        "object_of s1 (of_object_id obj) = Some (of_generation obj, of_digest obj)"
      using assms adm by (cases rule: admit_as_cases) (use m in auto)
    note L = serve_one_later [OF assms so ad]
    obtain obj2 where o2: "en_object env2 = Some obj2" "epoch_of s' \<le> en_epoch env2"
      "\<forall>g dg. object_of s' (of_object_id obj2) = Some (g, dg) \<longrightarrow>
        g \<le> of_generation obj2 \<and> (g = of_generation obj2 \<longrightarrow> dg = of_digest obj2)"
      "outcome_of s' (en_request_id env2) = None"
      by (rule serve_run_bound [OF assms e2 m(3)])
    show ?thesis
      using o o2 L(2,3) L(5) m(1) unfolding mutation_order_def by auto
  qed
  then show ?case using Cons.IH so ad by (auto simp: req)
qed simp

end

section \<open>Properties\<close>

text \<open>An example machine that counts the changes made to it, and a change addressed to it.\<close>

definition sample_host :: "(nat, unit, unit) host_ops" where
  "sample_host =
    \<lparr>ho_health = (\<lambda>h. (Inl ''down'', h)), ho_capabilities = (\<lambda>h. (Inl ''down'', h)), ho_inventory = (\<lambda>h. (Inr [], h)),
     ho_sample = (\<lambda>h. (Inl ''down'', h)), ho_ensure_image = (\<lambda>i h. (Inl ''no'', h)), ho_apply_network = (\<lambda>n h. (Inl ''no'', h)),
     ho_provision = (\<lambda>p h. (Inl ''no'', h)), ho_start = (\<lambda>i h. (Inr Running, h + 1)), ho_stop = (\<lambda>i h. (Inr Stopped, h + 1)),
     ho_reboot = (\<lambda>i h. (Inl ''no'', h)), ho_remove = (\<lambda>i h. (Inl ''no'', h)), ho_redefine = (\<lambda>r h. (Inl ''no'', h)),
     ho_resize_disk = (\<lambda>i n h. (Inl ''no'', h))\<rparr>"

definition sample_fence :: "sqlite_fence fence" where
  "sample_fence = fence_new ''m1'' sqlite_ops (\<lambda>t. Inr ''t'')"

definition sample_start :: "string \<Rightarrow> int \<Rightarrow> (unit, unit) envelope" where
  "sample_start request generation =
    \<lparr>en_protocol_version = 1, en_target_machine_id = Some ''m1'', en_epoch = 4, en_holder_id = ''c'',
     en_lease_expires_at = 90, en_sent_at = 10, en_request_id = request,
     en_object = Some \<lparr>of_object_id = ''u1'', of_generation = generation, of_digest = ''d''\<rparr>,
     en_op = StartInstance \<lparr>ref_uuid = ''u1'', ref_name = ''web''\<rparr>\<rparr>"

lemmas fence_eval = sample_host_def sample_fence_def sample_start_def fence_new_def admit_def admit_as_def
  check_address_def check_lease_def check_generation_def whole_seconds_def DEFAULT_MAX_SKEW_def PROTOCOL_VERSION_def
  sqlite_ops_def sqlite_accept_epoch_def sqlite_accept_object_def sqlite_record_outcome_def finish_def serve_one_def
  fence_schema_def

text \<open>C7. An old controller cannot drive a runner.  Over any sequence of requests and any
  clock, the changes the fence lets through to the machine come in an order of
  non-decreasing epoch; for one object their generations never go back, and two changes
  at one generation want the same thing; and a request id whose change finished is never
  let through again.\<close>

theorem fence_orders_changes:
  assumes "fe_store f = sqlite_ops"
  shows "sorted_wrt mutation_order
    (filter (\<lambda>(env, admitted, r). admitted \<and> mutates (en_op env)) (serve_run to_json f host reqs (s, h)))"
  by (rule sqlite.serve_run_ordered [OF assms])

theorem fence_orders_changes_witness:
  "map (\<lambda>(env, admitted, r). (en_request_id env, admitted))
     (serve_run (\<lambda>r. Inr ''ok'') sample_fence sample_host
       [(sample_start ''a'' 7, 20), (sample_start ''a'' 7, 21), (sample_start ''b'' 6, 22), (sample_start ''c'' 8, 23)] (fence_schema, 0)) =
   [(''a'', True), (''a'', False), (''b'', False), (''c'', True)] \<and>
   sorted_wrt mutation_order (filter (\<lambda>(env, admitted, r). admitted \<and> mutates (en_op env))
     (serve_run (\<lambda>r. Inr ''ok'') sample_fence sample_host
       [(sample_start ''a'' 7, 20), (sample_start ''a'' 7, 21), (sample_start ''b'' 6, 22), (sample_start ''c'' 8, 23)] (fence_schema, 0)))"
proof
  show "map (\<lambda>(env, admitted, r). (en_request_id env, admitted))
     (serve_run (\<lambda>r. Inr ''ok'') sample_fence sample_host
       [(sample_start ''a'' 7, 20), (sample_start ''a'' 7, 21), (sample_start ''b'' 6, 22), (sample_start ''c'' 8, 23)] (fence_schema, 0)) =
     [(''a'', True), (''a'', False), (''b'', False), (''c'', True)]"
    by (simp add: fence_eval)
  show "sorted_wrt mutation_order (filter (\<lambda>(env, admitted, r). admitted \<and> mutates (en_op env))
     (serve_run (\<lambda>r. Inr ''ok'') sample_fence sample_host
       [(sample_start ''a'' 7, 20), (sample_start ''a'' 7, 21), (sample_start ''b'' 6, 22), (sample_start ''c'' 8, 23)] (fence_schema, 0)))"
    by (rule fence_orders_changes) (simp add: sample_fence_def fence_new_def)
qed



text \<open>C12. A current order gets through.  A change that is addressed to this machine in this
  protocol, whose epoch is not behind the accepted one, whose sender's clock agrees and
  whose lease runs, and whose generation is ahead of the accepted one for its object, is
  let through under a fresh request id, and its epoch and generation are remembered.
  If the machine then fails, the same request is let through again; if it finishes, the
  same request is answered from memory and the machine is left alone.\<close>

theorem current_order_gets_through:
  assumes "fe_store f = sqlite_ops" "mutates (en_op env)" "en_object env = Some obj"
    "en_protocol_version env = PROTOCOL_VERSION" "en_target_machine_id env = Some (fe_machine_id f)"
    "sf_accepted_epoch s \<le> en_epoch env"
    "\<forall>t \<in> {now, later}. \<bar>whole_seconds (t - en_sent_at env)\<bar> \<le> whole_seconds (fe_max_skew f) \<and> t < en_lease_expires_at env"
    "\<forall>g dg. sf_objects s (of_object_id obj) = Some (g, dg) \<longrightarrow> g < of_generation obj"
    "sf_outcomes s (en_request_id env) = None"
  shows "\<exists>s1. admit f env now s = (Inr Allowed, s1) \<and> sf_accepted_epoch s1 = en_epoch env \<and>
    sf_objects s1 (of_object_id obj) = Some (of_generation obj, of_digest obj) \<and>
    (case perform host (en_op env) h of
       (Inl e, h1) \<Rightarrow> serve_one to_json f host env now (s, h) = (Inl e, s1, h1) \<and>
         fst (admit f env later s1) = Inr Allowed
     | (Inr reply, h1) \<Rightarrow>
         (\<forall>recorded. to_json reply = Inr recorded \<longrightarrow>
           (\<exists>s2. serve_one to_json f host env now (s, h) = (Inr (Done reply), s2, h1) \<and>
             serve_one to_json f host env later (s2, h1) = (Inr (Replayed recorded), s2, h1))))"
proof -
  define s1 where "s1 = s\<lparr>sf_accepted_epoch := en_epoch env,
    sf_objects := (sf_objects s)(of_object_id obj \<mapsto> (of_generation obj, of_digest obj))\<rparr>"
  have addr: "check_address f env True = None" using assms(4,5) by (simp add: check_address_def)
  have lease: "check_lease f env now = Inr None" "check_lease f env later = Inr None"
    using assms(7) by (simp_all add: check_lease_def Let_def)
  have gen: "check_generation obj (sf_objects s (of_object_id obj)) = None"
    using assms(8) by (auto simp: check_generation_def split: option.split)
  have gen1: "check_generation obj (Some (of_generation obj, of_digest obj)) = None"
    by (simp add: check_generation_def)
  have "sqlite_accept_object (of_object_id obj) (of_generation obj) (of_digest obj)
      (s\<lparr>sf_accepted_epoch := max (sf_accepted_epoch s) (en_epoch env)\<rparr>) = Inr s1"
    using assms(6,8) by (auto simp: sqlite_accept_object_def s1_def max_def split: option.split)
  then have ad: "admit f env now s = (Inr Allowed, s1)"
    using assms(2,3,6,9) lease gen addr
    by (simp add: admit_def admit_as_def assms(1) sqlite_ops_def sqlite_accept_epoch_def)
  have again: "fst (admit f env later s1) = Inr Allowed"
    using assms(2,3,9) lease gen1 addr
    by (simp add: admit_def admit_as_def assms(1) sqlite_ops_def sqlite_accept_epoch_def sqlite_accept_object_def s1_def)
  have replay: "admit f env later (s1\<lparr>sf_outcomes := (sf_outcomes s1)(en_request_id env \<mapsto> recorded)\<rparr>) =
      (Inr (AlreadyDone recorded), s1\<lparr>sf_outcomes := (sf_outcomes s1)(en_request_id env \<mapsto> recorded)\<rparr>)" for recorded
    using assms(2,3) lease gen1 addr
    by (simp add: admit_def admit_as_def assms(1) sqlite_ops_def s1_def)
  show ?thesis
  proof (intro exI conjI)
    show "admit f env now s = (Inr Allowed, s1)" by (rule ad)
    show "sf_accepted_epoch s1 = en_epoch env"
      "sf_objects s1 (of_object_id obj) = Some (of_generation obj, of_digest obj)" by (simp_all add: s1_def)
    show "case perform host (en_op env) h of
       (Inl e, h1) \<Rightarrow> serve_one to_json f host env now (s, h) = (Inl e, s1, h1) \<and>
         fst (admit f env later s1) = Inr Allowed
     | (Inr reply, h1) \<Rightarrow>
         (\<forall>recorded. to_json reply = Inr recorded \<longrightarrow>
           (\<exists>s2. serve_one to_json f host env now (s, h) = (Inr (Done reply), s2, h1) \<and>
             serve_one to_json f host env later (s2, h1) = (Inr (Replayed recorded), s2, h1)))"
      using ad again replay assms(2)
      by (auto simp: serve_one_eq finish_def assms(1) sqlite_ops_def sqlite_record_outcome_def
          split: prod.split sum.split)
  qed
qed

theorem current_order_gets_through_witness:
  "\<exists>s2. serve_one (\<lambda>r. Inr ''ok'') sample_fence sample_host (sample_start ''a'' 7) 20 (fence_schema, 0) =
     (Inr (Done (Changed Running)), s2, 1) \<and>
   serve_one (\<lambda>r. Inr ''ok'') sample_fence sample_host (sample_start ''a'' 7) 30 (s2, 1) = (Inr (Replayed ''ok''), s2, 1)"
proof -
  note T = current_order_gets_through [where f = sample_fence and env = "sample_start ''a'' 7" and s = fence_schema
      and now = 20 and later = 30 and host = sample_host and h = 0 and to_json = "\<lambda>r. Inr ''ok''"
      and obj = "\<lparr>of_object_id = ''u1'', of_generation = 7, of_digest = ''d''\<rparr>"]
  show ?thesis
    using T by (simp add: sample_fence_def fence_new_def sample_start_def PROTOCOL_VERSION_def fence_schema_def
        whole_seconds_def DEFAULT_MAX_SKEW_def sample_host_def) (elim exE conjE, intro exI conjI)
qed

end
