(* ===== verification/Bentod_Runners.thy ===== *)
theory Bentod_Runners
  imports Lifecycle_Manager Runner_Fence
begin

text \<open>
  The controller's side of the runner protocol: \<open>bentod/src/runners.rs\<close> and
  \<open>crates/runner/src/client.rs\<close>.

  \<open>dispatcher\<close> gathers what \<open>InstanceSync\<close>, \<open>ImageSync\<close>, \<open>NetworkSync\<close> and \<open>PollTask\<close> hold: the
  transport \<open>dp_call\<close>, the clock, the source of request ids, the lease, and the renderer
  and digest of the libraries they use.  A request that runs out of time is an error of
  the transport; the machine may have acted all the same, so the state \<open>'w\<close> may have
  changed.  \<open>network_sync\<close> is the memory of \<open>NetworkSync\<close>.
\<close>

type_synonym runner_op = "(machine_description, seed) operation"
type_synonym runner_envelope = "(machine_description, seed) envelope"

section \<open>Answers of the transport\<close>

datatype client_error =
    Transport
  | ClientRefused fence_refusal
  | UnexpectedStatus nat string
  | InvalidBody nat

text \<open>\<open>parse_reply\<close> and \<open>parse_refusal\<close> are the readers of the serialisation library.\<close>

definition decode_response ::
  "(string \<Rightarrow> reply option) \<Rightarrow> (string \<Rightarrow> fence_refusal option) \<Rightarrow> nat \<Rightarrow> string \<Rightarrow> (client_error, reply) result" where
  "decode_response parse_reply parse_refusal status body =
    (if status = 409 then
       (case parse_refusal body of None \<Rightarrow> Inl (InvalidBody status) | Some refusal \<Rightarrow> Inl (ClientRefused refusal))
     else if status \<noteq> 200 then Inl (UnexpectedStatus status body)
     else ok_or (InvalidBody status) (parse_reply body))"

section \<open>Sending\<close>

datatype lease_source = Held | Current

record 'w dispatcher =
  dp_call :: "string \<Rightarrow> runner_envelope \<Rightarrow> ('w, string, reply) io"
  dp_lease_source :: lease_source
  dp_held :: "'w \<Rightarrow> lease"
  dp_now :: "'w \<Rightarrow> time \<times> 'w"
  dp_request_id :: "'w \<Rightarrow> string \<times> 'w"
  dp_sha256 :: "string \<Rightarrow> byte list"
  dp_json_provision :: "seed provision_request \<Rightarrow> string"
  dp_json_redefine :: "redefine_request \<Rightarrow> string"
  dp_json_op :: "runner_op \<Rightarrow> string"
  dp_json_network :: "machine_description \<Rightarrow> string"
  dp_format_time :: "time \<Rightarrow> string"
  dp_plan :: plan
  dp_high_ports :: port_range
  dp_controller_host_id :: int

definition lease_for :: "'w dispatcher \<Rightarrow> ('w site, dyn_error, lease) io" where
  "lease_for dp s =
    (case dp_lease_source dp of
       Held \<Rightarrow> (Inr (dp_held dp (st_world s)), s)
     | Current \<Rightarrow>
         (case lease_of (st_db s) of
            Inl e \<Rightarrow> (Inl (StoreCause e), s)
          | Inr None \<Rightarrow> (Inl (OtherCause ''no controller holds the lease, so nothing may change another machine''), s)
          | Inr (Some l) \<Rightarrow> (Inr l, s)))"

definition send ::
  "'w dispatcher \<Rightarrow> string \<Rightarrow> host \<Rightarrow> lease \<Rightarrow> runner_op \<Rightarrow> object_fence option \<Rightarrow> ('w site, string, reply) io" where
  "send dp endpoint host lease op obj = on_world (\<lambda>w.
    case dp_now dp w of (sent_at, w1) \<Rightarrow>
    (case dp_request_id dp w1 of (request_id, w2) \<Rightarrow>
      dp_call dp endpoint
        \<lparr>en_protocol_version = PROTOCOL_VERSION, en_target_machine_id = h_machine_id host,
         en_epoch = l_epoch lease, en_holder_id = l_holder_id lease, en_lease_expires_at = l_expires_at lease,
         en_sent_at = sent_at, en_request_id = request_id, en_object = obj, en_op = op\<rparr> w2))"

definition digest_of :: "'w dispatcher \<Rightarrow> string \<Rightarrow> string" where
  "digest_of dp body = ''sha256-'' @ concat (map hex_byte (dp_sha256 dp body))"

definition object_fence_for ::
  "string \<Rightarrow> string \<Rightarrow> int \<Rightarrow> ('w site, dyn_error, object_fence) io" where
  "object_fence_for object_id digest epoch =
    io_then (io_err StoreCause (on_store (next_dispatch_generation object_id epoch))) (\<lambda>generation.
      io_ok \<lparr>of_object_id = object_id, of_generation = generation, of_digest = digest\<rparr>)"

definition endpoint_of :: "string \<Rightarrow> host \<Rightarrow> (dyn_error, string) result" where
  "endpoint_of what host = ok_or (OtherCause (what @ h_name host @ '' has no endpoint'')) (h_endpoint host)"

section \<open>Instances\<close>

definition sync_provision ::
  "'w dispatcher \<Rightarrow> host \<Rightarrow> provision_spec \<Rightarrow> ('w site, dyn_error, state) io" where
  "sync_provision dp host spec =
    io_then (io_of (endpoint_of ''machine '' host)) (\<lambda>endpoint.
      if h_machine_id host = None then io_fail (OtherCause (''machine '' @ h_name host @ '' has not reported its identity''))
      else
        let i = ps_instance spec;
            request = \<lparr>pv_instance = \<lparr>ref_uuid = i_uuid i, ref_name = i_name i\<rparr>, pv_base_checksum = i_base_checksum i,
              pv_disk_gib = i_disk_gib i, pv_vcpu = i_vcpu i, pv_memory_mib = i_memory_mib i, pv_nested = i_nested i,
              pv_ksm = i_ksm i, pv_network = ps_network spec, pv_mac = i_mac i, pv_seed = ps_seed spec,
              pv_with_seed_iso = ps_with_seed_iso spec, pv_start = ps_start spec\<rparr> in
        io_then (lease_for dp) (\<lambda>current.
        io_then (object_fence_for (i_uuid i) (digest_of dp (dp_json_provision dp request)) (l_epoch current)) (\<lambda>obj.
        io_then (io_err OtherCause (send dp endpoint host current (ProvisionInstance request) (Some obj))) (\<lambda>reply.
          case reply of
            Provisioned st \<Rightarrow> io_ok st
          | _ \<Rightarrow> io_fail (OtherCause ''wrong answer to a provision request'')))))"

definition sync_redefine ::
  "'w dispatcher \<Rightarrow> host \<Rightarrow> redefine_request \<Rightarrow> ('w site, dyn_error, state) io" where
  "sync_redefine dp host request =
    io_then (io_of (endpoint_of ''machine '' host)) (\<lambda>endpoint.
    io_then (lease_for dp) (\<lambda>current.
    io_then (object_fence_for (ref_uuid (rd_instance request)) (digest_of dp (dp_json_redefine dp request))
        (l_epoch current)) (\<lambda>obj.
    io_then (io_err OtherCause (send dp endpoint host current (RedefineInstance request) (Some obj))) (\<lambda>reply.
      case reply of
        Changed st \<Rightarrow> io_ok st
      | _ \<Rightarrow> io_fail (OtherCause ''wrong answer to a redefine request'')))))"

fun change_uuid :: "runner_op \<Rightarrow> string option" where
  "change_uuid (StartInstance i) = Some (ref_uuid i)"
| "change_uuid (StopInstance i) = Some (ref_uuid i)"
| "change_uuid (RebootInstance i) = Some (ref_uuid i)"
| "change_uuid (RemoveInstance i) = Some (ref_uuid i)"
| "change_uuid (ResizeDisk i disk_gib) = Some (ref_uuid i)"
| "change_uuid _ = None"

definition sync_change :: "'w dispatcher \<Rightarrow> host \<Rightarrow> runner_op \<Rightarrow> ('w site, dyn_error, state) io" where
  "sync_change dp host op =
    io_then (io_of (endpoint_of ''machine '' host)) (\<lambda>endpoint.
    io_then (io_of (ok_or (OtherCause ''not an instance change'') (change_uuid op))) (\<lambda>uuid.
    io_then (lease_for dp) (\<lambda>current.
    io_then (object_fence_for uuid (digest_of dp (dp_json_op dp op)) (l_epoch current)) (\<lambda>obj.
    io_then (io_err OtherCause (send dp endpoint host current op (Some obj))) (\<lambda>reply.
      case reply of
        Changed st \<Rightarrow> io_ok st
      | _ \<Rightarrow> io_fail (OtherCause ''wrong answer to an instance change''))))))"

definition sync_resize_disk ::
  "'w dispatcher \<Rightarrow> host \<Rightarrow> instance_ref \<Rightarrow> nat \<Rightarrow> ('w site, dyn_error, state) io" where
  "sync_resize_disk dp host i disk_gib = sync_change dp host (ResizeDisk i disk_gib)"

definition sync_read :: "'w dispatcher \<Rightarrow> host \<Rightarrow> runner_op \<Rightarrow> ('w site, dyn_error, reply) io" where
  "sync_read dp host op =
    io_then (io_of (endpoint_of ''machine '' host)) (\<lambda>endpoint.
    io_then (lease_for dp) (\<lambda>current.
      io_err OtherCause (send dp endpoint host current op None)))"

definition remote_sample :: "'w dispatcher \<Rightarrow> host \<Rightarrow> ('w site, dyn_error, samples) io" where
  "remote_sample dp host =
    io_then (sync_read dp host OpSample) (\<lambda>reply.
      case reply of RSamples sa \<Rightarrow> io_ok sa | _ \<Rightarrow> io_fail (OtherCause ''wrong answer to a sample request''))"

section \<open>The hypervisor of another machine\<close>

definition rh_list :: "'w dispatcher \<Rightarrow> host \<Rightarrow> ('w site, hyp_error, domain_info list) io" where
  "rh_list dp host =
    io_then (io_err (\<lambda>_. HOperation ''inventory'') (sync_read dp host OpInventory)) (\<lambda>reply.
      case reply of
        RInventory domains \<Rightarrow>
          io_ok (map (\<lambda>d. \<lparr>di_name = dm_name d, di_uuid = dm_uuid d, di_state = dm_state d\<rparr>) domains)
      | _ \<Rightarrow> io_fail (HOperation ''wrong answer to an inventory request''))"

definition rh_act ::
  "'w dispatcher \<Rightarrow> host \<Rightarrow> (instance_ref \<Rightarrow> runner_op) \<Rightarrow> string \<Rightarrow> ('w site, hyp_error, state) io" where
  "rh_act dp host op name =
    io_then (rh_list dp host) (\<lambda>domains.
    io_then (io_of (ok_or (DomainNotFound name) (find (\<lambda>d. di_name d = name) domains))) (\<lambda>d.
      io_err (\<lambda>_. HOperation ''change'') (sync_change dp host (op \<lparr>ref_uuid = di_uuid d, ref_name = name\<rparr>))))"

definition rh_state :: "'w dispatcher \<Rightarrow> host \<Rightarrow> string \<Rightarrow> ('w site, hyp_error, state) io" where
  "rh_state dp host name =
    io_then (rh_list dp host) (\<lambda>domains.
      io_of (ok_or (DomainNotFound name) (map_option di_state (find (\<lambda>d. di_name d = name) domains))))"

definition runner_hypervisor :: "'w dispatcher \<Rightarrow> host \<Rightarrow> 'w site hypervisor" where
  "runner_hypervisor dp host =
    \<lparr>hv_create = (\<lambda>_. io_fail (HOperation ''a domain on another machine is defined by provisioning it, not by XML'')),
     hv_start = (\<lambda>name. io_then (rh_act dp host StartInstance name) (\<lambda>_. io_ok ())),
     hv_stop = (\<lambda>name. io_then (rh_act dp host StopInstance name) (\<lambda>_. io_ok Graceful)),
     hv_reboot = (\<lambda>name. io_then (rh_act dp host RebootInstance name) (\<lambda>_. io_ok ())),
     hv_remove = (\<lambda>name. io_then (rh_act dp host RemoveInstance name) (\<lambda>_. io_ok ())),
     hv_list = rh_list dp host,
     hv_state = rh_state dp host\<rparr>"

section \<open>Images\<close>

definition preferred_version :: "image \<Rightarrow> (string \<times> string) list \<Rightarrow> string option" where
  "preferred_version img held =
    (case im_current_checksum img of
       Some current \<Rightarrow>
         if (im_name img, current) \<in> set held then Some current
         else map_option snd (find (\<lambda>(name, _). name = im_name img) held)
     | None \<Rightarrow> map_option snd (find (\<lambda>(name, _). name = im_name img) held))"

text \<open>A field of the image digest: its length as eight bytes, then its bytes.\<close>

definition digest_field :: "string \<Rightarrow> string" where
  "digest_field v = map (\<lambda>k. char_of (length v div 256 ^ k mod 256)) (rev [0..<8]) @ v"

definition image_digest :: "'w dispatcher \<Rightarrow> image_request \<Rightarrow> string" where
  "image_digest dp request = digest_of dp (digest_field (ir_name request) @ digest_field (ir_url request) @
    (case ir_have request of Some have \<Rightarrow> CHR 0x01 # digest_field have | None \<Rightarrow> [CHR 0x00]))"

definition ensure_image ::
  "'w dispatcher \<Rightarrow> host \<Rightarrow> image \<Rightarrow> string option \<Rightarrow> ('w site, dyn_error, string) io" where
  "ensure_image dp host img have =
    (if h_machine_id host = None then io_fail (OtherCause (''runner '' @ h_name host @ '' has not reported its machine identity''))
     else
       let request = \<lparr>ir_name = im_name img, ir_url = im_url img, ir_have = have\<rparr> in
       (\<lambda>s. let current = dp_held dp (st_world s) in
       io_then (object_fence_for (ir_name request) (image_digest dp request) (l_epoch current)) (\<lambda>obj.
       io_then (io_of (endpoint_of ''runner '' host)) (\<lambda>endpoint.
       io_then (io_err OtherCause (send dp endpoint host current (EnsureImage request) (Some obj))) (\<lambda>reply.
         case reply of
           ImageReady name checksum present img_bytes \<Rightarrow>
             if name \<noteq> im_name img then io_fail (OtherCause ''runner answered with another image'')
             else (\<lambda>s. case dp_now dp (st_world s) of (now, w) \<Rightarrow>
               io_then (io_err StoreCause (on_store (record_host_image (h_id host) name checksum now)))
                 (\<lambda>_. io_ok checksum) (s\<lparr>st_world := w\<rparr>))
         | _ \<Rightarrow> io_fail (OtherCause ''wrong answer to an image request'')))) s))"

definition sync_images :: "'w dispatcher \<Rightarrow> host \<Rightarrow> 'w site \<Rightarrow> 'w site" where
  "sync_images dp host s =
    (let held = host_images (dp_format_time dp) (h_id host) (st_db s) in
     fold (\<lambda>img. io_forget (ensure_image dp host img (preferred_version img held))) (images (st_db s)) s)"

section \<open>Networks\<close>

record network_sync =
  ns_applied :: "int \<rightharpoonup> string"
  ns_boots :: "int \<rightharpoonup> string"

definition note_boot :: "int \<Rightarrow> string \<Rightarrow> network_sync \<Rightarrow> network_sync" where
  "note_boot host_id boot_id ns =
    (if boot_id = [] then ns
     else
       let previous = ns_boots ns host_id; ns1 = ns\<lparr>ns_boots := (ns_boots ns)(host_id \<mapsto> boot_id)\<rparr> in
       if previous \<noteq> None \<and> previous \<noteq> Some boot_id
       then ns1\<lparr>ns_applied := (ns_applied ns1)(host_id := None)\<rparr> else ns1)"

definition sync_network ::
  "'w dispatcher \<Rightarrow> host \<Rightarrow> network_sync \<Rightarrow> 'w site \<Rightarrow> ((dyn_error, unit) result \<times> network_sync) \<times> 'w site" where
  "sync_network dp host ns s =
    (if h_machine_id host = None then ((Inl (OtherCause (''runner '' @ h_name host @ '' has not reported its machine identity'')), ns), s)
     else case machine_network (dp_format_time dp) (dp_plan dp) (dp_high_ports dp) (h_id host)
         (dp_controller_host_id dp) (st_db s) of
       Inl e \<Rightarrow> ((Inl (StoreCause e), ns), s)
     | Inr network \<Rightarrow>
     (case machine_check network of
       Inl e \<Rightarrow> ((Inl (NetCause e), ns), s)
     | Inr _ \<Rightarrow>
     (let digest = digest_of dp (dp_json_network dp network) in
      if ns_applied ns (h_id host) = Some digest then ((Inr (), ns), s)
      else
        let current = dp_held dp (st_world s) in
        case io_then (object_fence_for (''network:'' @ show_int (h_id host)) digest (l_epoch current)) (\<lambda>obj.
             io_then (io_of (endpoint_of ''runner '' host)) (\<lambda>endpoint.
               io_err OtherCause (send dp endpoint host current (ApplyNetwork network) (Some obj)))) s of
          (Inl e, s1) \<Rightarrow> ((Inl e, ns), s1)
        | (Inr (NetworkApplied n_bridges n_added n_removed n_unchanged), s1) \<Rightarrow>
            ((Inr (), ns\<lparr>ns_applied := (ns_applied ns)(h_id host \<mapsto> digest)\<rparr>), s1)
        | (Inr _, s1) \<Rightarrow> ((Inl (OtherCause ''wrong answer to a network request''), ns), s1))))"

section \<open>Polling one machine\<close>

definition failed_seen :: "string \<Rightarrow> host_seen" where
  "failed_seen e = \<lparr>hs_machine_id = None, hs_accepted_epoch = 0, hs_arch = None, hs_cpu_count = None,
    hs_memory_total_mib = None, hs_storage_total_gib = None, hs_storage_available_gib = None,
    hs_hypervisor_version = None, hs_error = Some e\<rparr>"

definition poll_host :: "'w dispatcher \<Rightarrow> string \<Rightarrow> host \<Rightarrow> 'w site \<Rightarrow> (host_seen \<times> string) \<times> 'w site" where
  "poll_host dp endpoint host s =
    (case send dp endpoint host (dp_held dp (st_world s)) OpHealth None s of
       (Inl e, s1) \<Rightarrow> ((failed_seen e, []), s1)
     | (Inr (RHealth he), s1) \<Rightarrow>
         (case send dp endpoint host (dp_held dp (st_world s1)) OpCapabilities None s1 of
            (Inl e, s2) \<Rightarrow> ((failed_seen e, []), s2)
          | (Inr (RCapabilities ca), s2) \<Rightarrow>
              ((\<lparr>hs_machine_id = Some (he_machine_id he), hs_accepted_epoch = he_accepted_epoch he,
                hs_arch = Some (ca_arch ca), hs_cpu_count = Some (ca_cpu_count ca),
                hs_memory_total_mib = Some (ca_memory_total_mib ca),
                hs_storage_total_gib = Some (ca_storage_total_gib ca),
                hs_storage_available_gib = Some (ca_storage_available_gib ca),
                hs_hypervisor_version = Some (ca_hypervisor_version ca), hs_error = None\<rparr>, he_boot_id he), s2)
          | (Inr _, s2) \<Rightarrow> ((failed_seen ''wrong answer to a capabilities request'', []), s2))
     | (Inr _, s1) \<Rightarrow> ((failed_seen ''wrong answer to a health request'', []), s1))"

definition observed_changes :: "domain_row list \<Rightarrow> vm_instance list \<Rightarrow> (string \<times> state) list" where
  "observed_changes domains rows =
    (let seen = map_of (rev (map (\<lambda>d. (dm_uuid d, dm_state d)) domains)) in
     List.map_filter (\<lambda>i.
       let st = (case seen (i_uuid i) of Some st \<Rightarrow> st | None \<Rightarrow> Stopped) in
       if st \<noteq> i_state i then Some (i_uuid i, st) else None) rows)"

definition observe_instances :: "'w dispatcher \<Rightarrow> string \<Rightarrow> host \<Rightarrow> ('w site, dyn_error, nat) io" where
  "observe_instances dp endpoint host s =
    (let rows = instances_on_host (dp_format_time dp) (h_id host) (st_db s) in
     if rows = [] then (Inr 0, s)
     else
       io_then (io_err OtherCause (send dp endpoint host (dp_held dp (st_world s)) OpInventory None)) (\<lambda>reply.
         case reply of
           RInventory domains \<Rightarrow>
             (let states = observed_changes domains rows in
              io_then (io_err StoreCause (on_store (update_observed_states states))) (\<lambda>_. io_ok (length states)))
         | _ \<Rightarrow> io_fail (OtherCause ''wrong answer to an inventory request'')) s)"

text \<open>One task of a sweep.  It answers with the machine and its boot id when it is healthy.
  The earlier health it reads first is only logged, but a failing read ends the task.\<close>

definition poll_task ::
  "'w dispatcher \<Rightarrow> int option \<Rightarrow> string \<Rightarrow> host \<Rightarrow> ('w site, store_error, (host \<times> string) option) io" where
  "poll_task dp local_host_id endpoint host =
    io_then (read_store (host_observation (h_id host))) (\<lambda>before s.
      case poll_host dp endpoint host s of
        ((seen, boot_id), s1) \<Rightarrow>
          (case dp_now dp (st_world s1) of (now, w) \<Rightarrow>
            io_then (on_store (observe_host (h_id host) seen now)) (\<lambda>after s2.
              let healthy = (hs_error seen = None);
                  s3 = (if healthy \<and> local_host_id \<noteq> Some (h_id host)
                        then io_forget (observe_instances dp endpoint host) s2 else s2) in
              if healthy
              then io_then (read_store (host_of (h_id host))) (\<lambda>row. io_ok (Some (row, boot_id))) s3
              else (Inr None, s3)) (s1\<lparr>st_world := w\<rparr>)))"

text \<open>A sweep.  Its tasks run at the same time in the code; here they run one after
  another, in the order in which \<open>hosts\<close> lists the machines.\<close>

fun poll_all ::
  "'w dispatcher \<Rightarrow> int option \<Rightarrow> host list \<Rightarrow> 'w site \<Rightarrow> (host \<times> string) list \<times> 'w site" where
  "poll_all dp local_host_id [] s = ([], s)"
| "poll_all dp local_host_id (host # rest) s =
    (case h_endpoint host of
       None \<Rightarrow> poll_all dp local_host_id rest s
     | Some endpoint \<Rightarrow>
         (case poll_task dp local_host_id endpoint host s of
            (r, s1) \<Rightarrow>
              (case poll_all dp local_host_id rest s1 of
                 (polled, s2) \<Rightarrow>
                   ((case r of Inr (Some p) \<Rightarrow> p # polled | _ \<Rightarrow> polled), s2))))"

definition tick :: "'w dispatcher \<Rightarrow> int option \<Rightarrow> 'w site \<Rightarrow> (host \<times> string) list \<times> 'w site" where
  "tick dp local_host_id s = poll_all dp local_host_id (hosts (st_db s)) s"

text \<open>What \<open>PollTask::run\<close> does with the machines of a sweep: first the network, then the
  images.  The image work is a task of its own in the code.\<close>

fun after_tick ::
  "'w dispatcher \<Rightarrow> (host \<times> string) list \<Rightarrow> network_sync \<Rightarrow> 'w site \<Rightarrow> network_sync \<times> 'w site" where
  "after_tick dp [] ns s = (ns, s)"
| "after_tick dp ((host, boot_id) # rest) ns s =
    (case sync_network dp host (note_boot (h_id host) boot_id ns) s of
       ((r, ns1), s1) \<Rightarrow> after_tick dp rest ns1 (sync_images dp host s1))"

end
