(* ===== verification/Images_Store.thy ===== *)
theory Images_Store
  imports Bento_Site Store_Images Store_Hosts Hypervisor_Xml
begin

text \<open>
  The image store: \<open>crates/images/src/store.rs\<close>, \<open>fetch.rs\<close>, \<open>overlay.rs\<close> and \<open>report.rs\<close>, with
  the adapters \<open>ImageDb\<close> and \<open>ImageReport\<close> of \<open>bentod/src/adapters.rs\<close>.

  \<open>image_store\<close> is the struct \<open>Store\<close>: its directory and tools, and the libraries it uses
  (the HTTP client, the command runner, SHA-256, random names, the clock).  A command
  may change files, so it runs on the whole disk.  The two locks exclude other users of
  the directory; here operations run one after another and taking a lock can only fail.
\<close>

section \<open>Errors\<close>

datatype images_cause = DbCause store_error | TextCause string

datatype images_error =
    InvalidChecksum string
  | ImIo string fs_error
  | ImDependency string images_cause
  | ImInvalid string
  | ImHttp string
  | ImCommand string string
  | ImMultiple "images_error list"

fun joined :: "images_error list \<Rightarrow> (images_error, unit) result" where
  "joined [] = Inr ()"
| "joined [e] = Inl e"
| "joined (e # f # es) = Inl (ImMultiple (e # f # es))"

section \<open>The store\<close>

datatype run_error = RunFailed string | RunTimedOut

record 'x image_store =
  is_dir :: string
  is_faults :: "'x faults"
  is_url_error :: "string \<Rightarrow> string option"
  is_get :: "string \<Rightarrow> ('x, string, nat \<times> (string, bytes) result list) io"
  is_run :: "string \<Rightarrow> string list \<Rightarrow> ('x disk, run_error, string) io"
  is_sha256 :: "bytes \<Rightarrow> bytes"
  is_random :: "'x \<Rightarrow> string \<times> 'x"
  is_now :: "'x \<Rightarrow> time \<times> 'x"
  is_format_time :: "time \<Rightarrow> string"
  is_qemu_img :: string
  is_podman :: string
  is_builder_image :: string
  is_bootc_rootfs :: string
  is_container_storage :: string

text \<open>\<open>str::trim\<close> on UTF-8: the encodings of the characters with the property White_Space.\<close>

definition white_space :: "string list" where
  "white_space = [[CHR 0x09], [CHR 0x0A], [CHR 0x0B], [CHR 0x0C], [CHR 0x0D], [CHR 0x20],
     [CHR 0xC2, CHR 0x85], [CHR 0xC2, CHR 0xA0], [CHR 0xE1, CHR 0x9A, CHR 0x80]] @
     map (\<lambda>k. [CHR 0xE2, CHR 0x80, char_of (128 + k)]) [0..<11] @
     [[CHR 0xE2, CHR 0x80, CHR 0xA8], [CHR 0xE2, CHR 0x80, CHR 0xA9], [CHR 0xE2, CHR 0x80, CHR 0xAF],
      [CHR 0xE2, CHR 0x81, CHR 0x9F], [CHR 0xE3, CHR 0x80, CHR 0x80]]"

function trim_start :: "string \<Rightarrow> string" where
  "trim_start s = (case find (\<lambda>w. w \<noteq> [] \<and> prefix w s) white_space of
     None \<Rightarrow> s | Some w \<Rightarrow> trim_start (drop (length w) s))"
  by pat_completeness auto

termination
  by (relation "measure length") (auto simp: find_Some_iff prefix_def)

function trim_end :: "string \<Rightarrow> string" where
  "trim_end s = (case find (\<lambda>w. w \<noteq> [] \<and> suffix w s) white_space of
     None \<Rightarrow> s | Some w \<Rightarrow> trim_end (take (length s - length w) s))"
  by pat_completeness auto

termination
  by (relation "measure length") (auto simp: find_Some_iff suffix_def)

definition trim :: "string \<Rightarrow> string" where
  "trim s = trim_end (trim_start s)"

definition normalize_checksum :: "string \<Rightarrow> (images_error, string) result" where
  "normalize_checksum checksum =
    (let lowercase = to_ascii_lowercase (trim checksum);
         bare = (case strip_prefix ''sha256:'' lowercase of
             Some rest \<Rightarrow> rest
           | None \<Rightarrow> (case strip_prefix ''sha256-'' lowercase of Some rest \<Rightarrow> rest | None \<Rightarrow> lowercase)) in
     if length bare \<noteq> 64 \<or> \<not> list_all is_ascii_hexdigit bare then Inl (InvalidChecksum checksum)
     else Inr bare)"

definition path_normalized :: "'x image_store \<Rightarrow> string \<Rightarrow> string" where
  "path_normalized st checksum = path_join (is_dir st) (''sha256-'' @ checksum @ ''.qcow2'')"

definition path_of :: "'x image_store \<Rightarrow> string \<Rightarrow> (images_error, string) result" where
  "path_of st checksum = and_then (normalize_checksum checksum) (\<lambda>c. Inr (path_normalized st c))"

definition files :: "string \<Rightarrow> ('x disk, fs_error, 'a) io \<Rightarrow> ('x disk, images_error, 'a) io" where
  "files context m = io_err (ImIo context) m"

definition acquire_named_lock :: "'x image_store \<Rightarrow> string \<Rightarrow> ('x disk, images_error, unit) io" where
  "acquire_named_lock st lock_name =
    (let path = path_join (is_dir st) lock_name in
     io_then (files ''create image directory'' (fs_check (is_faults st) FsMkdir (is_dir st))) (\<lambda>_.
     io_then (files ''open lock file'' (fs_step (is_faults st) FsOpen path (\<lambda>d.
         (Inr (), if file_at d path = None then put_file path [] d else d)))) (\<lambda>_.
       files ''flock'' (fs_check (is_faults st) FsLock path))))"

definition acquire_lock :: "'x image_store \<Rightarrow> ('x disk, images_error, unit) io" where
  "acquire_lock st = acquire_named_lock st ''.lock''"

definition acquire_oci_lock :: "'x image_store \<Rightarrow> ('x disk, images_error, unit) io" where
  "acquire_oci_lock st = acquire_named_lock st ''.oci.lock''"

text \<open>The adapter to the database.\<close>

definition image_db :: "string \<Rightarrow> (db \<Rightarrow> (store_error, 'a) result \<times> db) \<Rightarrow> ('w site, images_error, 'a) io" where
  "image_db context f = io_err (\<lambda>e. ImDependency context (DbCause e)) (on_store f)"

definition has_image_version :: "string \<Rightarrow> db \<Rightarrow> bool" where
  "has_image_version checksum d = list_ex (\<lambda>v. iv_checksum v = checksum) (db_image_versions d)"

definition checksum_in_use :: "string \<Rightarrow> db \<Rightarrow> bool" where
  "checksum_in_use checksum d = list_ex (\<lambda>i. i_base_checksum i = checksum) (db_instances d)"

text \<open>A step that takes a value from the environment: a random name, the time.\<close>

definition with_env ::
  "('x \<Rightarrow> 'v \<times> 'x) \<Rightarrow> ('v \<Rightarrow> ('x disk site, 'e, 'a) io) \<Rightarrow> ('x disk site, 'e, 'a) io" where
  "with_env f g s =
    (case f (dk_env (st_world s)) of (v, x) \<Rightarrow> g v (s\<lparr>st_world := (st_world s)\<lparr>dk_env := x\<rparr>\<rparr>))"

section \<open>Downloading\<close>

definition hex_encode :: "bytes \<Rightarrow> string" where
  "hex_encode content = concat (map hex_byte content)"

text \<open>The file a version was moved to, removed again when a later step fails.\<close>

definition with_rollback ::
  "'x image_store \<Rightarrow> string \<Rightarrow> ('x disk site, 'e, 'a) io \<Rightarrow> ('x disk site, 'e, 'a) io" where
  "with_rollback st path m = io_match m io_ok (\<lambda>e s.
    (Inl e, io_forget (on_world (fs_remove (is_faults st) path)) s))"

definition persist_temp_path :: "'x image_store \<Rightarrow> string \<Rightarrow> string \<Rightarrow> ('x disk, images_error, unit) io" where
  "persist_temp_path st temporary_path path =
    io_then (files ''chmod image'' (fs_check (is_faults st) FsChmod temporary_path)) (\<lambda>_.
      files (''store at '' @ path) (fs_rename (is_faults st) temporary_path path))"

text \<open>The body of the download: writing, hashing and counting each chunk.\<close>

fun download_chunks ::
  "'x image_store \<Rightarrow> string \<Rightarrow> string \<Rightarrow> (string, bytes) result list \<Rightarrow> bytes \<Rightarrow> nat \<Rightarrow>
    ('x disk, images_error, bytes \<times> nat) io" where
  "download_chunks st url path [] hashed count = io_ok (hashed, count)"
| "download_chunks st url path (Inl e # rest) hashed count = io_fail (ImHttp (''download '' @ url @ '': '' @ e))"
| "download_chunks st url path (Inr chunk # rest) hashed count =
    io_then (files (''download '' @ url) (fs_write_all (is_faults st) path chunk)) (\<lambda>_.
      if count + length chunk > u64_max then io_fail (ImInvalid ''download exceeds u64 size'')
      else download_chunks st url path rest (hashed @ chunk) (count + length chunk))"

definition check_pin :: "string option \<Rightarrow> string \<Rightarrow> (images_error, unit) result" where
  "check_pin pinned_checksum checksum =
    (case pinned_checksum of
       None \<Rightarrow> Inr ()
     | Some p \<Rightarrow>
         (case normalize_checksum p of
            Inl e \<Rightarrow> Inl (ImInvalid ''pinned checksum'')
          | Inr pinned \<Rightarrow>
              ensure (pinned = checksum)
                (ImInvalid (''checksum mismatch: pinned '' @ pinned @ '', downloaded '' @ checksum))))"

definition commit_download ::
  "'x image_store \<Rightarrow> image \<Rightarrow> string \<Rightarrow> string \<Rightarrow> nat \<Rightarrow> ('x disk site, images_error, unit) io" where
  "commit_download st img temporary_path checksum count =
    io_then (on_world (acquire_lock st)) (\<lambda>_ s.
      let path = path_normalized st checksum in
      if has_image_version checksum (st_db s) then
        io_match (on_world (fs_metadata (is_faults st) path))
          (\<lambda>_. image_db ''mark existing version current'' (set_current_checksum (im_name img) checksum))
          (\<lambda>e. if e = FsNotFound
               then io_then (on_world (persist_temp_path st temporary_path path)) (\<lambda>_.
                 with_rollback st path
                   (image_db ''mark repaired version current'' (set_current_checksum (im_name img) checksum)))
               else image_db ''mark existing version current'' (set_current_checksum (im_name img) checksum)) s
      else
        io_then (on_world (persist_temp_path st temporary_path path)) (\<lambda>_.
          with_rollback st path (
            io_then (with_env (is_now st) (\<lambda>now. image_db ''insert image version'' (add_image_version
                \<lparr>iv_checksum = checksum, iv_image_name = im_name img, iv_path = path, iv_size = count,
                 iv_kind = Qcow2, iv_source_digest = None, iv_fetched_at = now\<rparr>))) (\<lambda>_.
              image_db ''mark current'' (set_current_checksum (im_name img) checksum)))) s)"

text \<open>\<open>dropping_temp\<close> on a site.\<close>

definition dropping ::
  "'x image_store \<Rightarrow> string \<Rightarrow> ('x disk site, 'e, 'a) io \<Rightarrow> ('x disk site, 'e, 'a) io" where
  "dropping st path m s =
    (case m s of (r, s1) \<Rightarrow>
      (r, if file_at (st_world s1) path = None then s1
          else io_forget (on_world (fs_remove (is_faults st) path)) s1))"

text \<open>The download with its temporary file open, from the first chunk to the commit.\<close>

definition receive ::
  "'x image_store \<Rightarrow> image \<Rightarrow> string \<Rightarrow> (string, bytes) result list \<Rightarrow> ('x disk site, images_error, unit) io" where
  "receive st img temporary_path chunks =
    io_then (on_world (download_chunks st (im_url img) temporary_path chunks [] 0)) (\<lambda>(hashed, count).
    io_then (on_world (files ''write temporary file'' (fs_check (is_faults st) FsFlush temporary_path))) (\<lambda>_.
    let checksum = hex_encode (is_sha256 st hashed) in
    io_then (io_of (check_pin (im_pinned_checksum img) checksum)) (\<lambda>_.
      commit_download st img temporary_path checksum count)))"

definition download_path :: "'x image_store \<Rightarrow> string \<Rightarrow> string" where
  "download_path st random = path_join (is_dir st) (''download-'' @ random)"

definition fetch_qcow2 :: "'x image_store \<Rightarrow> image \<Rightarrow> ('x disk site, images_error, unit) io" where
  "fetch_qcow2 st img =
    (case is_url_error st (im_url img) of
       Some e \<Rightarrow> io_fail (ImHttp (''build request: '' @ e))
     | None \<Rightarrow>
         io_then (io_err (\<lambda>e. ImDependency (''download '' @ im_url img) (TextCause e))
             (on_world (on_env (is_get st (im_url img))))) (\<lambda>response.
           if fst response \<noteq> 200
           then io_fail (ImHttp (''download '' @ im_url img @ '': unexpected status '' @ show_nat (fst response)))
           else with_env (is_random st) (\<lambda>random.
             let temporary_path = download_path st random in
             io_then (on_world (files ''create temporary file'' (fs_create_new (is_faults st) temporary_path))) (\<lambda>_.
               dropping st temporary_path (receive st img temporary_path (snd response))))))"

section \<open>Building from an OCI image\<close>

definition validate_image_name :: "string \<Rightarrow> (images_error, unit) result" where
  "validate_image_name name =
    ensure (\<not> (name = [] \<or> length name > 63 \<or> \<not> label_char (hd name) \<or> \<not> label_char (last name) \<or>
        \<not> list_all (\<lambda>c. label_char c \<or> c = CHR ''-'') name))
      (ImInvalid ''image name must be a lower-case DNS label'')"

definition TRANSPORTS :: "string list" where
  "TRANSPORTS = [''atomic:'', ''containers-storage:'', ''dir:'', ''docker:'', ''docker-archive:'', ''docker-daemon:'',
     ''oci:'', ''oci-archive:'', ''ostree:'', ''sif:'', ''tarball:'']"

definition validate_oci_reference :: "string \<Rightarrow> (images_error, unit) result" where
  "validate_oci_reference reference =
    (let valid_character = (\<lambda>c. is_ascii_alphanumeric c \<or> c \<in> set ''._-/:@+[]'') in
     ensure (\<not> (reference = [] \<or> length reference > 2048 \<or>
         \<not> (is_ascii_alphanumeric (hd reference) \<or> hd reference = CHR ''['') \<or>
         \<not> list_all valid_character reference \<or>
         list_ex (\<lambda>transport. prefix transport (to_ascii_lowercase reference)) TRANSPORTS))
       (ImInvalid ''OCI image reference is not a valid option-safe registry reference''))"

text \<open>\<open>str::rsplit_once\<close>: around the last occurrence of the separator.\<close>

definition rsplit_once_str :: "string \<Rightarrow> string \<Rightarrow> (string \<times> string) option" where
  "rsplit_once_str sep s =
    (case find (\<lambda>k. prefix sep (drop k s)) (rev [0..<Suc (length s)]) of
       None \<Rightarrow> None
     | Some k \<Rightarrow> Some (take k s, drop (k + length sep) s))"

definition validate_builder_reference :: "string \<Rightarrow> (images_error, unit) result" where
  "validate_builder_reference reference =
    and_then (validate_oci_reference reference) (\<lambda>_.
      case rsplit_once_str ''@sha256:'' reference of
        None \<Rightarrow> Inl (ImInvalid ''bootc builder image must be configured with an immutable @sha256 digest'')
      | Some (name, digest) \<Rightarrow>
          ensure (\<not> (name = [] \<or> length digest \<noteq> 64 \<or> \<not> list_all is_ascii_hexdigit digest))
            (ImInvalid ''bootc builder image must end with @sha256:<64 hex>''))"

definition run_timed ::
  "'x image_store \<Rightarrow> string \<Rightarrow> string \<Rightarrow> string list \<Rightarrow> ('x disk, images_error, string) io" where
  "run_timed st program context args =
    io_err (\<lambda>e. case e of
        RunFailed output \<Rightarrow> ImCommand context output
      | RunTimedOut \<Rightarrow> ImInvalid (context @ '' timed out'')) (is_run st program args)"

definition BOOTC_SCRIPT :: string where
  "BOOTC_SCRIPT = nl @
    ''test -x /usr/bin/cloud-init || { echo 'bootc contract: /usr/bin/cloud-init is missing' >&2; exit 20; }'' @ nl @
    ''test -x /usr/bin/qemu-ga || { echo 'bootc contract: /usr/bin/qemu-ga is missing' >&2; exit 21; }'' @ nl @
    ''test -d /usr/lib/modules || { echo 'bootc contract: /usr/lib/modules is missing' >&2; exit 22; }'' @ nl @
    ''find /usr/lib/modules -type f -name 'vmlinuz*' -print -quit | grep -q . || { echo 'bootc contract: no kernel was found in /usr/lib/modules' >&2; exit 23; }'' @ nl @
    ''find /usr/lib /usr/lib64 -type f -path '*/cloudinit/sources/DataSourceNoCloud.py' -print -quit 2>/dev/null | grep -q . || { echo 'bootc contract: cloud-init NoCloud data source is missing' >&2; exit 24; }'' @ nl"

definition validate_bootc_contract :: "'x image_store \<Rightarrow> string \<Rightarrow> ('x disk, images_error, unit) io" where
  "validate_bootc_contract st reference =
    io_then (run_timed st (is_podman st) ''validate bootc image contract''
      [''run'', ''--rm'', ''--network=none'', ''--entrypoint=/bin/sh'', ''--'', reference, ''-eu'', ''-c'', BOOTC_SCRIPT])
      (\<lambda>_. io_ok ())"

definition hash_file :: "'x image_store \<Rightarrow> string \<Rightarrow> ('x disk, images_error, string \<times> nat) io" where
  "hash_file st path =
    io_then (files ''open generated qcow2'' (fs_step (is_faults st) FsOpen path (\<lambda>d.
        (if file_at d path = None then Inl FsNotFound else Inr (), d)))) (\<lambda>_.
    io_then (files ''read generated qcow2'' (fs_read (is_faults st) path)) (\<lambda>content.
      if length content > u64_max then io_fail (ImInvalid ''generated image exceeds u64 size'')
      else io_ok (hex_encode (is_sha256 st content), length content)))"

definition find_single_qcow2 :: "'x image_store \<Rightarrow> string \<Rightarrow> ('x disk, images_error, string) io" where
  "find_single_qcow2 st root =
    io_then (files ''scan image-builder output'' (fs_check (is_faults st) FsOpen root)) (\<lambda>_ d.
      (case remdups (filter (\<lambda>p. prefix (root @ ''/'') p \<and> path_extension p = Some ''qcow2'') (map fst (dk_files d))) of
         [] \<Rightarrow> Inl (ImInvalid ''image-builder produced no qcow2 artifact'')
       | [disk] \<Rightarrow> Inr disk
       | found \<Rightarrow> Inl (ImInvalid (''image-builder produced '' @ show_nat (length found) @ '' qcow2 artifacts; expected one'')),
       d))"

definition rename_generated_disk :: "'x image_store \<Rightarrow> string \<Rightarrow> string \<Rightarrow> ('x disk, images_error, unit) io" where
  "rename_generated_disk st disk path =
    io_then (files ''chmod generated image'' (fs_check (is_faults st) FsChmod disk)) (\<lambda>_.
      files (''store at '' @ path) (fs_rename (is_faults st) disk path))"

text \<open>The rows of a generated version.\<close>

definition record_generated ::
  "'x image_store \<Rightarrow> image \<Rightarrow> bool \<Rightarrow> string \<Rightarrow> nat \<Rightarrow> string \<Rightarrow> ('x disk site, images_error, unit) io" where
  "record_generated st img present checksum count source_digest =
    io_then
      (if present then io_ok ()
       else with_env (is_now st) (\<lambda>now.
         image_db ''insert generated image version'' (add_image_version
           \<lparr>iv_checksum = checksum, iv_image_name = im_name img, iv_path = path_normalized st checksum, iv_size = count,
            iv_kind = Oci, iv_source_digest = Some source_digest, iv_fetched_at = now\<rparr>))) (\<lambda>_.
    io_then (image_db ''record OCI source digest'' (record_image_source (im_name img) source_digest checksum)) (\<lambda>_.
      image_db ''mark generated version current'' (set_current_checksum (im_name img) checksum)))"

definition commit_generated ::
  "'x image_store \<Rightarrow> image \<Rightarrow> string \<Rightarrow> string \<Rightarrow> nat \<Rightarrow> string \<Rightarrow> ('x disk site, images_error, unit) io" where
  "commit_generated st img disk checksum count source_digest =
    io_then (on_world (acquire_lock st)) (\<lambda>_ s.
      let present = has_image_version checksum (st_db s); path = path_normalized st checksum in
      io_match (on_world (fs_metadata (is_faults st) path))
        (\<lambda>_.
          io_then (if present then io_ok ()
                   else io_then (on_world (hash_file st path)) (\<lambda>(stored_checksum, _).
                     if stored_checksum \<noteq> checksum
                     then io_fail (ImInvalid (''orphaned image file '' @ path @
                       '' does not match its content-addressed checksum''))
                     else io_ok ()))
            (\<lambda>_. record_generated st img present checksum count source_digest))
        (\<lambda>_.
          io_then (on_world (rename_generated_disk st disk path)) (\<lambda>_.
            with_rollback st path (record_generated st img present checksum count source_digest))) s)"

text \<open>The temporary directory of a build, removed with all its files.\<close>

definition dropping_dir :: "string \<Rightarrow> ('x disk site, 'e, 'a) io \<Rightarrow> ('x disk site, 'e, 'a) io" where
  "dropping_dir root m s =
    (case m s of (r, s1) \<Rightarrow>
      (r, s1\<lparr>st_world := (st_world s1)\<lparr>dk_files :=
        filter (\<lambda>(p, _). \<not> prefix (root @ ''/'') p) (dk_files (st_world s1))\<rparr>\<rparr>))"

definition output_path :: "'x image_store \<Rightarrow> string \<Rightarrow> string" where
  "output_path st random = path_join (is_dir st) (''bootc-output-'' @ random)"

definition build_oci :: "'x image_store \<Rightarrow> image \<Rightarrow> string \<Rightarrow> ('x disk site, images_error, unit) io" where
  "build_oci st img digest =
    io_then (on_world (validate_bootc_contract st (im_url img))) (\<lambda>_.
    io_then (on_world (run_timed st (is_podman st) ''pull image-builder''
        [''pull'', ''--quiet'', ''--policy=always'', ''--'', is_builder_image st])) (\<lambda>_.
    with_env (is_random st) (\<lambda>random.
       let output = output_path st random in
       io_then (on_world (files ''create bootc output directory'' (fs_check (is_faults st) FsMkdir output))) (\<lambda>_.
       dropping_dir output (
         io_then (on_world (run_timed st (is_podman st) ''image-builder''
           [''run'', ''--rm'', ''--privileged'', ''--security-opt'', ''label=type:unconfined_t'',
            ''-v'', output @ '':/output'', ''-v'', is_container_storage st @ '':/var/lib/containers/storage'',
            is_builder_image st, ''build'', ''--bootc-ref'', im_url img, ''--bootc-default-fs'', is_bootc_rootfs st,
            ''qcow2''])) (\<lambda>_.
         io_then (on_world (find_single_qcow2 st output)) (\<lambda>disk.
         io_then (on_world (hash_file st disk)) (\<lambda>(checksum, count).
           commit_generated st img disk checksum count digest))))))))"

definition fetch_oci :: "'x image_store \<Rightarrow> image \<Rightarrow> ('x disk site, images_error, unit) io" where
  "fetch_oci st img =
    io_then (io_of (validate_oci_reference (im_url img))) (\<lambda>_.
    io_then (io_of (validate_builder_reference (is_builder_image st))) (\<lambda>_.
    io_then (on_world (files ''create image directory'' (fs_check (is_faults st) FsMkdir (is_dir st)))) (\<lambda>_.
    io_then (on_world (acquire_oci_lock st)) (\<lambda>_.
    io_then (on_world (run_timed st (is_podman st) ''podman pull''
        [''pull'', ''--quiet'', ''--policy=always'', ''--'', im_url img])) (\<lambda>_.
    io_then (on_world (run_timed st (is_podman st) ''podman inspect''
        [''image'', ''inspect'', ''--format={{.Digest}}'', ''--'', im_url img])) (\<lambda>digest_text.
    case normalize_checksum (trim digest_text) of
      Inl _ \<Rightarrow> io_fail (ImInvalid ''podman returned no usable OCI digest'')
    | Inr bare \<Rightarrow>
        let digest = ''sha256:'' @ bare in
        io_then (io_err (\<lambda>e. ImDependency ''find OCI source version'' (DbCause e))
            (read_store (image_version_for_source (im_name img) digest))) (\<lambda>cached.
          case cached of
            None \<Rightarrow> build_oci st img digest
          | Some version \<Rightarrow>
              io_match (on_world (fs_metadata (is_faults st) (iv_path version)))
                (\<lambda>_. image_db ''mark cached OCI build current'' (set_current_checksum (im_name img) (iv_checksum version)))
                (\<lambda>_. build_oci st img digest))))))))"

definition fetch_one :: "'x image_store \<Rightarrow> image \<Rightarrow> ('x disk site, images_error, unit) io" where
  "fetch_one st img = (if im_kind img = Oci then fetch_oci st img else fetch_qcow2 st img)"

section \<open>Collecting\<close>

fun collect_each ::
  "'x image_store \<Rightarrow> string set \<Rightarrow> image_version list \<Rightarrow> 'x disk site \<Rightarrow> images_error list \<times> 'x disk site" where
  "collect_each st current [] s = ([], s)"
| "collect_each st current (v # rest) s =
    (let checksum = iv_checksum v;
         go_on = (\<lambda>found s1. case collect_each st current rest s1 of (es, s2) \<Rightarrow> (found @ es, s2)) in
     if checksum \<in> current \<or> checksum_in_use checksum (st_db s) then go_on [] s
     else
       case image_db (''collect '' @ checksum @ '': delete row'') (delete_image_version checksum) s of
         (Inl e, s1) \<Rightarrow> go_on [e] s1
       | (Inr _, s1) \<Rightarrow>
           (case on_world (fs_remove (is_faults st) (path_normalized st checksum)) s1 of
              (Inl e, s2) \<Rightarrow> go_on (if e = FsNotFound then [] else [ImIo (''collect '' @ checksum @ '': delete file'') e]) s2
            | (Inr _, s2) \<Rightarrow> go_on [] s2))"

definition current_checksums :: "db \<Rightarrow> string set" where
  "current_checksums d = set (List.map_filter im_current_checksum (images d))"

definition collect :: "'x image_store \<Rightarrow> ('x disk site, images_error, unit) io" where
  "collect st =
    io_then (on_world (acquire_lock st)) (\<lambda>_ s.
      case collect_each st (current_checksums (st_db s)) (all_image_versions (is_format_time st) (st_db s)) s of
        (errors, s1) \<Rightarrow> (joined errors, s1))"

section \<open>The commands\<close>

fun fetch_each :: "'x image_store \<Rightarrow> image list \<Rightarrow> 'x disk site \<Rightarrow> images_error list \<times> 'x disk site" where
  "fetch_each st [] s = ([], s)"
| "fetch_each st (img # rest) s =
    (case fetch_one st img s of
       (r, s1) \<Rightarrow>
         (case fetch_each st rest s1 of
            (errors, s2) \<Rightarrow> ((case r of Inl _ \<Rightarrow> [ImInvalid (''fetch '' @ im_name img)] | Inr _ \<Rightarrow> []) @ errors, s2)))"

definition fetch_images :: "'x image_store \<Rightarrow> ('x disk site, images_error, unit) io" where
  "fetch_images st =
    io_then (on_world (files ''create image directory'' (fs_check (is_faults st) FsMkdir (is_dir st)))) (\<lambda>_ s.
      case fetch_each st (images (st_db s)) s of
        (errors, s1) \<Rightarrow>
          (case collect st s1 of
             (Inl e, s2) \<Rightarrow> (joined (errors @ [e]), s2)
           | (Inr _, s2) \<Rightarrow> (joined errors, s2)))"

definition add_oci_image :: "'x image_store \<Rightarrow> string \<Rightarrow> string \<Rightarrow> ('x disk site, images_error, unit) io" where
  "add_oci_image st name reference =
    io_then (io_of (validate_image_name name)) (\<lambda>_.
    io_then (io_of (validate_oci_reference reference)) (\<lambda>_.
    let img = \<lparr>im_name = name, im_url = reference, im_kind = Oci, im_pinned_checksum = None,
               im_current_checksum = None\<rparr> in
    io_then (image_db ''append OCI image to allowlist'' (insert_image img)) (\<lambda>inserted s.
      if \<not> inserted then
        (case find (\<lambda>r. im_name r = name) (images (st_db s)) of
           Some existing \<Rightarrow>
             if im_kind existing = Oci \<and> im_url existing = reference then fetch_one st existing s
             else (Inl (ImInvalid (''image name '' @ name @ '' is already on the allowlist with a different source'')), s)
         | None \<Rightarrow>
             (Inl (ImInvalid (''image name '' @ name @ '' is already on the allowlist with a different source'')), s))
      else
        io_match (fetch_one st img) io_ok
          (\<lambda>e s. (Inl e, io_forget (on_store (delete_unbuilt_image name)) s)) s)))"

definition fetch_named :: "'x image_store \<Rightarrow> string \<Rightarrow> ('x disk site, images_error, unit) io" where
  "fetch_named st name s =
    (case find (\<lambda>r. im_name r = name) (images (st_db s)) of
       None \<Rightarrow> (Inl (ImInvalid (''unknown image '' @ name)), s)
     | Some img \<Rightarrow> fetch_one st img s)"

definition create_overlay ::
  "'x image_store \<Rightarrow> string \<Rightarrow> string \<Rightarrow> nat \<Rightarrow> ('x disk, images_error, unit) io" where
  "create_overlay st checksum overlay_path disk_gib =
    io_then (io_of (normalize_checksum checksum)) (\<lambda>checksum.
      if disk_gib = 0
      then io_fail (ImInvalid (''overlay disk size must be positive, got '' @ show_nat disk_gib @ '' GiB''))
      else
        let backing = path_normalized st checksum in
        io_then (acquire_lock st) (\<lambda>_.
        io_then (io_err (\<lambda>e. if e = FsNotFound then ImInvalid (''image version '' @ checksum @ '' is not in the store'')
                             else ImIo ''stat backing file'' e)
            (fs_metadata (is_faults st) backing)) (\<lambda>_.
        io_then (io_err (\<lambda>e. ImCommand ''qemu-img create'' (case e of RunFailed output \<Rightarrow> output | RunTimedOut \<Rightarrow> []))
            (is_run st (is_qemu_img st)
              [''create'', ''-f'', ''qcow2'', ''-F'', ''qcow2'', ''-b'', backing, overlay_path])) (\<lambda>_.
          io_match (is_run st (is_qemu_img st) [''resize'', overlay_path, show_nat disk_gib @ ''G''])
            (\<lambda>_. io_ok ())
            (\<lambda>e d. (Inl (ImCommand ''qemu-img resize'' (case e of RunFailed output \<Rightarrow> output | RunTimedOut \<Rightarrow> [])),
                    io_forget (fs_remove (is_faults st) overlay_path) d))))))"

record image_status =
  ims_name :: string
  ims_current_checksum :: "string option"
  ims_older_instances :: nat

definition report :: "db \<Rightarrow> image_status list" where
  "report d =
    sort_key ims_name (map (\<lambda>img.
      \<lparr>ims_name = im_name img, ims_current_checksum = im_current_checksum img,
       ims_older_instances = (case im_current_checksum img of
           None \<Rightarrow> 0
         | Some checksum \<Rightarrow> length (filter (\<lambda>i. i_image_name i = im_name img \<and> i_base_checksum i \<noteq> checksum)
             (db_instances d)))\<rparr>) (images d))"

end
