(* ===== verification/Images_Safety.thy ===== *)
theory Images_Safety
  imports Images_Store
begin

text \<open>
  What the image store keeps: the content addresses and the backing files of instances.

  \<open>quiet\<close> describes the steps that touch no version file, \<open>store_step\<close> what every command
  keeps; the lemmas go through the commands bottom up, for every behaviour of the disk
  and of the tools.  The last section has the properties.
\<close>

section \<open>Content addresses\<close>

lemma path_normalized_inject [simp]: "path_normalized st c = path_normalized st c' \<longleftrightarrow> c = c'"
  by (simp add: path_normalized_def path_join_inject)

lemma other_name:
  assumes "take 1 name \<noteq> ''/''" "take 7 name \<noteq> ''sha256-''"
  shows "path_join (is_dir st) name \<noteq> path_normalized st c"
  using assms by (auto simp: path_normalized_def path_join_inject)

lemma temporary_names [simp]:
  "download_path st r \<noteq> path_normalized st c"
  "path_join (is_dir st) ''.lock'' \<noteq> path_normalized st c"
  "path_join (is_dir st) ''.oci.lock'' \<noteq> path_normalized st c"
  "download_path st r \<noteq> path_join (is_dir st) ''.lock''"
  by (simp_all add: download_path_def other_name path_join_inject)

lemma output_names:
  assumes "prefix (output_path st r @ ''/'') p"
  shows "p \<noteq> path_normalized st c" "p \<noteq> path_join (is_dir st) ''.lock''"
proof -
  obtain rest where p: "p = output_path st r @ ''/'' @ rest" using assms by (auto simp: prefix_def)
  have "output_path st r @ ''/'' @ rest \<noteq> path_join (is_dir st) name" if "take 1 name \<noteq> ''/''" "take 1 name \<noteq> ''b''" for name
    using that by (cases name) (auto simp: output_path_def path_join_def)
  then show "p \<noteq> path_normalized st c" "p \<noteq> path_join (is_dir st) ''.lock''"
    by (simp_all add: p path_normalized_def)
qed

definition content_addressed :: "'x image_store \<Rightarrow> 'x disk \<Rightarrow> bool" where
  "content_addressed st d \<longleftrightarrow>
    (\<forall>c content. file_at d (path_normalized st c) = Some content \<longrightarrow> hex_encode (is_sha256 st content) = c)"

definition bases :: "db \<Rightarrow> string set" where
  "bases d = i_base_checksum ` set (db_instances d)"

definition bases_on_record :: "db \<Rightarrow> bool" where
  "bases_on_record d \<longleftrightarrow> (\<forall>c \<in> bases d. has_image_version c d)"

text \<open>What every command of the store keeps: the instances, the record of their bases, the
  content addresses, and each backing file an instance has.\<close>

definition store_step :: "'x image_store \<Rightarrow> 'x disk site \<Rightarrow> 'x disk site \<Rightarrow> bool" where
  "store_step st s s' \<longleftrightarrow>
    db_instances (st_db s') = db_instances (st_db s) \<and>
    (bases_on_record (st_db s) \<longrightarrow> bases_on_record (st_db s')) \<and>
    (content_addressed st (st_world s) \<longrightarrow> content_addressed st (st_world s')) \<and>
    (bases_on_record (st_db s) \<longrightarrow> (\<forall>c \<in> bases (st_db s). \<forall>content.
      file_at (st_world s) (path_normalized st c) = Some content \<longrightarrow>
      file_at (st_world s') (path_normalized st c) = Some content))"

lemma store_step_refl [simp]: "store_step st s s"
  by (simp add: store_step_def)

lemma store_step_trans: "store_step st s s' \<Longrightarrow> store_step st s' s'' \<Longrightarrow> store_step st s s''"
  by (simp add: store_step_def bases_def)

text \<open>\<open>quiet st A\<close>: no version file outside \<open>A\<close> changes and no row of a version goes.\<close>

definition quiet :: "'x image_store \<Rightarrow> string set \<Rightarrow> 'x disk site \<Rightarrow> 'x disk site \<Rightarrow> bool" where
  "quiet st A s s' \<longleftrightarrow>
    leaves (\<lambda>p. \<exists>c. c \<notin> A \<and> p = path_normalized st c) (st_world s) (st_world s') \<and>
    db_instances (st_db s') = db_instances (st_db s) \<and>
    (\<forall>c. has_image_version c (st_db s) \<longrightarrow> has_image_version c (st_db s'))"

lemma quiet_refl [simp]: "quiet st A s s"
  by (simp add: quiet_def)

lemma quiet_trans: "quiet st A s s' \<Longrightarrow> quiet st A s' s'' \<Longrightarrow> quiet st A s s''"
  by (auto simp: quiet_def intro: leaves_trans)

lemma reflp_quiet: "reflp (quiet st A)"
  by (simp add: reflp_def)

lemma transp_quiet: "transp (quiet st A)"
  using quiet_trans by (rule transpI)

lemma quiet_mono: "quiet st {} s s' \<Longrightarrow> quiet st A s s'"
  by (auto simp: quiet_def leaves_def)

lemma touched_store_step:
  assumes q: "quiet st {c} s s'"
    and at_c: "file_at (st_world s') (path_normalized st c) = file_at (st_world s) (path_normalized st c) \<or>
      file_at (st_world s') (path_normalized st c) = None \<or>
      (\<exists>content. file_at (st_world s') (path_normalized st c) = Some content \<and> hex_encode (is_sha256 st content) = c)"
    and kept: "has_image_version c (st_db s) \<Longrightarrow> file_at (st_world s) (path_normalized st c) \<noteq> None \<Longrightarrow>
      file_at (st_world s') (path_normalized st c) = file_at (st_world s) (path_normalized st c)"
  shows "store_step st s s'"
proof -
  have other: "file_at (st_world s') (path_normalized st x) = file_at (st_world s) (path_normalized st x)" if "x \<noteq> c" for x
    using q that by (auto simp: quiet_def leaves_def)
  have "hex_encode (is_sha256 st content) = x"
    if "content_addressed st (st_world s)" "file_at (st_world s') (path_normalized st x) = Some content" for x content
  proof (cases "x = c \<and> file_at (st_world s') (path_normalized st c) \<noteq> file_at (st_world s) (path_normalized st c)")
    case True
    then show ?thesis using that(2) at_c by force
  next
    case False
    then have "file_at (st_world s) (path_normalized st x) = Some content" using that(2) other [of x] by metis
    then show ?thesis using that(1) unfolding content_addressed_def by blast
  qed
  then have "content_addressed st (st_world s) \<longrightarrow> content_addressed st (st_world s')"
    unfolding content_addressed_def [of st "st_world s'"] by blast
  moreover have "file_at (st_world s') (path_normalized st x) = Some content"
    if "bases_on_record (st_db s)" "x \<in> bases (st_db s)" "file_at (st_world s) (path_normalized st x) = Some content" for x content
    using that kept other [of x] by (cases "x = c") (auto simp: bases_on_record_def)
  moreover have "db_instances (st_db s') = db_instances (st_db s)"
    and "bases_on_record (st_db s) \<longrightarrow> bases_on_record (st_db s')"
    using q by (simp_all add: quiet_def bases_on_record_def bases_def)
  ultimately show ?thesis unfolding store_step_def by blast
qed

lemma quiet_store_step: "quiet st {} s s' \<Longrightarrow> store_step st s s'"
  by (rule touched_store_step [where c = "[]"], erule quiet_mono) (simp_all add: quiet_def leaves_def)


section \<open>Steps that touch no version\<close>

lemma on_world_quiet:
  assumes "io_keeps (leaves (\<lambda>p. \<exists>c. c \<notin> A \<and> p = path_normalized st c)) m"
  shows "io_keeps (quiet st A) (on_world m)"
  by (rule on_world_keeps) (use assms in \<open>simp add: quiet_def io_keeps_def\<close>)

lemma image_db_quiet:
  assumes "\<And>d. db_instances (snd (f d)) = db_instances d"
    and "\<And>d c. has_image_version c d \<Longrightarrow> has_image_version c (snd (f d))"
  shows "io_keeps (quiet st A) (image_db context f)"
  unfolding image_db_def
  by (intro io_keeps_err on_store_keeps) (simp add: quiet_def assms)

lemma set_current_checksum_frame:
  "db_instances (snd (set_current_checksum n c d)) = db_instances d"
  "db_image_versions (snd (set_current_checksum n c d)) = db_image_versions d"
  by (simp_all add: set_current_checksum_def with_tx_def Let_def split: sum.split)

lemma add_image_version_frame:
  "db_instances (snd (add_image_version v d)) = db_instances d"
  "has_image_version c d \<Longrightarrow> has_image_version c (snd (add_image_version v d))"
  by (auto simp: add_image_version_def with_tx_def has_image_version_def list_ex_iff to_sql_int_def)

lemma record_image_source_frame:
  "db_instances (snd (record_image_source n g c d)) = db_instances d"
  "db_image_versions (snd (record_image_source n g c d)) = db_image_versions d"
  by (simp_all add: record_image_source_def with_tx_def)

lemma has_image_version_frame:
  "has_image_version x (snd (set_current_checksum n c d)) = has_image_version x d"
  "has_image_version x (snd (record_image_source n g c d)) = has_image_version x d"
  by (simp_all add: has_image_version_def set_current_checksum_frame record_image_source_frame)

lemma image_db_quiets:
  "io_keeps (quiet st A) (image_db context (set_current_checksum n c))"
  "io_keeps (quiet st A) (image_db context (add_image_version v))"
  "io_keeps (quiet st A) (image_db context (record_image_source n g c))"
  by (rule image_db_quiet; simp add: set_current_checksum_frame add_image_version_frame record_image_source_frame
    has_image_version_frame)+

lemma with_env_quiet:
  fixes st :: "'x image_store"
  assumes "\<And>v. io_keeps (quiet st A) (g v)"
  shows "io_keeps (quiet st A) (with_env f g)"
  unfolding io_keeps_def
proof
  fix s :: "'x disk site"
  obtain v x where f: "f (dk_env (st_world s)) = (v, x)" by fastforce
  let ?s = "s\<lparr>st_world := (st_world s)\<lparr>dk_env := x\<rparr>\<rparr>"
  have "quiet st A s ?s" by (simp add: quiet_def leaves_def)
  moreover have "quiet st A ?s (snd (g v ?s))" using assms by (simp add: io_keeps_def)
  ultimately show "quiet st A s (snd (with_env f g s))" using f by (auto simp: with_env_def intro: quiet_trans)
qed

lemmas quiet_then = io_keeps_then [OF reflp_quiet transp_quiet]
lemmas quiet_match = io_keeps_match [OF transp_quiet]
lemmas quiet_pure = io_keeps_pure [OF reflp_quiet]
lemmas leaves_then = io_keeps_then [OF reflp_leaves transp_leaves]
lemmas leaves_pure = io_keeps_pure [OF reflp_leaves]

lemma acquire_lock_quiet: "io_keeps (quiet st A) (on_world (acquire_lock st))"
  "io_keeps (quiet st A) (on_world (acquire_oci_lock st))"
  unfolding acquire_lock_def acquire_oci_lock_def acquire_named_lock_def files_def Let_def
  by (intro on_world_quiet leaves_then io_keeps_err fs_keeps fs_step_keeps;
      auto simp: leaves_def)+

section \<open>Committing a version\<close>

abbreviation site_files :: "'x disk site \<Rightarrow> string \<Rightarrow> bytes option" where
  "site_files s \<equiv> file_at (st_world s)"

definition same_files :: "'x disk site \<Rightarrow> 'x disk site \<Rightarrow> bool" where
  "same_files s s' \<longleftrightarrow> site_files s' = site_files s"

lemma reflp_same_files: "reflp same_files"
  by (simp add: reflp_def same_files_def)

lemma transp_same_files: "transp same_files"
  by (rule transpI) (simp add: same_files_def)

lemma image_db_same_files: "io_keeps same_files (image_db context f)"
  unfolding image_db_def by (intro io_keeps_err on_store_keeps) (simp add: same_files_def)

lemma with_env_same_files:
  assumes "\<And>v. io_keeps same_files (g v)"
  shows "io_keeps same_files (with_env f g)"
  using assms unfolding io_keeps_def same_files_def with_env_def by (simp add: fun_eq_iff split: prod.split)

lemma with_rollback_files:
  assumes "io_keeps same_files m" "with_rollback st path m s = (r, s')"
  shows "site_files s' = site_files s \<or> site_files s' = (site_files s)(path := None)"
proof -
  obtain r1 s1 where m: "m s = (r1, s1)" by fastforce
  have same: "site_files s1 = site_files s" using io_keepsD [OF assms(1) m] by (simp add: same_files_def)
  show ?thesis
  proof (cases r1)
    case (Inl e)
    obtain r2 d2 where rm: "fs_remove (is_faults st) path (st_world s1) = (r2, d2)" by fastforce
    then have "s' = s1\<lparr>st_world := d2\<rparr>"
      using assms(2) m Inl by (simp add: with_rollback_def io_match_def io_forget_def on_world_def)
    then show ?thesis using fs_remove_file [OF rm] same by simp
  next
    case (Inr x)
    then show ?thesis using assms(2) m same by (simp add: with_rollback_def io_match_def io_ok_def)
  qed
qed

text \<open>Moving a finished file to the path of its version, then the rows, with the rollback.\<close>

lemma move_then_rows:
  assumes rows: "io_keeps same_files m" and ne: "a \<noteq> path"
    and run: "io_then (on_world (io_then (files c1 (fs_check (is_faults st) FsChmod a))
        (\<lambda>_. files c2 (fs_rename (is_faults st) a path)))) (\<lambda>_. with_rollback st path m) s = (r, s')"
  shows "site_files s' path = site_files s path \<or> site_files s' path = None \<or>
    site_files s a \<noteq> None \<and> site_files s' path = site_files s a"
proof -
  obtain r1 d1 where chmod: "fs_check (is_faults st) FsChmod a (st_world s) = (r1, d1)" by fastforce
  have same1: "file_at d1 = site_files s" using fs_check_file [OF chmod] .
  show ?thesis
  proof (cases r1)
    case (Inl e)
    then have "s' = s\<lparr>st_world := d1\<rparr>"
      using run chmod by (simp add: io_then_def on_world_def files_def io_err_def split: prod.splits)
    then show ?thesis using same1 by simp
  next
    case (Inr u)
    obtain r2 d2 where mv: "fs_rename (is_faults st) a path d1 = (r2, d2)" by fastforce
    let ?s = "s\<lparr>st_world := d2\<rparr>"
    from fs_rename_file [OF mv ne] show ?thesis
    proof (elim disjE exE conjE)
      fix content assume 2: "r2 = Inr ()" "file_at d1 a = Some content" "file_at d2 = (file_at d1)(a := None, path \<mapsto> content)"
      then have "with_rollback st path m ?s = (r, s')"
        using run chmod mv Inr by (simp add: io_then_def on_world_def files_def io_err_def)
      from with_rollback_files [OF rows this] show ?thesis using 2 same1 by auto
    next
      fix e assume 2: "r2 = Inl e" "file_at d2 = file_at d1"
      then have "s' = ?s" using run chmod mv Inr by (simp add: io_then_def on_world_def files_def io_err_def)
      then show ?thesis using 2 same1 by simp
    qed
  qed
qed

lemma acquire_lock_files:
  assumes "on_world (acquire_lock st) s = (r, s')"
  shows "site_files s' (path_normalized st c) = site_files s (path_normalized st c)" "st_db s' = st_db s"
proof -
  have "quiet st {} s s'" using io_keepsD [OF acquire_lock_quiet(1) assms] .
  then show "site_files s' (path_normalized st c) = site_files s (path_normalized st c)"
    by (auto simp: quiet_def leaves_def)
  show "st_db s' = st_db s" using assms by (auto simp: on_world_def split: prod.splits)
qed

lemma lock_keeps_file:
  assumes "p \<noteq> path_join (is_dir st) ''.lock''" "on_world (acquire_lock st) s = (r, s')"
  shows "site_files s' p = site_files s p"
proof -
  obtain d where "acquire_lock st (st_world s) = (r, d)" "s' = s\<lparr>st_world := d\<rparr>"
    using assms(2) by (auto simp: on_world_def split: prod.splits)
  moreover have "io_keeps (leaves (\<lambda>q. q = p)) (acquire_lock st)"
    unfolding acquire_lock_def acquire_named_lock_def files_def Let_def
    by (intro leaves_then io_keeps_err fs_keeps fs_step_keeps; use assms(1) in \<open>auto simp: leaves_def\<close>)
  ultimately show ?thesis using io_keepsD leavesD by fastforce
qed

lemma commit_quiet_parts:
  assumes "\<And>c. a \<noteq> path_normalized st c"
  shows "io_keeps (quiet st {c}) (on_world (persist_temp_path st a (path_normalized st c)))"
    "io_keeps (quiet st {c}) (on_world (rename_generated_disk st a (path_normalized st c)))"
    "io_keeps (quiet st A) m \<Longrightarrow> c \<in> A \<Longrightarrow> io_keeps (quiet st A) (with_rollback st (path_normalized st c) m)"
proof -
  let ?P = "\<lambda>p. \<exists>x. x \<notin> {c} \<and> p = path_normalized st x"
  have mv: "io_keeps (leaves ?P) (fs_rename (is_faults st) a (path_normalized st c))"
    using assms by (intro fs_keeps(7)) auto
  show "io_keeps (quiet st {c}) (on_world (persist_temp_path st a (path_normalized st c)))"
    "io_keeps (quiet st {c}) (on_world (rename_generated_disk st a (path_normalized st c)))"
    unfolding persist_temp_path_def rename_generated_disk_def files_def
    by (intro on_world_quiet leaves_then io_keeps_err fs_keeps(1) mv)+
  assume m: "io_keeps (quiet st A) m" and c: "c \<in> A"
  have rm: "io_keeps (quiet st A) (on_world (fs_remove (is_faults st) (path_normalized st c)))"
    using c by (intro on_world_quiet fs_keeps(6)) auto
  have "io_keeps (quiet st A) (\<lambda>s. (Inl e, io_forget (on_world (fs_remove (is_faults st) (path_normalized st c))) s))" for e
    using rm by (simp add: io_keeps_def io_forget_def)
  then show "io_keeps (quiet st A) (with_rollback st (path_normalized st c) m)"
    unfolding with_rollback_def by (intro quiet_match m quiet_pure)
qed

lemma image_rows_same_files:
  "io_keeps same_files (io_then (with_env (is_now st) (\<lambda>now. image_db c1 (f now))) (\<lambda>_. image_db c2 g))"
  "io_keeps same_files (record_generated st img present c n dig)"
  unfolding record_generated_def
  by (intro io_keeps_then [OF reflp_same_files transp_same_files] with_env_same_files image_db_same_files
      | simp add: io_keeps_pure [OF reflp_same_files] with_env_same_files image_db_same_files)+

lemma record_generated_quiet: "io_keeps (quiet st A) (record_generated st img present c n dig)"
  unfolding record_generated_def
  by (intro quiet_then with_env_quiet image_db_quiets | simp add: quiet_pure with_env_quiet image_db_quiets)+


lemma moved_store_step:
  assumes rows: "io_keeps same_files m" "io_keeps (quiet st {c}) m"
    and a: "\<And>c. a \<noteq> path_normalized st c" "site_files s a = Some content" "hex_encode (is_sha256 st content) = c"
    and free: "has_image_version c (st_db s) \<Longrightarrow> site_files s (path_normalized st c) = None"
    and move: "move = persist_temp_path st a (path_normalized st c) \<or> move = rename_generated_disk st a (path_normalized st c)"
    and run: "io_then (on_world move) (\<lambda>_. with_rollback st (path_normalized st c) m) s = (r, s')"
  shows "store_step st s s'"
proof (rule touched_store_step)
  have "io_keeps (quiet st {c}) (on_world move)" using move commit_quiet_parts(1,2) [OF a(1)] by blast
  then have "io_keeps (quiet st {c}) (io_then (on_world move) (\<lambda>_. with_rollback st (path_normalized st c) m))"
    using commit_quiet_parts(3) [OF a(1) rows(2)] by (intro quiet_then) auto
  then show "quiet st {c} s s'" using run by (rule io_keepsD)
next
  have ne: "a \<noteq> path_normalized st c" using a(1) .
  have "site_files s' (path_normalized st c) = site_files s (path_normalized st c) \<or>
      site_files s' (path_normalized st c) = None \<or>
      site_files s a \<noteq> None \<and> site_files s' (path_normalized st c) = site_files s a"
    using move
  proof
    assume "move = persist_temp_path st a (path_normalized st c)"
    then show ?thesis using run unfolding persist_temp_path_def by (intro move_then_rows [OF rows(1) ne]) simp
  next
    assume "move = rename_generated_disk st a (path_normalized st c)"
    then show ?thesis using run unfolding rename_generated_disk_def by (intro move_then_rows [OF rows(1) ne]) simp
  qed
  then show "site_files s' (path_normalized st c) = site_files s (path_normalized st c) \<or>
      site_files s' (path_normalized st c) = None \<or>
      (\<exists>content. site_files s' (path_normalized st c) = Some content \<and> hex_encode (is_sha256 st content) = c)"
    using a(2,3) by metis
next
  assume "has_image_version c (st_db s)" "site_files s (path_normalized st c) \<noteq> None"
  then show "site_files s' (path_normalized st c) = site_files s (path_normalized st c)" using free by simp
qed

lemma same_db_quiet:
  assumes "site_files s' = site_files s" "st_db s' = st_db s"
  shows "quiet st A s s'"
  using assms by (simp add: quiet_def leaves_def)

lemma metadata_site:
  assumes "on_world (fs_metadata ft path) s = (r, s')"
  shows "site_files s' = site_files s" "st_db s' = st_db s" "quiet st A s s'"
    "r = Inl FsNotFound \<Longrightarrow> site_files s path = None" "r = Inr n \<Longrightarrow> site_files s path \<noteq> None"
    "r = Inl e \<Longrightarrow> (\<And>p x. fst (ft_fault ft FsStat p x) = None) \<Longrightarrow> e = FsNotFound"
proof -
  obtain d where d: "fs_metadata ft path (st_world s) = (r, d)" "s' = s\<lparr>st_world := d\<rparr>"
    using assms by (auto simp: on_world_def split: prod.splits)
  show 1: "site_files s' = site_files s" "st_db s' = st_db s" using d fs_metadata_file(1) [OF d(1)] by simp_all
  show "quiet st A s s'" by (rule same_db_quiet [OF 1])
  show "r = Inl FsNotFound \<Longrightarrow> site_files s path = None" "r = Inr n \<Longrightarrow> site_files s path \<noteq> None"
    "r = Inl e \<Longrightarrow> (\<And>p x. fst (ft_fault ft FsStat p x) = None) \<Longrightarrow> e = FsNotFound"
    using fs_metadata_file(2,3,4) [OF d(1)] by blast+
qed

lemma commit_download_step:
  assumes tmp: "\<And>c. tmp \<noteq> path_normalized st c" "tmp \<noteq> path_join (is_dir st) ''.lock''"
    and content: "site_files s tmp = Some content" "hex_encode (is_sha256 st content) = c"
    and run: "commit_download st img tmp c n s = (r, s')"
  shows "store_step st s s'"
proof -
  obtain r0 s1 where lock: "on_world (acquire_lock st) s = (r0, s1)" by fastforce
  have step1: "store_step st s s1"
    using io_keepsD [OF acquire_lock_quiet(1) lock] by (rule quiet_store_step)
  have at_tmp: "site_files s1 tmp = Some content"
    using lock_keeps_file [OF tmp(2) lock] content(1) by simp
  show ?thesis
  proof (cases r0)
    case (Inl e)
    then show ?thesis using run lock step1 by (simp add: commit_download_def io_then_def)
  next
    case (Inr u)
    let ?path = "path_normalized st c"
    have mark: "store_step st s2 s3" if "image_db ctx (set_current_checksum (im_name img) c) s2 = (r, s3)" for ctx s2 s3
      using io_keepsD [OF image_db_quiets(1) that] by (rule quiet_store_step)
    have "store_step st s1 s'"
    proof (cases "has_image_version c (st_db s1)")
      case True
      obtain rm s2 where stat: "on_world (fs_metadata (is_faults st) ?path) s1 = (rm, s2)" by fastforce
      have step2: "store_step st s1 s2" using metadata_site(3) [OF stat] by (rule quiet_store_step)
      consider (there) k where "rm = Inr k" | (missing) "rm = Inl FsNotFound" | (fault) e where "rm = Inl e" "e \<noteq> FsNotFound"
        by (cases rm) auto
      then show ?thesis
      proof cases
        case missing
        then have "io_then (on_world (persist_temp_path st tmp ?path)) (\<lambda>_. with_rollback st ?path
            (image_db ''mark repaired version current'' (set_current_checksum (im_name img) c))) s2 = (r, s')"
          using run lock Inr True stat by (simp add: commit_download_def io_then_def [of "on_world (acquire_lock st)"] Let_def io_match_def)
        then have "store_step st s2 s'"
          using image_db_same_files image_db_quiets(1) tmp(1) at_tmp content(2) metadata_site(1,4) [OF stat] missing
          by (intro moved_store_step [where a = tmp and content = content and c = c]) auto
        with step2 show ?thesis by (rule store_step_trans)
      qed (use run lock Inr True stat step2 mark in
          \<open>auto simp: commit_download_def io_then_def Let_def io_match_def intro: store_step_trans\<close>)
    next
      case False
      let ?rows = "io_then (with_env (is_now st) (\<lambda>now. image_db ''insert image version'' (add_image_version
          \<lparr>iv_checksum = c, iv_image_name = im_name img, iv_path = ?path, iv_size = n,
           iv_kind = Qcow2, iv_source_digest = None, iv_fetched_at = now\<rparr>)))
          (\<lambda>_. image_db ''mark current'' (set_current_checksum (im_name img) c))"
      have "io_then (on_world (persist_temp_path st tmp ?path)) (\<lambda>_. with_rollback st ?path ?rows) s1 = (r, s')"
        using run lock Inr False by (simp add: commit_download_def io_then_def [of "on_world (acquire_lock st)"] Let_def)
      moreover have "io_keeps (quiet st {c}) ?rows" by (intro quiet_then with_env_quiet image_db_quiets)
      ultimately show ?thesis
        using image_rows_same_files(1) tmp(1) at_tmp content(2) False
        by (intro moved_store_step [where a = tmp and content = content and c = c]) auto
    qed
    with step1 show ?thesis by (rule store_step_trans)
  qed
qed

lemma store_then:
  assumes "io_keeps (quiet st {}) m" "io_then m f s = (r, s')"
    and "\<And>x s1. m s = (Inr x, s1) \<Longrightarrow> f x s1 = (r, s') \<Longrightarrow> store_step st s1 s'"
  shows "store_step st s s'"
proof -
  obtain r1 s1 where m: "m s = (r1, s1)" by fastforce
  have 1: "store_step st s s1" using io_keepsD [OF assms(1) m] by (rule quiet_store_step)
  show ?thesis
  proof (cases r1)
    case (Inl e)
    then show ?thesis using assms(2) m 1 by (simp add: io_then_def)
  next
    case (Inr x)
    then have "store_step st s1 s'" using assms(2,3) m by (simp add: io_then_def)
    with 1 show ?thesis by (rule store_step_trans)
  qed
qed

lemma store_with_env:
  assumes "with_env f g s = (r, s')"
    and "\<And>v s1. g v s1 = (r, s') \<Longrightarrow> site_files s1 = site_files s \<Longrightarrow> st_db s1 = st_db s \<Longrightarrow> store_step st s1 s'"
  shows "store_step st s s'"
proof -
  obtain v x where f: "f (dk_env (st_world s)) = (v, x)" by fastforce
  let ?s = "s\<lparr>st_world := (st_world s)\<lparr>dk_env := x\<rparr>\<rparr>"
  have "store_step st ?s s'" using assms(1) f by (intro assms(2)) (auto simp: with_env_def fun_eq_iff)
  moreover have "store_step st s ?s" by (rule quiet_store_step) (simp add: quiet_def leaves_def)
  ultimately show ?thesis by (rule store_step_trans [rotated])
qed

lemma hash_file_site:
  assumes "on_world (hash_file st path) s = (Inr (c, n), s')"
  shows "site_files s' = site_files s" "\<exists>content. site_files s path = Some content \<and> hex_encode (is_sha256 st content) = c"
  using assms
  by (auto simp: hash_file_def files_def io_simps split: if_splits dest!: fs_read_file elim!: fs_step_cases)

lemma hash_file_quiet: "io_keeps (quiet st A) (on_world (hash_file st path))"
  unfolding hash_file_def files_def
  by (intro on_world_quiet leaves_then io_keeps_err fs_step_keeps fs_keeps(3); simp add: leaves_pure)

lemma commit_generated_step:
  assumes disk: "\<And>c. disk \<noteq> path_normalized st c" "disk \<noteq> path_join (is_dir st) ''.lock''"
    and content: "site_files s disk = Some content" "hex_encode (is_sha256 st content) = c"
    and stat_ok: "\<And>p x. fst (ft_fault (is_faults st) FsStat p x) = None"
    and run: "commit_generated st img disk c n dig s = (r, s')"
  shows "store_step st s s'"
proof -
  obtain r0 s1 where lock: "on_world (acquire_lock st) s = (r0, s1)" by fastforce
  have step1: "store_step st s s1"
    using io_keepsD [OF acquire_lock_quiet(1) lock] by (rule quiet_store_step)
  let ?path = "path_normalized st c"
  let ?present = "has_image_version c (st_db s1)"
  have at_disk: "site_files s1 disk = Some content" using lock_keeps_file [OF disk(2) lock] content(1) by simp
  obtain rm s2 where stat: "on_world (fs_metadata (is_faults st) ?path) s1 = (rm, s2)" by fastforce
  have step2: "store_step st s1 s2" using metadata_site(3) [OF stat] by (rule quiet_store_step)
  have "store_step st s1 s'" if locked: "r0 = Inr u" for u
  proof (cases rm)
    case (Inl e)
    then have "site_files s1 ?path = None" using metadata_site(4,6) [OF stat] stat_ok by blast
    moreover have "io_then (on_world (rename_generated_disk st disk ?path)) (\<lambda>_.
        with_rollback st ?path (record_generated st img ?present c n dig)) s2 = (r, s')"
      using run lock locked stat Inl
      by (simp add: commit_generated_def io_then_def [of "on_world (acquire_lock st)"] io_match_def Let_def)
    ultimately have "store_step st s2 s'"
      using image_rows_same_files(2) record_generated_quiet disk(1) at_disk content(2) metadata_site(1) [OF stat]
      by (intro moved_store_step [where a = disk and content = content and c = c]) auto
    with step2 show ?thesis by (rule store_step_trans)
  next
    case (Inr k)
    let ?check = "if ?present then io_ok ()
       else io_then (on_world (hash_file st ?path)) (\<lambda>(stored_checksum, _).
         if stored_checksum \<noteq> c
         then io_fail (ImInvalid (''orphaned image file '' @ ?path @ '' does not match its content-addressed checksum''))
         else io_ok ())"
    have check: "io_keeps (quiet st A) ?check" for A
      by (auto intro!: quiet_then hash_file_quiet simp: quiet_pure split: prod.split)
    have "io_then ?check (\<lambda>_. record_generated st img ?present c n dig) s2 = (r, s')"
      using run lock locked stat Inr
      by (simp add: commit_generated_def io_then_def [of "on_world (acquire_lock st)"] io_match_def Let_def)
    with check have "quiet st {} s2 s'"
      by (intro io_keepsD [OF quiet_then [OF _ record_generated_quiet]])
    then show ?thesis using step2 by (blast intro: quiet_store_step store_step_trans)
  qed
  moreover have "s' = s1" if "r0 = Inl e" for e
    using run lock that by (simp add: commit_generated_def io_then_def)
  ultimately show ?thesis using step1 by (cases r0) (auto intro: store_step_trans)
qed


section \<open>Fetching\<close>

lemma download_chunks_keeps:
  assumes "\<not> P path"
  shows "io_keeps (leaves P) (download_chunks st url path chunks hashed n)"
proof (induction chunks arbitrary: hashed n)
  case Nil
  then show ?case by (simp add: leaves_pure)
next
  case (Cons c chunks)
  then show ?case
    by (cases c) (auto simp: leaves_pure files_def intro!: leaves_then io_keeps_err fs_write_all_keeps assms)
qed

lemma download_chunks_file:
  "download_chunks st url path chunks hashed n d = (Inr (h, k), d') \<Longrightarrow> file_at d path = Some hashed \<Longrightarrow>
    file_at d' path = Some h"
proof (induction chunks arbitrary: hashed n d)
  case Nil
  then show ?case by (simp add: io_ok_def)
next
  case (Cons c chunks)
  then show ?case
    by (cases c) (auto simp: io_simps files_def split: if_splits dest: fs_write_all_file)
qed

lemma dropping_step:
  assumes "dropping st path m s = (r, s')" "\<And>c. path \<noteq> path_normalized st c"
    and "\<And>r s1. m s = (r, s1) \<Longrightarrow> store_step st s s1"
  shows "store_step st s s'"
proof -
  obtain r1 s1 where m: "m s = (r1, s1)" by fastforce
  have "io_keeps (quiet st {}) (on_world (fs_remove (is_faults st) path))"
    using assms(2) by (intro on_world_quiet fs_keeps(6)) auto
  then have "store_step st s1 (io_forget (on_world (fs_remove (is_faults st) path)) s1)"
    by (auto simp: io_keeps_def io_forget_def intro: quiet_store_step)
  then have "store_step st s1 s'" using assms(1) m by (auto simp: dropping_def split: if_splits)
  with assms(3) [OF m] show ?thesis by (rule store_step_trans)
qed

lemma on_world_files_quiet:
  "io_keeps (leaves (\<lambda>p. \<exists>c. c \<notin> {} \<and> p = path_normalized st c)) m \<Longrightarrow> io_keeps (quiet st {}) (on_world (files context m))"
  unfolding files_def by (intro on_world_quiet io_keeps_err)

lemma receive_step:
  assumes tmp: "tmp = download_path st random" and empty: "site_files s tmp = Some []"
    and run: "receive st img tmp chunks s = (r, s')"
  shows "store_step st s s'"
  using _ run unfolding receive_def
proof (rule store_then)
  have "\<not> (\<exists>c. c \<notin> {} \<and> tmp = path_normalized st c)" using tmp by simp
  then show "io_keeps (quiet st {}) (on_world (download_chunks st (im_url img) tmp chunks [] 0))"
    by (intro on_world_quiet download_chunks_keeps)
next
  fix x :: "bytes \<times> nat" and s1
  obtain hashed n where x: "x = (hashed, n)" by fastforce
  assume got: "on_world (download_chunks st (im_url img) tmp chunks [] 0) s = (Inr x, s1)"
  have at_tmp: "site_files s1 tmp = Some hashed"
    using got empty x by (auto simp: on_world_iff dest: download_chunks_file)
  let ?c = "hex_encode (is_sha256 st hashed)"
  assume "(case x of (hashed, count) \<Rightarrow>
      io_then (on_world (files ''write temporary file'' (fs_check (is_faults st) FsFlush tmp))) (\<lambda>_.
      let checksum = hex_encode (is_sha256 st hashed) in
      io_then (io_of (check_pin (im_pinned_checksum img) checksum)) (\<lambda>_.
        commit_download st img tmp checksum count))) s1 = (r, s')"
  then have "io_then (on_world (files ''write temporary file'' (fs_check (is_faults st) FsFlush tmp))) (\<lambda>_.
      io_then (io_of (check_pin (im_pinned_checksum img) ?c)) (\<lambda>_. commit_download st img tmp ?c n)) s1 = (r, s')"
    by (simp add: x Let_def)
  with on_world_files_quiet [OF fs_keeps(1)] show "store_step st s1 s'"
  proof (rule store_then)
    fix u s2
    assume "on_world (files ''write temporary file'' (fs_check (is_faults st) FsFlush tmp)) s1 = (Inr u, s2)"
    then have at_tmp2: "site_files s2 tmp = Some hashed"
      using at_tmp by (auto simp: on_world_iff files_def io_err_Inr_iff dest: fs_check_file)
    assume "io_then (io_of (check_pin (im_pinned_checksum img) ?c)) (\<lambda>_. commit_download st img tmp ?c n) s2 = (r, s')"
    then show "store_step st s2 s'"
      using at_tmp2 tmp
      by (auto simp: io_then_def io_of_def split: sum.splits intro: commit_download_step [OF _ _ at_tmp2 refl])
  qed
qed

lemma fetch_qcow2_step:
  assumes "fetch_qcow2 st img s = (r, s')"
  shows "store_step st s s'"
proof (cases "is_url_error st (im_url img)")
  case (Some e)
  then show ?thesis using assms by (simp add: fetch_qcow2_def io_fail_def)
next
  case None
  have get: "io_keeps (quiet st {}) (io_err f (on_world (on_env (is_get st (im_url img)))))" for f :: "string \<Rightarrow> images_error"
    by (intro io_keeps_err on_world_quiet on_env_keeps)
  have body: "store_step st s1 s'"
    if run: "(io_then (on_world (files ''create temporary file'' (fs_create_new (is_faults st)
          (download_path st random)))) (\<lambda>_.
        dropping st (download_path st random)
          (receive st img (download_path st random) chunks))) s1 = (r, s')" for random chunks s1
    using on_world_files_quiet [OF fs_keeps(5)] run
  proof (rule store_then)
    let ?tmp = "download_path st random"
    fix u s2
    assume "on_world (files ''create temporary file'' (fs_create_new (is_faults st) ?tmp)) s1 = (Inr u, s2)"
    then have empty: "site_files s2 ?tmp = Some []"
      by (auto simp: on_world_iff files_def io_err_Inr_iff dest: fs_create_new_file)
    assume "dropping st ?tmp (receive st img ?tmp chunks) s2 = (r, s')"
    then show "store_step st s2 s'" by (rule dropping_step) (simp_all add: receive_step [OF refl empty])
  qed simp
  show ?thesis
    using get assms [unfolded fetch_qcow2_def None option.case]
    by (rule store_then) (auto simp: io_fail_def Let_def split: if_splits intro: body elim!: store_with_env)
qed

text \<open>A command leaves the versions alone: \<open>podman\<close> and \<open>qemu-img\<close> write only where their
  arguments tell them to.\<close>

definition commands_spare_versions :: "'x image_store \<Rightarrow> bool" where
  "commands_spare_versions st \<longleftrightarrow>
    (\<forall>program args d c. file_at (snd (is_run st program args d)) (path_normalized st c) = file_at d (path_normalized st c))"

definition stat_answers :: "'x image_store \<Rightarrow> bool" where
  "stat_answers st \<longleftrightarrow> (\<forall>p x. fst (ft_fault (is_faults st) FsStat p x) = None)"

lemma run_timed_quiet:
  "commands_spare_versions st \<Longrightarrow> io_keeps (quiet st {}) (on_world (run_timed st program context args))"
  unfolding run_timed_def
  by (intro on_world_quiet io_keeps_err) (auto simp: commands_spare_versions_def io_keeps_def leaves_def)

lemma find_single_qcow2_site:
  assumes "on_world (find_single_qcow2 st root) s = (Inr disk, s')"
  shows "prefix (root @ ''/'') disk" "site_files s' = site_files s"
proof -
  obtain r1 d where d: "fs_check (is_faults st) FsOpen root (st_world s) = (r1, d)" by fastforce
  define found where "found = remdups (filter (\<lambda>p. prefix (root @ ''/'') p \<and> path_extension p = Some ''qcow2'') (map fst (dk_files d)))"
  have run: "s' = s\<lparr>st_world := d\<rparr> \<and> found = [disk]"
    using assms d
    by (cases r1; cases found rule: remdups_adj.cases)
      (simp_all add: find_single_qcow2_def files_def on_world_def io_then_def io_err_def found_def [symmetric])
  then have "disk \<in> set found" by simp
  then show "prefix (root @ ''/'') disk" by (simp add: found_def)
  show "site_files s' = site_files s" using run fs_check_file [OF d] by simp
qed

lemma find_single_qcow2_quiet: "io_keeps (quiet st A) (on_world (find_single_qcow2 st root))"
  unfolding find_single_qcow2_def files_def
  by (intro on_world_quiet leaves_then io_keeps_err fs_keeps(1)) (simp add: io_keeps_def)

lemma map_of_filter_path: "map_of (filter (\<lambda>(p, _). Q p) xs) p = (if Q p then map_of xs p else None)"
  by (induction xs) auto

lemma dropping_dir_step:
  assumes "dropping_dir (output_path st random) m s = (r, s')"
    and "\<And>r s1. m s = (r, s1) \<Longrightarrow> store_step st s s1"
  shows "store_step st s s'"
proof -
  obtain r1 s1 where m: "m s = (r1, s1)" by fastforce
  have outside: "\<not> prefix (output_path st random @ ''/'') (path_normalized st c)" for c
    using output_names(1) [of st random "path_normalized st c" c] by blast
  have "quiet st {} s1 s'"
    using assms(1) m by (auto simp: outside dropping_dir_def quiet_def leaves_def file_at_def map_of_filter_path)
  then show ?thesis using assms(2) [OF m] by (blast intro: quiet_store_step store_step_trans)
qed

lemma generated_step:
  assumes stat_ok: "stat_answers st" and disk: "prefix (output_path st random @ ''/'') disk"
    and run: "io_then (on_world (hash_file st disk)) (\<lambda>(checksum, count).
      commit_generated st img disk checksum count digest) s = (r, s')"
  shows "store_step st s s'"
  using hash_file_quiet run
proof (rule store_then)
  fix x :: "string \<times> nat" and s1
  obtain c n where x: "x = (c, n)" by fastforce
  assume "on_world (hash_file st disk) s = (Inr x, s1)"
  from hash_file_site [OF this [unfolded x]] obtain content
    where content: "site_files s1 disk = Some content" "hex_encode (is_sha256 st content) = c" by auto
  assume "(case x of (checksum, count) \<Rightarrow> commit_generated st img disk checksum count digest) s1 = (r, s')"
  then show "store_step st s1 s'"
    using content output_names [OF disk] stat_ok
    by (intro commit_generated_step [of disk st s1 content c]) (auto simp: x stat_answers_def)
qed

lemma build_oci_step:
  assumes spare: "commands_spare_versions st" and stat_ok: "stat_answers st"
    and run: "build_oci st img digest s = (r, s')"
  shows "store_step st s s'"
proof -
  note quiet_run = run_timed_quiet [OF spare]
  have contract: "io_keeps (quiet st {}) (on_world (validate_bootc_contract st url))" for url
  proof -
    have "on_world (io_then (run_timed st p c a) (\<lambda>_. io_ok ())) = io_then (on_world (run_timed st p c a)) (\<lambda>_. io_ok ())" for p c a
      by (auto simp: fun_eq_iff on_world_def io_then_def io_ok_def split: prod.split sum.split)
    then show ?thesis unfolding validate_bootc_contract_def by (simp add: quiet_then quiet_run quiet_pure)
  qed
  have mkdir: "io_keeps (quiet st {}) (on_world (files c (fs_check (is_faults st) FsMkdir p)))" for c p
    by (rule on_world_files_quiet [OF fs_keeps(1)])
  have inside: "store_step st s1 s2"
    if "io_then (on_world (run_timed st (is_podman st) ''image-builder'' args)) (\<lambda>_.
         io_then (on_world (find_single_qcow2 st (output_path st random))) (\<lambda>disk.
         io_then (on_world (hash_file st disk)) (\<lambda>(checksum, count).
           commit_generated st img disk checksum count digest))) s1 = (r', s2)" for random args s1 s2 r'
    using quiet_run that
    by (rule store_then)
      (erule store_then [OF find_single_qcow2_quiet], rule generated_step [OF stat_ok], erule find_single_qcow2_site(1))
  show ?thesis
    using contract run unfolding build_oci_def
    apply (rule store_then)
    apply (erule store_then [OF quiet_run])
    apply (erule store_with_env)
    unfolding Let_def
    apply (erule store_then [OF mkdir])
    apply (erule dropping_dir_step)
    apply (erule inside)
    done
qed

lemma fetch_oci_step:
  assumes spare: "commands_spare_versions st" and stat_ok: "stat_answers st"
    and run: "fetch_oci st img s = (r, s')"
  shows "store_step st s s'"
proof -
  note quiet_run = run_timed_quiet [OF spare]
  have mkdir: "io_keeps (quiet st {}) (on_world (files c (fs_check (is_faults st) FsMkdir p)))" for c p
    by (rule on_world_files_quiet [OF fs_keeps(1)])
  have cached: "io_keeps (quiet st {}) (io_err f (read_store (image_version_for_source n g)))"
    for f :: "store_error \<Rightarrow> images_error" and n g
    by (intro io_keeps_err read_store_keeps reflp_quiet)
  have mark: "store_step st s1 s2"
    if "io_match (on_world (fs_metadata (is_faults st) p)) (\<lambda>_. image_db ctx (set_current_checksum n c))
        (\<lambda>_. build_oci st img digest) s1 = (r', s2)" for p ctx n c digest s1 s2 r'
  proof -
    obtain r1 s3 where stat: "on_world (fs_metadata (is_faults st) p) s1 = (r1, s3)" by fastforce
    have "store_step st s3 s2"
    proof (cases r1)
      case (Inl e)
      then show ?thesis using that stat build_oci_step [OF spare stat_ok] by (auto simp: io_match_def)
    next
      case (Inr k)
      then have "image_db ctx (set_current_checksum n c) s3 = (r', s2)" using that stat by (simp add: io_match_def)
      from io_keepsD [OF image_db_quiets(1) this] show ?thesis by (rule quiet_store_step)
    qed
    then show ?thesis using metadata_site(3) [OF stat] by (blast intro: quiet_store_step store_step_trans)
  qed
  show ?thesis
    using quiet_pure(1) run unfolding fetch_oci_def
    apply (rule store_then)
    apply (erule store_then [OF quiet_pure(1)])
    apply (erule store_then [OF mkdir])
    apply (erule store_then [OF acquire_lock_quiet(2)])
    apply (erule store_then [OF quiet_run])
    apply (erule store_then [OF quiet_run])
    apply (auto simp: Let_def io_fail_def split: sum.splits option.splits elim!: store_then [OF cached]
        intro: mark build_oci_step [OF spare stat_ok])
    done
qed

lemma fetch_one_step:
  "commands_spare_versions st \<Longrightarrow> stat_answers st \<Longrightarrow> fetch_one st img s = (r, s') \<Longrightarrow> store_step st s s'"
  by (auto simp: fetch_one_def split: if_splits intro: fetch_qcow2_step fetch_oci_step)

lemma fetch_each_step:
  assumes "commands_spare_versions st" "stat_answers st"
  shows "fetch_each st imgs s = (es, s') \<Longrightarrow> store_step st s s'"
proof (induction imgs arbitrary: s es)
  case (Cons img imgs)
  obtain r s1 where one: "fetch_one st img s = (r, s1)" by fastforce
  obtain es' s2 where rest: "fetch_each st imgs s1 = (es', s2)" by fastforce
  have "s' = s2" using Cons.prems one rest by simp
  then show ?case using Cons.IH rest fetch_one_step [OF assms one] by (simp add: store_step_trans)
qed simp

section \<open>Collecting\<close>

lemma delete_image_version_cases:
  assumes "delete_image_version c d = (r, d')"
  obtains (refused) e where "r = Inl e" "d' = d"
    | (deleted) "r = Inr ()" "db_instances d' = db_instances d" "db_images d' = db_images d"
        "db_image_versions d' = filter (\<lambda>v. iv_checksum v \<noteq> c) (db_image_versions d)"
  using assms by (auto simp: delete_image_version_def with_tx_def split: if_splits)

lemma delete_step:
  assumes "\<not> checksum_in_use c (st_db s)" "image_db context (delete_image_version c) s = (r, s')"
  shows "store_step st s s'" "\<not> checksum_in_use c (st_db s')"
proof -
  obtain r1 d where del: "delete_image_version c (st_db s) = (r1, d)" by fastforce
  then have s': "s' = s\<lparr>st_db := d\<rparr>"
    using assms(2) by (cases r1) (auto simp: image_db_def io_err_def on_store_def)
  have "db_instances d = db_instances (st_db s) \<and>
      (\<forall>x. x \<noteq> c \<and> has_image_version x (st_db s) \<longrightarrow> has_image_version x d)"
    using del by (cases rule: delete_image_version_cases) (auto simp: has_image_version_def list_ex_iff)
  moreover have "c \<notin> bases (st_db s)" using assms(1) by (auto simp: checksum_in_use_def bases_def list_ex_iff)
  ultimately show "store_step st s s'" "\<not> checksum_in_use c (st_db s')"
    using assms(1) by (auto simp: s' store_step_def bases_on_record_def bases_def checksum_in_use_def)
qed

lemma remove_step:
  assumes "\<not> checksum_in_use c (st_db s)" "on_world (fs_remove ft (path_normalized st c)) s = (r, s')"
  shows "store_step st s s'"
proof -
  obtain d where d: "fs_remove ft (path_normalized st c) (st_world s) = (r, d)" "s' = s\<lparr>st_world := d\<rparr>"
    using assms(2) by (auto simp: on_world_iff)
  have "c \<notin> bases (st_db s)" using assms(1) by (auto simp: checksum_in_use_def bases_def list_ex_iff)
  then show ?thesis
    using fs_remove_file [OF d(1)] unfolding store_step_def content_addressed_def d(2)
    by (auto split: if_splits)
qed

lemma collect_each_step:
  "collect_each st current vs s = (es, s') \<Longrightarrow> store_step st s s'"
proof (induction vs arbitrary: s es)
  case (Cons v vs)
  let ?c = "iv_checksum v"
  show ?case
  proof (cases "?c \<in> current \<or> checksum_in_use ?c (st_db s)")
    case True
    then show ?thesis using Cons.prems by (auto simp: Let_def split: prod.splits intro: Cons.IH)
  next
    case False
    obtain r1 s1 where del: "image_db (''collect '' @ ?c @ '': delete row'') (delete_image_version ?c) s = (r1, s1)" by fastforce
    obtain r2 s2 where rm: "on_world (fs_remove (is_faults st) (path_normalized st ?c)) s1 = (r2, s2)" by fastforce
    have 1: "store_step st s s1" using delete_step(1) False del by blast
    have 2: "store_step st s1 s2" using remove_step [OF delete_step(2) rm] False del by blast
    have "\<exists>es1. collect_each st current vs (case r1 of Inl _ \<Rightarrow> s1 | Inr _ \<Rightarrow> s2) = (es1, s')"
      using Cons.prems False del rm by (auto simp: Let_def split: prod.splits sum.splits)
    then show ?thesis using 1 2 Cons.IH by (cases r1) (auto intro: store_step_trans)
  qed
qed simp

lemma collect_step: "collect st s = (r, s') \<Longrightarrow> store_step st s s'"
  unfolding collect_def
  by (erule store_then [OF acquire_lock_quiet(1)]) (auto split: prod.splits intro: collect_each_step)

lemma fetch_images_step:
  assumes "commands_spare_versions st" "stat_answers st" "fetch_images st s = (r, s')"
  shows "store_step st s s'"
  using on_world_files_quiet [OF fs_keeps(1)] assms(3) unfolding fetch_images_def
proof (rule store_then)
  fix u s1
  assume run: "(case fetch_each st (images (st_db s1)) s1 of
      (errors, s2) \<Rightarrow> (case collect st s2 of
           (Inl e, s3) \<Rightarrow> (joined (errors @ [e]), s3) | (Inr _, s3) \<Rightarrow> (joined errors, s3))) = (r, s')"
  obtain es s2 where each: "fetch_each st (images (st_db s1)) s1 = (es, s2)" by fastforce
  obtain r3 s3 where coll: "collect st s2 = (r3, s3)" by fastforce
  have "s' = s3" using run each coll by (cases r3) auto
  then show "store_step st s1 s'"
    using fetch_each_step [OF assms(1,2) each] collect_step [OF coll] by (simp add: store_step_trans)
qed


definition fault_free :: "'x faults \<Rightarrow> bool" where
  "fault_free ft \<longleftrightarrow> (\<forall>call p x. fst (ft_fault ft call p x) = None)"

lemma fs_remove_fault_free:
  assumes "fault_free ft" "fs_remove ft p d = (r, d')"
  shows "(r = Inr () \<or> r = Inl FsNotFound) \<and> file_at d' = (file_at d)(p := None)"
proof -
  obtain x where "ft_fault ft FsRemove p (dk_env d) = (None, x)"
    using assms(1) unfolding fault_free_def by (metis prod.collapse)
  then show ?thesis using assms(2) by (auto simp: fs_remove_def fs_step_def fun_eq_iff split: option.splits)
qed

lemma fs_step_fault_free:
  assumes "fault_free ft" "\<And>d. fst (f d) = Inr u"
  shows "\<exists>d'. fs_step ft call p f d = (Inr u, d')"
proof -
  obtain x where "ft_fault ft call p (dk_env d) = (None, x)"
    using assms(1) unfolding fault_free_def by (metis prod.collapse)
  then have "fs_step ft call p f d = f (d\<lparr>dk_env := x\<rparr>)" by (simp add: fs_step_def)
  then show ?thesis using assms(2) [of "d\<lparr>dk_env := x\<rparr>"] by (cases "f (d\<lparr>dk_env := x\<rparr>)") simp
qed

lemma acquire_lock_fault_free:
  assumes "fault_free (is_faults st)"
  shows "\<exists>s1. on_world (acquire_lock st) s = (Inr (), s1)"
proof -
  let ?p = "path_join (is_dir st) ''.lock''"
  let ?open = "\<lambda>d. (Inr (), if file_at d ?p = None then put_file ?p [] d else d)"
  have check: "\<exists>d'. fs_check (is_faults st) call p d = (Inr (), d')" for call p d
    unfolding fs_check_def by (rule fs_step_fault_free [OF assms]) (simp add: io_ok_def)
  obtain d1 where 1: "fs_check (is_faults st) FsMkdir (is_dir st) (st_world s) = (Inr (), d1)"
    using check by blast
  obtain d2 where 2: "fs_step (is_faults st) FsOpen ?p ?open d1 = (Inr (), d2)"
    using fs_step_fault_free [OF assms, of ?open] by fastforce
  obtain d3 where 3: "fs_check (is_faults st) FsLock ?p d2 = (Inr (), d3)"
    using check by blast
  show ?thesis
    using 1 2 3 by (simp add: acquire_lock_def acquire_named_lock_def files_def Let_def io_then_def io_err_def on_world_def)
qed

lemma current_checksums_iff: "c \<in> current_checksums d \<longleftrightarrow> Some c \<in> im_current_checksum ` set (db_images d)"
proof -
  have "c \<in> current_checksums d \<longleftrightarrow> (\<exists>r \<in> set (db_images d). im_current_checksum r = Some c)"
    by (auto simp: current_checksums_def images_def List.map_filter_def) force
  then show ?thesis by (auto simp: image_iff eq_commute)
qed

text \<open>The versions a collection keeps.\<close>

definition wanted :: "db \<Rightarrow> string \<Rightarrow> bool" where
  "wanted d c \<longleftrightarrow> c \<in> current_checksums d \<or> checksum_in_use c d"

lemma delete_unwanted:
  assumes "\<not> wanted d c" "c \<in> iv_checksum ` set (db_image_versions d)"
  obtains d' where "delete_image_version c d = (Inr (), d')" "db_instances d' = db_instances d" "db_images d' = db_images d"
    "db_image_versions d' = filter (\<lambda>v. iv_checksum v \<noteq> c) (db_image_versions d)"
proof -
  have "c \<notin> i_base_checksum ` set (db_instances d)" "Some c \<notin> im_current_checksum ` set (db_images d)"
    using assms(1) by (auto simp: wanted_def checksum_in_use_def list_ex_iff current_checksums_iff)
  then have ok: "fst (delete_image_version c d) = Inr ()"
    using assms(2) by (auto simp: delete_image_version_def with_tx_def filter_empty_conv)
  obtain r d' where del: "delete_image_version c d = (r, d')" by fastforce
  with ok show thesis by (cases rule: delete_image_version_cases [OF del]) (auto intro: that)
qed

lemma wanted_cong: "db_instances d' = db_instances d \<Longrightarrow> db_images d' = db_images d \<Longrightarrow> wanted d' = wanted d"
  by (simp add: wanted_def fun_eq_iff checksum_in_use_def current_checksums_iff)

text \<open>What a collection of the versions \<open>cs\<close> leaves.\<close>

definition collected :: "'x image_store \<Rightarrow> string set \<Rightarrow> 'x disk site \<Rightarrow> 'x disk site \<Rightarrow> bool" where
  "collected st cs s s' \<longleftrightarrow>
    db_instances (st_db s') = db_instances (st_db s) \<and> db_images (st_db s') = db_images (st_db s) \<and>
    db_image_versions (st_db s') =
      filter (\<lambda>v. iv_checksum v \<in> cs \<longrightarrow> wanted (st_db s) (iv_checksum v)) (db_image_versions (st_db s)) \<and>
    (\<forall>c. file_at (st_world s') (path_normalized st c) =
      (if c \<in> cs \<and> \<not> wanted (st_db s) c then None else file_at (st_world s) (path_normalized st c)))"

lemma collect_each_exact:
  assumes ff: "fault_free (is_faults st)"
  shows "current = current_checksums (st_db s) \<Longrightarrow> distinct (map iv_checksum vs) \<Longrightarrow>
    iv_checksum ` set vs \<subseteq> iv_checksum ` set (db_image_versions (st_db s)) \<Longrightarrow>
    \<exists>s'. collect_each st current vs s = ([], s') \<and> collected st (iv_checksum ` set vs) s s'"
proof (induction vs arbitrary: s)
  case Nil
  then show ?case by (simp add: collected_def)
next
  case (Cons v vs)
  let ?c = "iv_checksum v" and ?cs = "iv_checksum ` set vs"
  show ?case
  proof (cases "wanted (st_db s) ?c")
    case True
    obtain s' where "collect_each st current vs s = ([], s')" "collected st ?cs s s'"
      using Cons.IH [OF Cons.prems(1)] Cons.prems(2,3) by auto
    then show ?thesis
      using True Cons.prems(1)
      by (intro exI [of _ s']) (auto simp: Let_def wanted_def collected_def intro!: filter_cong)
  next
    case False
    have "?c \<in> iv_checksum ` set (db_image_versions (st_db s))" using Cons.prems(3) by auto
    then obtain d' where d': "delete_image_version ?c (st_db s) = (Inr (), d')" "db_instances d' = db_instances (st_db s)"
        "db_images d' = db_images (st_db s)"
        "db_image_versions d' = filter (\<lambda>v. iv_checksum v \<noteq> ?c) (db_image_versions (st_db s))"
      using delete_unwanted [OF False] by blast
    obtain r2 w2 where rm: "fs_remove (is_faults st) (path_normalized st ?c) (st_world s) = (r2, w2)" by fastforce
    note removed = fs_remove_fault_free [OF ff rm]
    let ?s2 = "s\<lparr>st_db := d', st_world := w2\<rparr>"
    have wanted: "wanted d' = wanted (st_db s)" by (rule wanted_cong [OF d'(2,3)])
    have "current = current_checksums (st_db ?s2)"
      using Cons.prems(1) d'(3) by (auto simp: current_checksums_iff)
    moreover have "distinct (map iv_checksum vs)" "?c \<notin> ?cs" using Cons.prems(2) by auto
    moreover have "?cs \<subseteq> iv_checksum ` set (db_image_versions (st_db ?s2))"
    proof -
      have left: "iv_checksum ` set (db_image_versions d') = iv_checksum ` set (db_image_versions (st_db s)) - {?c}"
        unfolding d'(4) by auto
      have "?cs \<subseteq> iv_checksum ` set (db_image_versions (st_db s))" using Cons.prems(3) by simp
      then have "?cs \<subseteq> iv_checksum ` set (db_image_versions d')" unfolding left using \<open>?c \<notin> ?cs\<close> by blast
      then show ?thesis by simp
    qed
    ultimately obtain s' where s': "collect_each st current vs ?s2 = ([], s')" "collected st ?cs ?s2 s'"
      using Cons.IH by blast
    have "\<not> (?c \<in> current \<or> checksum_in_use ?c (st_db s))" using False Cons.prems(1) by (simp add: wanted_def)
    moreover have "image_db ctx (delete_image_version ?c) s = (Inr (), s\<lparr>st_db := d'\<rparr>)" for ctx
      using d'(1) by (simp add: image_db_def io_err_def on_store_def)
    moreover have "on_world (fs_remove (is_faults st) (path_normalized st ?c)) (s\<lparr>st_db := d'\<rparr>) = (r2, ?s2)"
      using rm by (simp add: on_world_def)
    ultimately have "collect_each st current (v # vs) s = ([], s')"
      using removed s'(1) by (auto simp: Let_def)
    moreover have "collected st (insert ?c ?cs) s s'"
    proof -
      have "filter (\<lambda>v. iv_checksum v \<in> ?cs \<longrightarrow> wanted (st_db s) (iv_checksum v)) (db_image_versions d') =
          filter (\<lambda>v. iv_checksum v \<in> insert ?c ?cs \<longrightarrow> wanted (st_db s) (iv_checksum v)) (db_image_versions (st_db s))"
        unfolding d'(4) filter_filter using False by (intro filter_cong) auto
      then show ?thesis using s'(2) d'(2,3) removed False by (simp add: collected_def wanted)
    qed
    ultimately show ?thesis by auto
  qed
qed

section \<open>Properties\<close>


definition demo_store :: "unit image_store" where
  "demo_store = \<lparr>is_dir = ''/i'', is_faults = \<lparr>ft_fault = (\<lambda>_ _ x. (None, x)), ft_short = (\<lambda>_ _. 0)\<rparr>,
    is_url_error = (\<lambda>_. None), is_get = (\<lambda>_ x. (Inr (200, [Inr [0xCD], Inr [0x01]]), x)),
    is_run = (\<lambda>_ _ d. (Inr [], d)), is_sha256 = (\<lambda>content. content), is_random = (\<lambda>x. (''1'', x)), is_now = (\<lambda>x. (5, x)),
    is_format_time = (\<lambda>_. []), is_qemu_img = ''qemu-img'', is_podman = ''podman'', is_builder_image = [],
    is_bootc_rootfs = [], is_container_storage = []\<rparr>"

definition demo_version :: "string \<Rightarrow> image_version" where
  "demo_version c = \<lparr>iv_checksum = c, iv_image_name = ''deb'', iv_path = path_normalized demo_store c, iv_size = 1,
    iv_kind = Qcow2, iv_source_digest = None, iv_fetched_at = 1\<rparr>"

text \<open>One instance on the version \<open>ab\<close>; the versions \<open>ab\<close> and \<open>ef\<close> are stored, neither is
  current.\<close>

definition demo_site :: "unit disk site" where
  "demo_site = \<lparr>st_db = empty_db\<lparr>db_images := [\<lparr>im_name = ''deb'', im_url = ''u'', im_kind = Qcow2,
        im_pinned_checksum = None, im_current_checksum = None\<rparr>],
      db_image_versions := [demo_version ''ab'', demo_version ''ef''],
      db_instances := [sample_instance\<lparr>i_base_checksum := ''ab''\<rparr>]\<rparr>,
    st_world = \<lparr>dk_files = [(path_normalized demo_store ''ab'', [0xAB]), (path_normalized demo_store ''ef'', [0xEF])],
      dk_env = ()\<rparr>\<rparr>"

lemma hex_values: "hex_encode [0xAB] = ''ab''" "hex_encode [0xEF] = ''ef''"
  by (code_simp)+

lemma demo_ready:
  "commands_spare_versions demo_store" "stat_answers demo_store" "bases_on_record (st_db demo_site)"
  "content_addressed demo_store (st_world demo_site)"
proof -
  show "commands_spare_versions demo_store" "stat_answers demo_store"
    by (simp_all add: commands_spare_versions_def stat_answers_def demo_store_def)
  show "bases_on_record (st_db demo_site)"
    by (simp add: bases_on_record_def bases_def demo_site_def has_image_version_def demo_version_def)
  have "is_sha256 demo_store content = content" for content by (simp add: demo_store_def)
  then show "content_addressed demo_store (st_world demo_site)"
    by (simp add: content_addressed_def demo_site_def file_at_def hex_values)
qed


text \<open>C5. On a disk without faults \<open>collect\<close> succeeds and is exact: the rows that stay are those
  of the versions that are current for an image or the base of an instance, in their
  order, the files of all other recorded versions are gone, and no other version file
  changed.\<close>

theorem collect_exact:
  assumes "fault_free (is_faults st)" "distinct (map iv_checksum (db_image_versions (st_db s)))"
  shows "\<exists>s'. collect st s = (Inr (), s') \<and>
    db_instances (st_db s') = db_instances (st_db s) \<and> db_images (st_db s') = db_images (st_db s) \<and>
    db_image_versions (st_db s') = filter (\<lambda>v. wanted (st_db s) (iv_checksum v)) (db_image_versions (st_db s)) \<and>
    (\<forall>c. file_at (st_world s') (path_normalized st c) =
      (if has_image_version c (st_db s) \<and> \<not> wanted (st_db s) c then None
       else file_at (st_world s) (path_normalized st c)))"
proof -
  obtain s1 where lock: "on_world (acquire_lock st) s = (Inr (), s1)" using acquire_lock_fault_free [OF assms(1)] by blast
  note same = acquire_lock_files [OF lock]
  let ?vs = "all_image_versions (is_format_time st) (st_db s1)"
  have cs: "set ?vs = set (db_image_versions (st_db s))"
    by (simp add: all_image_versions_def newest_first_def same(2))
  have "distinct (map iv_checksum ?vs)"
    using assms(2) by (simp add: distinct_map all_image_versions_def newest_first_def same(2))
  then obtain s' where run: "collect_each st (current_checksums (st_db s1)) ?vs s1 = ([], s')"
      "collected st (iv_checksum ` set ?vs) s1 s'"
    using collect_each_exact [OF assms(1) refl, of ?vs s1] cs same(2) by auto
  have "collect st s = (Inr (), s')" using lock run(1) by (simp add: collect_def io_then_def)
  moreover have "(c \<in> iv_checksum ` set ?vs) = has_image_version c (st_db s)" for c
    using cs by (auto simp: has_image_version_def list_ex_iff)
  moreover have "filter (\<lambda>v. has_image_version (iv_checksum v) (st_db s) \<longrightarrow> wanted (st_db s) (iv_checksum v))
      (db_image_versions (st_db s)) = filter (\<lambda>v. wanted (st_db s) (iv_checksum v)) (db_image_versions (st_db s))"
    by (rule filter_cong) (auto simp: has_image_version_def list_ex_iff)
  ultimately show ?thesis using run(2) same by (simp add: collected_def)
qed

theorem collect_exact_witness:
  "\<exists>s'. collect demo_store demo_site = (Inr (), s') \<and> db_image_versions (st_db s') = [demo_version ''ab''] \<and>
    file_at (st_world s') (path_normalized demo_store ''ab'') = Some [0xAB] \<and>
    file_at (st_world s') (path_normalized demo_store ''ef'') = None"
proof -
  have ff: "fault_free (is_faults demo_store)" by (simp add: fault_free_def demo_store_def)
  have versions: "distinct (map iv_checksum (db_image_versions (st_db demo_site)))"
    by (simp add: demo_site_def demo_version_def)
  have wanted: "wanted (st_db demo_site) ''ab''" "\<not> wanted (st_db demo_site) ''ef''"
    by (simp_all add: wanted_def current_checksums_iff checksum_in_use_def demo_site_def)
  show ?thesis
    using collect_exact [OF ff versions] wanted
    by (auto simp: demo_site_def demo_version_def file_at_def has_image_version_def)
qed

end
