(* ===== verification/Spec2Isabelle.thy ===== *)
theory Spec2Isabelle
  imports Lifecycle_Watch Bentod_Runners Images_Safety
begin

text \<open>
  A verification library for Bento, a control plane that hosts virtual machines.

  The network crate is the first part: prefixes (\<open>Net_Prefix\<close>), runner slots
  (\<open>Net_Slots\<close>) and the subnet plan with its allocators (\<open>Net_Subnet\<close>).
\<close>

end
